theory Spec2Isabelle
  imports Complex_Main "HOL-Library.Char_ord" "HOL-Library.List_Lexorder"
begin

section \<open>The Python run time, as far as the code uses it\<close>

text \<open>
  The repository is Python 2 (\<^verbatim>\<open>xrange\<close>, \<^verbatim>\<open>reduce\<close>). Floats are modelled as
  reals, a raised exception as the left summand of a result, \<^verbatim>\<open>None\<close> as the
  \<open>None\<close> of an option.
\<close>

datatype error =
  InvalidState | KeyError | ValueError | TypeError | ZeroDivisionError | IndexError

text \<open>\<^verbatim>\<open>a[i]\<close> for a non-negative index: out of range raises.\<close>

definition getitem :: "'a list \<Rightarrow> nat \<Rightarrow> error + 'a" where
  "getitem a i = (if i < length a then Inr (a ! i) else Inl IndexError)"

text \<open>Float division: a zero divisor raises.\<close>

definition pydiv :: "real \<Rightarrow> real \<Rightarrow> error + real" where
  "pydiv a b = (if b = 0 then Inl ZeroDivisionError else Inr (a / b))"

section \<open>bisect (standard library) and \<^verbatim>\<open>BisectHelpers\<close>\<close>

text \<open>
  \<^verbatim>\<open>bisect.bisect_left(a, x)\<close>: \<^verbatim>\<open>lo, hi = 0, len(a)\<close>, then
  \<^verbatim>\<open>while lo < hi: mid = (lo+hi)//2; if a[mid] < x: lo = mid+1 else: hi = mid\<close>.
  \<^verbatim>\<open>bisect_right\<close> tests \<^verbatim>\<open>x < a[mid]\<close> and moves \<^verbatim>\<open>hi\<close> when it holds.
\<close>

function bisect_left_loop :: "'a::linorder list \<Rightarrow> 'a \<Rightarrow> nat \<Rightarrow> nat \<Rightarrow> nat" where
  "bisect_left_loop a x lo hi =
     (if lo < hi then
        (let mid = (lo + hi) div 2
         in if a ! mid < x then bisect_left_loop a x (mid + 1) hi
            else bisect_left_loop a x lo mid)
      else lo)"
  by pat_completeness auto
termination
  by (relation "measure (\<lambda>(a, x, lo, hi). hi - lo)") auto

declare bisect_left_loop.simps [simp del]

function bisect_right_loop :: "'a::linorder list \<Rightarrow> 'a \<Rightarrow> nat \<Rightarrow> nat \<Rightarrow> nat" where
  "bisect_right_loop a x lo hi =
     (if lo < hi then
        (let mid = (lo + hi) div 2
         in if x < a ! mid then bisect_right_loop a x lo mid
            else bisect_right_loop a x (mid + 1) hi)
      else lo)"
  by pat_completeness auto
termination
  by (relation "measure (\<lambda>(a, x, lo, hi). hi - lo)") auto

declare bisect_right_loop.simps [simp del]

definition bisect_left :: "'a::linorder list \<Rightarrow> 'a \<Rightarrow> nat" where
  "bisect_left a x = bisect_left_loop a x 0 (length a)"

definition bisect_right :: "'a::linorder list \<Rightarrow> 'a \<Rightarrow> nat" where
  "bisect_right a x = bisect_right_loop a x 0 (length a)"

text \<open>
  The helpers return \<^verbatim>\<open>None\<close> as "not found". \<^verbatim>\<open>if i:\<close> is \<open>i \<noteq> 0\<close>;
  in \<^verbatim>\<open>i != len(a) and a[i] == x\<close> the element is read only when the first test holds.
\<close>

definition index :: "'a::linorder list \<Rightarrow> 'a \<Rightarrow> error + nat option" where
  "index a x =
     (let i = bisect_left a x
      in if i \<noteq> length a then
           (case getitem a i of
              Inl e \<Rightarrow> Inl e
            | Inr v \<Rightarrow> if v = x then Inr (Some i) else Inr None)
         else Inr None)"

definition find_lt :: "'a::linorder list \<Rightarrow> 'a \<Rightarrow> error + 'a option" where
  "find_lt a x =
     (let i = bisect_left a x
      in if i \<noteq> 0 then
           (case getitem a (i - 1) of Inl e \<Rightarrow> Inl e | Inr v \<Rightarrow> Inr (Some v))
         else Inr None)"

definition find_le :: "'a::linorder list \<Rightarrow> 'a \<Rightarrow> error + 'a option" where
  "find_le a x =
     (let i = bisect_right a x
      in if i \<noteq> 0 then
           (case getitem a (i - 1) of Inl e \<Rightarrow> Inl e | Inr v \<Rightarrow> Inr (Some v))
         else Inr None)"

definition find_gt :: "'a::linorder list \<Rightarrow> 'a \<Rightarrow> error + 'a option" where
  "find_gt a x =
     (let i = bisect_right a x
      in if i \<noteq> length a then
           (case getitem a i of Inl e \<Rightarrow> Inl e | Inr v \<Rightarrow> Inr (Some v))
         else Inr None)"

definition find_ge :: "'a::linorder list \<Rightarrow> 'a \<Rightarrow> error + 'a option" where
  "find_ge a x =
     (let i = bisect_left a x
      in if i \<noteq> length a then
           (case getitem a i of Inl e \<Rightarrow> Inl e | Inr v \<Rightarrow> Inr (Some v))
         else Inr None)"

text \<open>
  The keyed variants search \<^verbatim>\<open>[item[key] for item in a]\<close> and return the item of
  \<^verbatim>\<open>a\<close> at the position found. The key is a field accessor.
\<close>

definition find_eq_by_key :: "'r list \<Rightarrow> 'k::linorder \<Rightarrow> ('r \<Rightarrow> 'k) \<Rightarrow> error + 'r option" where
  "find_eq_by_key a x key =
     (let specific_value_list = map key a;
          i = bisect_left specific_value_list x
      in if i \<noteq> length a then
           (case getitem a i of
              Inl e \<Rightarrow> Inl e
            | Inr v \<Rightarrow> if key v = x then Inr (Some v) else Inr None)
         else Inr None)"

definition find_le_by_key :: "'r list \<Rightarrow> 'k::linorder \<Rightarrow> ('r \<Rightarrow> 'k) \<Rightarrow> error + 'r option" where
  "find_le_by_key a x key =
     (let specific_value_list = map key a;
          i = bisect_right specific_value_list x
      in if i \<noteq> 0 then
           (case getitem a (i - 1) of Inl e \<Rightarrow> Inl e | Inr v \<Rightarrow> Inr (Some v))
         else Inr None)"

definition find_gt_by_key :: "'r list \<Rightarrow> 'k::linorder \<Rightarrow> ('r \<Rightarrow> 'k) \<Rightarrow> error + 'r option" where
  "find_gt_by_key a x key =
     (let specific_value_list = map key a;
          i = bisect_right specific_value_list x
      in if i \<noteq> length a then
           (case getitem a i of Inl e \<Rightarrow> Inl e | Inr v \<Rightarrow> Inr (Some v))
         else Inr None)"

section \<open>Library functions and constants taken as parameters\<close>

text \<open>
  What the code takes from outside the repository is a parameter of the model:
  \<^item> \<open>strptime\<close>: \<^verbatim>\<open>datetime.datetime.strptime(s, "%Y-%m-%d")\<close>; the result, a
    \<^verbatim>\<open>datetime\<close> at midnight, is its day number, and \<open>None\<close> is the \<^verbatim>\<open>ValueError\<close>
    of a string that does not parse;
  \<^item> \<open>strftime\<close>: \<^verbatim>\<open>datetime.datetime.strftime(d, "%Y-%m-%d")\<close>;
  \<^item> \<open>set_iter\<close>: the order in which a Python \<^verbatim>\<open>set\<close> built from a list is iterated;
  \<^item> \<open>brenth\<close>: \<^verbatim>\<open>scipy.optimize.brenth(f, a, b)\<close>, which may raise;
  \<^item> \<open>Contribution\<close>, \<open>Distribution\<close>: the members of \<^verbatim>\<open>TransactionTypeEnum\<close>
    (\<^verbatim>\<open>common.model_enums\<close>, which the repository imports and does not contain).
\<close>

record pylib =
  strptime :: "string \<Rightarrow> int option"
  strftime :: "int \<Rightarrow> string"
  set_iter :: "string list \<Rightarrow> string list"
  brenth :: "(real \<Rightarrow> real) \<Rightarrow> real \<Rightarrow> real \<Rightarrow> error + real"
  Contribution :: int
  Distribution :: int

text \<open>A set holds each element once, in some order.\<close>

definition set_iter_ok :: "pylib \<Rightarrow> bool" where
  "set_iter_ok L = (\<forall>xs. distinct (set_iter L xs) \<and> set (set_iter L xs) = set xs)"

section \<open>Data\<close>

text \<open>
  A transaction is a dictionary with \<^verbatim>\<open>date\<close>, \<^verbatim>\<open>value\<close> (a float or \<^verbatim>\<open>None\<close>) and,
  when present, \<^verbatim>\<open>transactionTypeId\<close> (\<open>None\<close>: the key is absent). The date is a
  string, or a \<^verbatim>\<open>datetime\<close> once parsed.
\<close>

record 'd transaction =
  date :: 'd
  val :: "real option"
  transactionTypeId :: "int option"

text \<open>Truth value of the \<^verbatim>\<open>transaction_type_id\<close> argument; \<^verbatim>\<open>x or 0.0\<close>.\<close>

definition truthy :: "int option \<Rightarrow> bool" where
  "truthy t = (case t of None \<Rightarrow> False | Some n \<Rightarrow> n \<noteq> 0)"

definition or_zero :: "real option \<Rightarrow> real" where
  "or_zero v = (case v of None \<Rightarrow> 0 | Some r \<Rightarrow> r)"

section \<open>\<^verbatim>\<open>TransactionUtils.aggregate_transactions_by_date\<close>\<close>

text \<open>
  \<^verbatim>\<open>[x for x in transactions if x["transactionTypeId"] == transaction_type_id]\<close>:
  reading the key of a transaction that lacks it raises.
\<close>

definition filter_by_type ::
  "string transaction list \<Rightarrow> int option \<Rightarrow> error + string transaction list" where
  "filter_by_type transactions transaction_type_id =
     (if list_ex (\<lambda>x. transactionTypeId x = None) transactions then Inl KeyError
      else Inr (filter (\<lambda>x. transactionTypeId x = transaction_type_id) transactions))"

definition grouped_transactions ::
  "string list \<Rightarrow> string transaction list \<Rightarrow> string transaction list list" where
  "grouped_transactions transactions_date_sets transactions =
     map (\<lambda>transaction_date.
            map (\<lambda>txn. \<lparr>date = date txn, val = val txn, transactionTypeId = None\<rparr>)
              (filter (\<lambda>txn. date txn = transaction_date) transactions))
       transactions_date_sets"

definition summed_transaction :: "string transaction list \<Rightarrow> string transaction option" where
  "summed_transaction grp =
     (if length grp > 0 then
        Some \<lparr>date = date (grp ! 0),
              val = Some (sum_list (map (\<lambda>txn. or_zero (val txn)) grp)),
              transactionTypeId = None\<rparr>
      else None)"

text \<open>
  \<^verbatim>\<open>sorted(xs, key=lambda x: strptime(x["date"], "%Y-%m-%d"))\<close> computes the key of every
  element first, in order (subscripting \<^verbatim>\<open>None\<close> and a date that does not parse raise),
  then sorts stably by the keys.
\<close>

fun decorate ::
  "pylib \<Rightarrow> string transaction option list \<Rightarrow> error + (int \<times> string transaction) list" where
  "decorate L [] = Inr []"
| "decorate L (x # xs) =
     (case x of
        None \<Rightarrow> Inl TypeError
      | Some t \<Rightarrow>
          (case strptime L (date t) of
             None \<Rightarrow> Inl ValueError
           | Some k \<Rightarrow>
               (case decorate L xs of
                  Inl e \<Rightarrow> Inl e
                | Inr ks \<Rightarrow> Inr ((k, t) # ks))))"

definition sorted_by_date ::
  "pylib \<Rightarrow> string transaction option list \<Rightarrow> error + string transaction list" where
  "sorted_by_date L xs =
     (case decorate L xs of
        Inl e \<Rightarrow> Inl e
      | Inr ks \<Rightarrow> Inr (map snd (sort_key fst ks)))"

definition aggregate_transactions_by_date ::
  "pylib \<Rightarrow> string transaction list \<Rightarrow> int option \<Rightarrow> error + string transaction list" where
  "aggregate_transactions_by_date L transactions transaction_type_id =
     (if truthy transaction_type_id \<and> length transactions > 0
         \<and> transactionTypeId (transactions ! 0) = None
      then Inl InvalidState
      else
        (case (if truthy transaction_type_id
               then filter_by_type transactions transaction_type_id
               else Inr transactions) of
           Inl e \<Rightarrow> Inl e
         | Inr txs \<Rightarrow>
             (let transactions_date_sets = set_iter L (map date txs);
                  grouped = grouped_transactions transactions_date_sets txs;
                  summed_transactions = map summed_transaction grouped
              in sorted_by_date L summed_transactions)))"

text \<open>
  The transactions the function goes on with: those of the requested type when the
  argument counts as true, and all of them otherwise, which is the case for
  \<^verbatim>\<open>None\<close> and for the identifier 0.
\<close>

definition selected :: "string transaction list \<Rightarrow> int option \<Rightarrow> string transaction list" where
  "selected transactions transaction_type_id =
     (if truthy transaction_type_id
      then filter (\<lambda>x. transactionTypeId x = transaction_type_id) transactions
      else transactions)"

text \<open>
  In the claim's words, the filter-matching transactions: all of them when no filter
  is given, and those whose type is the filter's when one is.
\<close>

definition matching :: "string transaction list \<Rightarrow> int option \<Rightarrow> string transaction list" where
  "matching transactions type_filter =
     (case type_filter of
        None \<Rightarrow> transactions
      | Some k \<Rightarrow> filter (\<lambda>x. transactionTypeId x = Some k) transactions)"

text \<open>The result before sorting, in closed form: one transaction per date of the set, its value
  the sum over the transactions of that date.\<close>

definition summed :: "string list \<Rightarrow> string transaction list \<Rightarrow> string transaction list" where
  "summed ds txs =
     map (\<lambda>d. \<lparr>date = d, val = Some (\<Sum>t\<leftarrow>filter (\<lambda>txn. date txn = d) txs. or_zero (val t)),
               transactionTypeId = None\<rparr>) ds"

section \<open>\<^verbatim>\<open>XirrsUtils\<close>\<close>

text \<open>
  A comprehension or loop whose body may raise: the results in order, or the first error.
\<close>

fun collect :: "('a \<Rightarrow> error + 'b) \<Rightarrow> 'a list \<Rightarrow> error + 'b list" where
  "collect f [] = Inr []"
| "collect f (x # xs) =
     (case f x of
        Inl e \<Rightarrow> Inl e
      | Inr y \<Rightarrow> (case collect f xs of Inl e \<Rightarrow> Inl e | Inr ys \<Rightarrow> Inr (y # ys)))"

text \<open>
  Python 2 orders \<^verbatim>\<open>None\<close> below every number: \<^verbatim>\<open>None >= 0\<close> is false and
  \<^verbatim>\<open>None <= 0\<close> is true.
\<close>

definition ge_zero :: "real option \<Rightarrow> bool" where
  "ge_zero v = (case v of None \<Rightarrow> False | Some r \<Rightarrow> r \<ge> 0)"

definition le_zero :: "real option \<Rightarrow> bool" where
  "le_zero v = (case v of None \<Rightarrow> True | Some r \<Rightarrow> r \<le> 0)"

text \<open>An entry of \<^verbatim>\<open>transaction_array\<close>.\<close>

record dated_flow =
  flow_value :: real
  time_diff_days :: int

text \<open>
  The loop that fills \<^verbatim>\<open>transaction_array\<close>. The dates are strings, as every caller
  passes them; the branch for dates that are already \<^verbatim>\<open>datetime\<close> values is not
  modelled. Inside the loop \<^verbatim>\<open>len(transactions) > 0\<close> holds.
\<close>

fun transaction_array :: "pylib \<Rightarrow> int \<Rightarrow> string transaction list \<Rightarrow> error + dated_flow list" where
  "transaction_array L initial_date [] = Inr []"
| "transaction_array L initial_date (transaction # rest) =
     (case strptime L (date transaction) of
        None \<Rightarrow> Inl ValueError
      | Some final_date \<Rightarrow>
          (case transaction_array L initial_date rest of
             Inl e \<Rightarrow> Inl e
           | Inr arr \<Rightarrow>
               Inr (\<lparr>flow_value = or_zero (val transaction),
                     time_diff_days = final_date - initial_date\<rparr> # arr)))"

text \<open>
  \<^verbatim>\<open>xirr = lambda r: reduce(lambda x,y: x + y["value"]/(1.0 + r)**(float(y["time_diff_days"])/365), transaction_array, 0.0)\<close>.
  The code evaluates it at \<open>-0.999\<close> and \<open>100\<close> and hands it to the root-finder on that
  interval, where the base \<open>1 + r\<close> is positive and the power is \<open>powr\<close>.
\<close>

definition xirr :: "dated_flow list \<Rightarrow> real \<Rightarrow> real" where
  "xirr arr r =
     fold (\<lambda>y x. x + flow_value y / (1 + r) powr (real_of_int (time_diff_days y) / 365)) arr 0"

text \<open>
  What \<^verbatim>\<open>calculate_xirr\<close> does last: return a value (\<^verbatim>\<open>None\<close> or a number) of its
  own, or call \<^verbatim>\<open>brenth\<close> on a function and a bracket and return its result.
\<close>

datatype xirr_action = Return "real option" | Solve "real \<Rightarrow> real" real real

definition calculate_xirr_plan :: "pylib \<Rightarrow> string transaction list \<Rightarrow> error + xirr_action" where
  "calculate_xirr_plan L unsorted =
     (let transactions = sort_key date unsorted
      in if list_all (\<lambda>x. ge_zero (val x)) transactions then Inr (Return None)
         else if list_all (\<lambda>x. le_zero (val x)) transactions then Inr (Return (Some (- 1)))
         else
           (case getitem transactions 0 of
              Inl e \<Rightarrow> Inl e
            | Inr first \<Rightarrow>
                (case strptime L (date first) of
                   None \<Rightarrow> Inl ValueError
                 | Some initial_date \<Rightarrow>
                     (case transaction_array L initial_date transactions of
                        Inl e \<Rightarrow> Inl e
                      | Inr arr \<Rightarrow>
                          if (xirr arr (- 0.999) > 0 \<and> xirr arr 100 < 0)
                             \<or> (xirr arr (- 0.999) < 0 \<and> xirr arr 100 > 0)
                          then Inr (Solve (xirr arr) (- 0.999) 100)
                          else Inr (Return None)))))"

definition calculate_xirr :: "pylib \<Rightarrow> string transaction list \<Rightarrow> error + real option" where
  "calculate_xirr L transactions =
     (case calculate_xirr_plan L transactions of
        Inl e \<Rightarrow> Inl e
      | Inr (Return v) \<Rightarrow> Inr v
      | Inr (Solve f a b) \<Rightarrow>
          (case brenth L f a b of Inl e \<Rightarrow> Inl e | Inr r \<Rightarrow> Inr (Some r)))"

text \<open>
  The objective in the words of the specification: the sum over the cash flows of
  \<open>value / (1 + r)\<close> to the power \<open>days / 365\<close>, the days counted from the first cash
  flow in the order of the \<^verbatim>\<open>date\<close> field; \<^verbatim>\<open>None\<close> counts as 0.
\<close>

definition days_since_first :: "pylib \<Rightarrow> string transaction list \<Rightarrow> string transaction \<Rightarrow> int" where
  "days_since_first L transactions t =
     the (strptime L (date t)) - the (strptime L (date (hd (sort_key date transactions))))"

definition objective :: "pylib \<Rightarrow> string transaction list \<Rightarrow> real \<Rightarrow> real" where
  "objective L transactions r =
     (\<Sum>t\<leftarrow>sort_key date transactions.
        or_zero (val t) / (1 + r) powr (real_of_int (days_since_first L transactions t) / 365))"

text \<open>
  An investment return, \<^verbatim>\<open>{date, balance}\<close>, and a point of the series
  \<^verbatim>\<open>read_xirrs_timeseries\<close> returns: of what it returns the callers read the \<^verbatim>\<open>xirr\<close>
  entries only, so a point keeps the date and the XIRR.
\<close>

record 'd investment_return =
  rdate :: 'd
  balance :: real

record xirr_point =
  xp_date :: string
  xp_xirr :: "real option"

text \<open>\<^verbatim>\<open>txn["value"] *= -1\<close>; multiplying \<^verbatim>\<open>None\<close> raises.\<close>

definition negate_value :: "string transaction \<Rightarrow> error + string transaction" where
  "negate_value txn =
     (case val txn of None \<Rightarrow> Inl TypeError | Some v \<Rightarrow> Inr (txn\<lparr>val := Some (v * - 1)\<rparr>))"

text \<open>
  \<^verbatim>\<open>[{date, value} for x in transactions_aggregated_by_date if strptime(x["date"]) <= strptime(returns[i]["date"])]\<close>
\<close>

fun on_or_before :: "pylib \<Rightarrow> string \<Rightarrow> string transaction list \<Rightarrow> error + string transaction list" where
  "on_or_before L return_date [] = Inr []"
| "on_or_before L return_date (x # xs) =
     (case strptime L (date x) of
        None \<Rightarrow> Inl ValueError
      | Some dx \<Rightarrow>
          (case strptime L return_date of
             None \<Rightarrow> Inl ValueError
           | Some dr \<Rightarrow>
               (case on_or_before L return_date xs of
                  Inl e \<Rightarrow> Inl e
                | Inr ys \<Rightarrow>
                    Inr (if dx \<le> dr
                         then \<lparr>date = date x, val = val x, transactionTypeId = None\<rparr> # ys
                         else ys))))"

definition read_xirrs_timeseries ::
  "pylib \<Rightarrow> string investment_return list option \<Rightarrow> string transaction list
     \<Rightarrow> error + xirr_point list" where
  "read_xirrs_timeseries L returns transactions =
     (case aggregate_transactions_by_date L transactions None of
        Inl e \<Rightarrow> Inl e
      | Inr aggregated \<Rightarrow>
          (case collect negate_value aggregated of
             Inl e \<Rightarrow> Inl e
           | Inr transactions_aggregated_by_date \<Rightarrow>
               (case returns of
                  None \<Rightarrow>
                    if length transactions_aggregated_by_date > 0 then
                      collect
                        (\<lambda>i. case calculate_xirr L (take (i + 1) transactions_aggregated_by_date) of
                               Inl e \<Rightarrow> Inl e
                             | Inr x \<Rightarrow>
                                 Inr \<lparr>xp_date = date (transactions_aggregated_by_date ! i),
                                      xp_xirr = x\<rparr>)
                        [0 ..< length transactions_aggregated_by_date]
                    else Inr []
                | Some rs \<Rightarrow>
                    collect
                      (\<lambda>r. case on_or_before L (rdate r) transactions_aggregated_by_date of
                             Inl e \<Rightarrow> Inl e
                           | Inr filtered_transactions \<Rightarrow>
                               (case calculate_xirr L
                                       (filtered_transactions @
                                        [\<lparr>date = rdate r, val = Some (balance r),
                                          transactionTypeId = None\<rparr>]) of
                                  Inl e \<Rightarrow> Inl e
                                | Inr x \<Rightarrow> Inr \<lparr>xp_date = rdate r, xp_xirr = x\<rparr>))
                      rs)))"

text \<open>
  A call of the method with a list of positional arguments. It takes two besides
  \<^verbatim>\<open>self\<close>, \<^verbatim>\<open>returns\<close> (a list or \<^verbatim>\<open>None\<close>) and \<^verbatim>\<open>transactions\<close>; Python raises
  \<^verbatim>\<open>TypeError\<close> for any other number of them. (Two arguments of other shapes do not
  occur in the repository; the model rejects them too.)
\<close>

datatype pyarg =
  PNone
  | PReturns "string investment_return list"
  | PTransactions "string transaction list"

fun call_read_xirrs_timeseries :: "pylib \<Rightarrow> pyarg list \<Rightarrow> error + xirr_point list" where
  "call_read_xirrs_timeseries L [PNone, PTransactions transactions] =
     read_xirrs_timeseries L None transactions"
| "call_read_xirrs_timeseries L [PReturns returns, PTransactions transactions] =
     read_xirrs_timeseries L (Some returns) transactions"
| "call_read_xirrs_timeseries L args = Inl TypeError"

section \<open>\<^verbatim>\<open>PmeUtils\<close>: shared parts\<close>

text \<open>
  A benchmark return is the dictionary the builder emits; the PME functions fill its
  optional entries in place, which the model does by returning the updated list.
\<close>

record benchmark_return =
  br_date :: string
  br_balance :: real
  timeWeightedReturn :: real
  cumulativeTimeWeightedReturn :: real
  kaplanSchoarMultiple :: "real option"
  br_xirr :: "real option"
  dpi :: "real option"
  rvpi :: "real option"
  tvpi :: "real option"

text \<open>
  \<^verbatim>\<open>[{"date": strptime(x["date"], "%Y-%m-%d"), "value": x["value"]} for x in aggregate_transactions_by_date(investment_transactions, transaction_type_id=...)]\<close>
\<close>

definition to_datetime :: "pylib \<Rightarrow> string transaction \<Rightarrow> error + int transaction" where
  "to_datetime L x =
     (case strptime L (date x) of
        None \<Rightarrow> Inl ValueError
      | Some d \<Rightarrow> Inr \<lparr>date = d, val = val x, transactionTypeId = None\<rparr>)"

definition aggregated_by_date ::
  "pylib \<Rightarrow> string transaction list \<Rightarrow> int \<Rightarrow> error + int transaction list" where
  "aggregated_by_date L investment_transactions type_id =
     (case aggregate_transactions_by_date L investment_transactions (Some type_id) of
        Inl e \<Rightarrow> Inl e
      | Inr aggregated \<Rightarrow> collect (to_datetime L) aggregated)"

text \<open>
  \<^verbatim>\<open>if found is not None: current += found["value"]; cumulative += found["value"]\<close>;
  adding \<^verbatim>\<open>None\<close> to a float raises.
\<close>

definition add_found :: "real \<Rightarrow> real \<Rightarrow> int transaction option \<Rightarrow> error + real \<times> real" where
  "add_found current cumulative found =
     (case found of
        None \<Rightarrow> Inr (current, cumulative)
      | Some f \<Rightarrow>
          (case val f of
             None \<Rightarrow> Inl TypeError
           | Some v \<Rightarrow> Inr (current + v, cumulative + v)))"

text \<open>
  The block that sets \<^verbatim>\<open>dpi\<close>, \<^verbatim>\<open>rvpi\<close> and \<^verbatim>\<open>tvpi\<close>, the same in the three
  functions up to the two numerators:
  \<^verbatim>\<open>if calculate_tvpi and cumulative_contributions: dpi = -1 * distributed / cumulative_contributions; rvpi = residual / cumulative_contributions; tvpi = dpi + rvpi\<close>,
  \<^verbatim>\<open>elif calculate_tvpi:\<close> both are \<open>0.0\<close>.
\<close>

definition set_ratios ::
  "bool \<Rightarrow> real \<Rightarrow> real \<Rightarrow> real \<Rightarrow> benchmark_return \<Rightarrow> error + benchmark_return" where
  "set_ratios calculate_tvpi cumulative_contributions distributed residual benchmark_return =
     (if calculate_tvpi \<and> cumulative_contributions \<noteq> 0 then
        (case pydiv (- 1 * distributed) cumulative_contributions of
           Inl e \<Rightarrow> Inl e
         | Inr d \<Rightarrow>
             (case pydiv residual cumulative_contributions of
                Inl e \<Rightarrow> Inl e
              | Inr r \<Rightarrow>
                  Inr (benchmark_return\<lparr>dpi := Some d, rvpi := Some r, tvpi := Some (d + r)\<rparr>)))
      else if calculate_tvpi then
        Inr (benchmark_return\<lparr>dpi := Some 0, rvpi := Some 0, tvpi := Some (0 + 0)\<rparr>)
      else Inr benchmark_return)"

text \<open>
  \<^verbatim>\<open>for benchmark_return in benchmark_returns:\<close> with the loop's variables as a state;
  the body returns the new state and the updated entry, or raises.
\<close>

fun run_loop :: "('s \<Rightarrow> 'a \<Rightarrow> error + 's \<times> 'b) \<Rightarrow> 's \<Rightarrow> 'a list \<Rightarrow> error + 's \<times> 'b list" where
  "run_loop body st [] = Inr (st, [])"
| "run_loop body st (x # xs) =
     (case body st x of
        Inl e \<Rightarrow> Inl e
      | Inr (st', y) \<Rightarrow>
          (case run_loop body st' xs of
             Inl e \<Rightarrow> Inl e
           | Inr (st'', ys) \<Rightarrow> Inr (st'', y # ys)))"

text \<open>
  \<^verbatim>\<open>for (i, xirr) in enumerate(xirrs): benchmark_returns[i]["xirr"] = xirr["xirr"]\<close>
\<close>

fun write_xirrs :: "nat \<Rightarrow> xirr_point list \<Rightarrow> benchmark_return list \<Rightarrow> error + benchmark_return list" where
  "write_xirrs i [] benchmark_returns = Inr benchmark_returns"
| "write_xirrs i (x # xirrs) benchmark_returns =
     (if i < length benchmark_returns then
        write_xirrs (i + 1) xirrs
          (benchmark_returns[i := (benchmark_returns ! i)\<lparr>br_xirr := xp_xirr x\<rparr>])
      else Inl IndexError)"

section \<open>\<^verbatim>\<open>calculate_long_nickels_PME\<close>\<close>

record ln_state =
  ln_prev_value :: "real option"
  ln_cumulative_contributions :: real
  ln_cumulative_distributions :: real
  theoretical_investment_series :: "string investment_return list"

text \<open>\<^verbatim>\<open>if prev_value:\<close> holds for a number other than 0.\<close>

definition ln_body ::
  "pylib \<Rightarrow> int transaction list \<Rightarrow> int transaction list \<Rightarrow> bool \<Rightarrow> ln_state \<Rightarrow> benchmark_return
     \<Rightarrow> error + ln_state \<times> benchmark_return" where
  "ln_body L contributions distributions calculate_tvpi st benchmark_return =
     (case strptime L (br_date benchmark_return) of
        None \<Rightarrow> Inl ValueError
      | Some current_date \<Rightarrow>
          (let current_value =
                 (case ln_prev_value st of
                    None \<Rightarrow> 0
                  | Some prev_value \<Rightarrow>
                      if prev_value \<noteq> 0
                      then prev_value * (1 + timeWeightedReturn benchmark_return) else 0)
           in case find_eq_by_key contributions current_date date of
                Inl e \<Rightarrow> Inl e
              | Inr contribution \<Rightarrow>
                  (case find_eq_by_key distributions current_date date of
                     Inl e \<Rightarrow> Inl e
                   | Inr distribution \<Rightarrow>
                       (case add_found current_value (ln_cumulative_contributions st) contribution of
                          Inl e \<Rightarrow> Inl e
                        | Inr (with_contribution, cumulative_contributions) \<Rightarrow>
                            (case add_found with_contribution (ln_cumulative_distributions st)
                                    distribution of
                               Inl e \<Rightarrow> Inl e
                             | Inr (balance_now, cumulative_distributions) \<Rightarrow>
                                 (case set_ratios calculate_tvpi cumulative_contributions
                                         cumulative_distributions balance_now benchmark_return of
                                    Inl e \<Rightarrow> Inl e
                                  | Inr updated \<Rightarrow>
                                      Inr (\<lparr>ln_prev_value = Some balance_now,
                                            ln_cumulative_contributions = cumulative_contributions,
                                            ln_cumulative_distributions = cumulative_distributions,
                                            theoretical_investment_series =
                                              theoretical_investment_series st @
                                              [\<lparr>rdate = br_date benchmark_return,
                                                balance = balance_now\<rparr>]\<rparr>,
                                           updated)))))))"

text \<open>The function up to the end of its loop: the loop's final state and the entries.\<close>

definition long_nickels_loop ::
  "pylib \<Rightarrow> benchmark_return list \<Rightarrow> string transaction list \<Rightarrow> bool
     \<Rightarrow> error + ln_state \<times> benchmark_return list" where
  "long_nickels_loop L benchmark_returns investment_transactions calculate_tvpi =
     (case aggregated_by_date L investment_transactions (Contribution L) of
        Inl e \<Rightarrow> Inl e
      | Inr contributions_aggregated_by_date \<Rightarrow>
          (case aggregated_by_date L investment_transactions (Distribution L) of
             Inl e \<Rightarrow> Inl e
           | Inr distributions_aggregated_by_date \<Rightarrow>
               run_loop
                 (ln_body L contributions_aggregated_by_date distributions_aggregated_by_date
                    calculate_tvpi)
                 \<lparr>ln_prev_value = None, ln_cumulative_contributions = 0,
                  ln_cumulative_distributions = 0, theoretical_investment_series = []\<rparr>
                 benchmark_returns))"

definition calculate_long_nickels_PME ::
  "pylib \<Rightarrow> benchmark_return list \<Rightarrow> string transaction list \<Rightarrow> bool \<Rightarrow> bool
     \<Rightarrow> error + benchmark_return list" where
  "calculate_long_nickels_PME L benchmark_returns investment_transactions
       calculate_xirr_flag calculate_tvpi =
     (case long_nickels_loop L benchmark_returns investment_transactions calculate_tvpi of
        Inl e \<Rightarrow> Inl e
      | Inr (st, updated) \<Rightarrow>
          if calculate_xirr_flag then
            (case call_read_xirrs_timeseries L
                    [PNone, PReturns (theoretical_investment_series st),
                     PTransactions investment_transactions] of
               Inl e \<Rightarrow> Inl e
             | Inr xirrs \<Rightarrow> write_xirrs 0 xirrs updated)
          else Inr updated)"

section \<open>\<^verbatim>\<open>calculate_kaplan_schoar_PME\<close>\<close>

record ks_state =
  ks_cumulative_contributions :: real
  prev_discounted_distribution_value :: "real option"
  prev_discounted_contribution_value :: "real option"

text \<open>
  \<^verbatim>\<open>total = 0.0; if prev is not None: total = prev * (1 + timeWeightedReturn)\<close>
\<close>

definition compounded :: "real option \<Rightarrow> benchmark_return \<Rightarrow> real" where
  "compounded prev benchmark_return =
     (case prev of
        None \<Rightarrow> 0
      | Some p \<Rightarrow> p * (1 + timeWeightedReturn benchmark_return))"

definition ks_body ::
  "pylib \<Rightarrow> int transaction list \<Rightarrow> int transaction list \<Rightarrow> bool \<Rightarrow> ks_state \<Rightarrow> benchmark_return
     \<Rightarrow> error + ks_state \<times> benchmark_return" where
  "ks_body L distributions contributions calculate_tvpi st benchmark_return =
     (case strptime L (br_date benchmark_return) of
        None \<Rightarrow> Inl ValueError
      | Some current_date \<Rightarrow>
          (case find_eq_by_key distributions current_date date of
             Inl e \<Rightarrow> Inl e
           | Inr distribution \<Rightarrow>
               (case add_found
                       (compounded (prev_discounted_distribution_value st) benchmark_return)
                       0 distribution of
                  Inl e \<Rightarrow> Inl e
                | Inr (total_discounted_distribution_value, _) \<Rightarrow>
                    (case find_eq_by_key contributions current_date date of
                       Inl e \<Rightarrow> Inl e
                     | Inr contribution \<Rightarrow>
                         (case add_found
                                 (compounded (prev_discounted_contribution_value st)
                                    benchmark_return)
                                 (ks_cumulative_contributions st) contribution of
                            Inl e \<Rightarrow> Inl e
                          | Inr (total_discounted_contribution_value, cumulative_contributions) \<Rightarrow>
                              (case (if total_discounted_contribution_value \<noteq> 0
                                     then pydiv total_discounted_distribution_value
                                            (- 1 * total_discounted_contribution_value)
                                     else Inr 0) of
                                 Inl e \<Rightarrow> Inl e
                               | Inr multiple \<Rightarrow>
                                   (case set_ratios calculate_tvpi cumulative_contributions
                                           total_discounted_distribution_value
                                           (total_discounted_contribution_value
                                              + total_discounted_distribution_value)
                                           (benchmark_return
                                              \<lparr>kaplanSchoarMultiple := Some multiple\<rparr>) of
                                      Inl e \<Rightarrow> Inl e
                                    | Inr updated \<Rightarrow>
                                        Inr (\<lparr>ks_cumulative_contributions = cumulative_contributions,
                                              prev_discounted_distribution_value =
                                                Some total_discounted_distribution_value,
                                              prev_discounted_contribution_value =
                                                Some total_discounted_contribution_value\<rparr>,
                                             updated))))))))"

text \<open>The loop with its final state; the function returns the entries.\<close>

definition kaplan_schoar_loop ::
  "pylib \<Rightarrow> benchmark_return list \<Rightarrow> string transaction list \<Rightarrow> bool
     \<Rightarrow> error + ks_state \<times> benchmark_return list" where
  "kaplan_schoar_loop L benchmark_returns investment_transactions calculate_tvpi =
     (case aggregated_by_date L investment_transactions (Distribution L) of
        Inl e \<Rightarrow> Inl e
      | Inr distributions_aggregated_by_date \<Rightarrow>
          (case aggregated_by_date L investment_transactions (Contribution L) of
             Inl e \<Rightarrow> Inl e
           | Inr contributions_aggregated_by_date \<Rightarrow>
               run_loop
                 (ks_body L distributions_aggregated_by_date contributions_aggregated_by_date
                    calculate_tvpi)
                 \<lparr>ks_cumulative_contributions = 0, prev_discounted_distribution_value = None,
                  prev_discounted_contribution_value = None\<rparr>
                 benchmark_returns))"

definition calculate_kaplan_schoar_PME ::
  "pylib \<Rightarrow> benchmark_return list \<Rightarrow> string transaction list \<Rightarrow> bool
     \<Rightarrow> error + benchmark_return list" where
  "calculate_kaplan_schoar_PME L benchmark_returns investment_transactions calculate_tvpi =
     (case kaplan_schoar_loop L benchmark_returns investment_transactions calculate_tvpi of
        Inl e \<Rightarrow> Inl e
      | Inr (st, updated) \<Rightarrow> Inr updated)"

section \<open>\<^verbatim>\<open>calculate_mPME\<close>\<close>

record mpme_state =
  prev_theoretical_balance :: "real option"
  prev_benchmark_balance :: "real option"
  mp_cumulative_contributions :: real
  cumulative_weighted_distributions :: real
  theoretical_balances :: "string investment_return list"
  weighted_distributions :: "string transaction list"

text \<open>
  \<^verbatim>\<open>single_return["date"] = strptime(single_return["date"], "%Y-%m-%d")\<close> for every
  investment return, then \<^verbatim>\<open>sorted(..., key=lambda x: x["date"])\<close>.
\<close>

definition return_to_datetime ::
  "pylib \<Rightarrow> string investment_return \<Rightarrow> error + int investment_return" where
  "return_to_datetime L investment_return =
     (case strptime L (rdate investment_return) of
        None \<Rightarrow> Inl ValueError
      | Some d \<Rightarrow> Inr \<lparr>rdate = d, balance = balance investment_return\<rparr>)"

text \<open>
  \<^verbatim>\<open>distribution_weight = 0.0\<close>, and when there are both a distribution and a most
  recent return,
  \<^verbatim>\<open>-distribution["value"] / (-distribution["value"] + most_recent_return["balance"])\<close>.
  Negating \<^verbatim>\<open>None\<close> raises.
\<close>

definition distribution_weight ::
  "int transaction option \<Rightarrow> int investment_return option \<Rightarrow> error + real" where
  "distribution_weight distribution most_recent_return =
     (case (distribution, most_recent_return) of
        (Some d, Some r) \<Rightarrow>
          (case val d of
             None \<Rightarrow> Inl TypeError
           | Some v \<Rightarrow> pydiv (- v) (- v + balance r))
      | _ \<Rightarrow> Inr 0)"

text \<open>\<^verbatim>\<open>contribution["value"] if contribution is not None else 0.0\<close>, as a summand.\<close>

definition value_or_zero :: "int transaction option \<Rightarrow> error + real" where
  "value_or_zero contribution =
     (case contribution of
        None \<Rightarrow> Inr 0
      | Some c \<Rightarrow> (case val c of None \<Rightarrow> Inl TypeError | Some v \<Rightarrow> Inr v))"

definition mpme_body ::
  "pylib \<Rightarrow> int transaction list \<Rightarrow> int transaction list \<Rightarrow> int investment_return list \<Rightarrow> bool
     \<Rightarrow> mpme_state \<Rightarrow> benchmark_return \<Rightarrow> error + mpme_state \<times> benchmark_return" where
  "mpme_body L contributions distributions sorted_investment_returns calculate_tvpi st
       benchmark_return =
     (case strptime L (br_date benchmark_return) of
        None \<Rightarrow> Inl ValueError
      | Some current_date \<Rightarrow>
     (case find_eq_by_key contributions current_date date of
        Inl e \<Rightarrow> Inl e
      | Inr contribution \<Rightarrow>
     (case find_eq_by_key distributions current_date date of
        Inl e \<Rightarrow> Inl e
      | Inr distribution \<Rightarrow>
     (case find_le_by_key sorted_investment_returns current_date rdate of
        Inl e \<Rightarrow> Inl e
      | Inr most_recent_return \<Rightarrow>
     (case distribution_weight distribution most_recent_return of
        Inl e \<Rightarrow> Inl e
      | Inr weight \<Rightarrow>
     (let prev_theoretical =
            (case prev_theoretical_balance st of None \<Rightarrow> 0 | Some b \<Rightarrow> b);
          prev_benchmark =
            (case prev_benchmark_balance st of
               None \<Rightarrow> br_balance benchmark_return
             | Some b \<Rightarrow> b)
      in case pydiv (br_balance benchmark_return) prev_benchmark of
           Inl e \<Rightarrow> Inl e
         | Inr growth \<Rightarrow>
     (case value_or_zero contribution of
        Inl e \<Rightarrow> Inl e
      | Inr contributed \<Rightarrow>
     (let adjusted_balance = prev_theoretical * growth + contributed;
          theoretical_balance = (1 - weight) * adjusted_balance;
          weighted_distribution = - 1 * weight * adjusted_balance;
          cumulative_contributions = mp_cumulative_contributions st + contributed;
          cumulative_weighted = cumulative_weighted_distributions st + weighted_distribution
      in case set_ratios calculate_tvpi cumulative_contributions cumulative_weighted
                theoretical_balance benchmark_return of
           Inl e \<Rightarrow> Inl e
         | Inr updated \<Rightarrow>
             Inr (\<lparr>prev_theoretical_balance = Some theoretical_balance,
                   prev_benchmark_balance = Some (br_balance benchmark_return),
                   mp_cumulative_contributions = cumulative_contributions,
                   cumulative_weighted_distributions = cumulative_weighted,
                   theoretical_balances =
                     theoretical_balances st @
                     [\<lparr>rdate = br_date benchmark_return, balance = theoretical_balance\<rparr>],
                   weighted_distributions =
                     weighted_distributions st @
                     [\<lparr>date = br_date benchmark_return, val = Some weighted_distribution,
                       transactionTypeId = None\<rparr>]\<rparr>,
                  updated)))))))))"

text \<open>
  The function up to the end of its loop: the aggregated contributions, the loop's
  final state and the entries.
\<close>

definition mpme_loop ::
  "pylib \<Rightarrow> benchmark_return list \<Rightarrow> string investment_return list \<Rightarrow> string transaction list
     \<Rightarrow> bool \<Rightarrow> error + int transaction list \<times> mpme_state \<times> benchmark_return list" where
  "mpme_loop L benchmark_returns investment_returns investment_transactions calculate_tvpi =
     (case aggregated_by_date L investment_transactions (Contribution L) of
        Inl e \<Rightarrow> Inl e
      | Inr contributions_aggregated_by_date \<Rightarrow>
     (case aggregated_by_date L investment_transactions (Distribution L) of
        Inl e \<Rightarrow> Inl e
      | Inr distributions_aggregated_by_date \<Rightarrow>
     (case collect (return_to_datetime L) investment_returns of
        Inl e \<Rightarrow> Inl e
      | Inr datetime_investment_returns \<Rightarrow>
     (case run_loop
             (mpme_body L contributions_aggregated_by_date distributions_aggregated_by_date
                (sort_key rdate datetime_investment_returns) calculate_tvpi)
             \<lparr>prev_theoretical_balance = None, prev_benchmark_balance = None,
              mp_cumulative_contributions = 0, cumulative_weighted_distributions = 0,
              theoretical_balances = [], weighted_distributions = []\<rparr>
             benchmark_returns of
        Inl e \<Rightarrow> Inl e
      | Inr (st, updated) \<Rightarrow> Inr (contributions_aggregated_by_date, st, updated)))))"

definition calculate_mPME ::
  "pylib \<Rightarrow> benchmark_return list \<Rightarrow> string investment_return list \<Rightarrow> string transaction list
     \<Rightarrow> bool \<Rightarrow> bool \<Rightarrow> error + benchmark_return list" where
  "calculate_mPME L benchmark_returns investment_returns investment_transactions
       calculate_xirr_flag calculate_tvpi =
     (case mpme_loop L benchmark_returns investment_returns investment_transactions
             calculate_tvpi of
        Inl e \<Rightarrow> Inl e
      | Inr (contributions, st, updated) \<Rightarrow>
          if calculate_xirr_flag then
            (let contributions_aggregated_by_date =
                   map (\<lambda>x. \<lparr>date = strftime L (date x), val = val x,
                              transactionTypeId = None\<rparr>) contributions
             in case call_read_xirrs_timeseries L
                       [PNone, PReturns (theoretical_balances st),
                        PTransactions (contributions_aggregated_by_date
                                       @ weighted_distributions st)] of
                  Inl e \<Rightarrow> Inl e
                | Inr xirrs \<Rightarrow> write_xirrs 0 xirrs updated)
          else Inr updated)"

section \<open>\<^verbatim>\<open>get_unique_values\<close> and the benchmark-return builder\<close>

text \<open>
  \<^verbatim>\<open>[value for value in set([x[key] for x in master_list])]\<close>, the master list being
  the concatenation of the lists given.
\<close>

definition get_unique_values :: "pylib \<Rightarrow> 'r list list \<Rightarrow> ('r \<Rightarrow> string) \<Rightarrow> string list" where
  "get_unique_values L list_of_lists key = set_iter L (map key (concat list_of_lists))"

text \<open>
  A benchmark value, \<^verbatim>\<open>{date, value}\<close>. Its date is a \<^verbatim>\<open>date\<close> or \<^verbatim>\<open>datetime\<close>
  object, which step 1 of the builder cuts to the day: the model keeps the day number.
\<close>

record benchmark_value =
  bv_date :: int
  bv_value :: real

text \<open>
  The index value on a date: the benchmark value found by \<^verbatim>\<open>find_le_by_key\<close>, or
  else the one found by \<^verbatim>\<open>find_gt_by_key\<close>, with the date replaced;
  \<^verbatim>\<open>index_value.update(None)\<close> raises.
\<close>

definition index_value_on :: "pylib \<Rightarrow> benchmark_value list \<Rightarrow> string \<Rightarrow> error + benchmark_value" where
  "index_value_on L benchmark_values s =
     (case strptime L s of
        None \<Rightarrow> Inl ValueError
      | Some d \<Rightarrow>
          (case find_le_by_key benchmark_values d bv_date of
             Inl e \<Rightarrow> Inl e
           | Inr (Some benchmark_value) \<Rightarrow> Inr (benchmark_value\<lparr>bv_date := d\<rparr>)
           | Inr None \<Rightarrow>
               (case find_gt_by_key benchmark_values d bv_date of
                  Inl e \<Rightarrow> Inl e
                | Inr None \<Rightarrow> Inl TypeError
                | Inr (Some later) \<Rightarrow> Inr (later\<lparr>bv_date := d\<rparr>))))"

text \<open>
  Step 3, the loop over the sorted index values, with \<^verbatim>\<open>prev_value\<close> and
  \<^verbatim>\<open>cumulative_return\<close> as arguments. \<^verbatim>\<open>if prev_value:\<close> holds for a number other
  than 0.
\<close>

fun returns_loop :: "pylib \<Rightarrow> real option \<Rightarrow> real \<Rightarrow> benchmark_value list \<Rightarrow> error + benchmark_return list" where
  "returns_loop L prev_value cumulative_return [] = Inr []"
| "returns_loop L prev_value cumulative_return (x # xs) =
     (case (case prev_value of
              None \<Rightarrow> Inr 0
            | Some p \<Rightarrow> if p \<noteq> 0 then pydiv (bv_value x - p) p else Inr 0) of
        Inl e \<Rightarrow> Inl e
      | Inr return_ \<Rightarrow>
          (case returns_loop L (Some (bv_value x)) (cumulative_return * (return_ + 1)) xs of
             Inl e \<Rightarrow> Inl e
           | Inr rest \<Rightarrow>
               Inr (\<lparr>br_date = strftime L (bv_date x), br_balance = bv_value x,
                     timeWeightedReturn = return_,
                     cumulativeTimeWeightedReturn = cumulative_return * (return_ + 1),
                     kaplanSchoarMultiple = None, br_xirr = None, dpi = None, rvpi = None,
                     tvpi = None\<rparr> # rest)))"

definition get_benchmark_returns ::
  "pylib \<Rightarrow> benchmark_value list \<Rightarrow> string investment_return list \<Rightarrow> string transaction list
     \<Rightarrow> error + benchmark_return list" where
  "get_benchmark_returns L benchmark_values investment_returns investment_transactions =
     (if length benchmark_values = 0 then Inl InvalidState
      else
        (let sorted_values = sort_key bv_date benchmark_values
         in case collect (index_value_on L sorted_values)
                   (get_unique_values L
                      [map Inl investment_returns, map Inr investment_transactions]
                      (case_sum rdate date)) of
              Inl e \<Rightarrow> Inl e
            | Inr index_values \<Rightarrow> returns_loop L None 1 (sort_key bv_date index_values)))"

section \<open>The inputs the PME functions are written for\<close>

text \<open>
  A set holds each element once; the two type identifiers are true values, so that the
  aggregation filters by them; every transaction has a date that parses and a type; no
  two date strings among the transactions parse to the same day (as with zero-padded
  \<^verbatim>\<open>YYYY-MM-DD\<close>).
\<close>

definition well_formed :: "pylib \<Rightarrow> string transaction list \<Rightarrow> bool" where
  "well_formed L transactions =
     (set_iter_ok L \<and> Contribution L \<noteq> 0 \<and> Distribution L \<noteq> 0 \<and>
      (\<forall>t\<in>set transactions. strptime L (date t) \<noteq> None \<and> transactionTypeId t \<noteq> None) \<and>
      inj_on (strptime L) (date ` set transactions))"

text \<open>
  The net cash flow of one type on the day of a date string: the sum of the values
  (\<^verbatim>\<open>None\<close> as 0) of the transactions of that type on that day.
\<close>

definition net_on :: "pylib \<Rightarrow> string transaction list \<Rightarrow> int \<Rightarrow> string \<Rightarrow> real" where
  "net_on L transactions type_id s =
     (\<Sum>t\<leftarrow>filter (\<lambda>t. transactionTypeId t = Some type_id \<and>
                         strptime L (date t) = strptime L s) transactions.
        or_zero (val t))"

text \<open>Whether any transaction of the type falls on that day.\<close>

definition any_on :: "pylib \<Rightarrow> string transaction list \<Rightarrow> int \<Rightarrow> string \<Rightarrow> bool" where
  "any_on L transactions type_id s =
     list_ex (\<lambda>t. transactionTypeId t = Some type_id \<and> strptime L (date t) = strptime L s)
       transactions"

section \<open>The recurrences in the claims' words\<close>

text \<open>
  Long-Nickels: the balance of a date is the previous balance times
  \<open>1 + timeWeightedReturn\<close>, plus the net contribution and the net distribution of
  that date; the balance recorded for one date is the previous balance of the next.
\<close>

fun long_nickels_balances ::
  "(string \<Rightarrow> real) \<Rightarrow> (string \<Rightarrow> real) \<Rightarrow> real \<Rightarrow> benchmark_return list \<Rightarrow> real list" where
  "long_nickels_balances contributed distributed B_prev [] = []"
| "long_nickels_balances contributed distributed B_prev (r # rs) =
     (let B = B_prev * (1 + timeWeightedReturn r) + contributed (br_date r) + distributed (br_date r)
      in B # long_nickels_balances contributed distributed B rs)"

text \<open>
  Kaplan-Schoar: a discounted total of a date is the previous total times
  \<open>1 + timeWeightedReturn\<close> plus the net cash flow (distribution or contribution) of
  that date; the multiple is the discounted distributions over minus the discounted
  contributions, and 0 when the latter are 0.
\<close>

fun discounted_totals :: "(string \<Rightarrow> real) \<Rightarrow> real \<Rightarrow> benchmark_return list \<Rightarrow> real list" where
  "discounted_totals flow prev [] = []"
| "discounted_totals flow prev (r # rs) =
     (let total = prev * (1 + timeWeightedReturn r) + flow (br_date r)
      in total # discounted_totals flow total rs)"

definition ks_multiple :: "real \<Rightarrow> real \<Rightarrow> real" where
  "ks_multiple discounted_distributions discounted_contributions =
     (if discounted_contributions = 0 then 0
      else discounted_distributions / (- discounted_contributions))"

text \<open>
  The balance of the most recent investment return dated on or before the day of a
  date string: of the returns in date order, the last that is not later; \<open>None\<close> when
  every return is later.
\<close>

definition most_recent_balance ::
  "pylib \<Rightarrow> string investment_return list \<Rightarrow> string \<Rightarrow> real option" where
  "most_recent_balance L investment_returns s =
     (case filter (\<lambda>r. the (strptime L (rdate r)) \<le> the (strptime L s))
             (sort_key (\<lambda>r. the (strptime L (rdate r))) investment_returns) of
        [] \<Rightarrow> None
      | rs \<Rightarrow> Some (balance (last rs)))"

text \<open>
  Modified PME. The weight of a date in the claim's words: with a distribution on that
  date, its magnitude over the sum of the magnitude and the most recent balance; 0 with
  no distribution on that date (and also when no investment return is dated on or
  before it, which the formula leaves open).
\<close>

definition distribution_magnitude :: "real \<Rightarrow> real" where
  "distribution_magnitude v = \<bar>v\<bar>"

definition magnitude_weight ::
  "pylib \<Rightarrow> string transaction list \<Rightarrow> string investment_return list \<Rightarrow> string \<Rightarrow> real" where
  "magnitude_weight L transactions investment_returns s =
     (if any_on L transactions (Distribution L) s then
        (case most_recent_balance L investment_returns s of
           None \<Rightarrow> 0
         | Some b \<Rightarrow>
             distribution_magnitude (net_on L transactions (Distribution L) s)
             / (distribution_magnitude (net_on L transactions (Distribution L) s) + b))
      else 0)"

text \<open>
  The weight with the net distribution \<open>v\<close> of the date negated in place of its
  magnitude: \<open>(- v) / (- v + balance)\<close>. The two agree when distributions are carried
  as negative amounts.
\<close>

definition mpme_weight ::
  "pylib \<Rightarrow> string transaction list \<Rightarrow> string investment_return list \<Rightarrow> string \<Rightarrow> real" where
  "mpme_weight L transactions investment_returns s =
     (if any_on L transactions (Distribution L) s then
        (case most_recent_balance L investment_returns s of
           None \<Rightarrow> 0
         | Some b \<Rightarrow>
             (- net_on L transactions (Distribution L) s)
             / (- net_on L transactions (Distribution L) s + b))
      else 0)"

text \<open>
  What the recurrence yields on a date, for a weight and a contribution given per date.
  From the previous theoretical balance and the previous benchmark balance (on the
  first date, the benchmark balance of that date):
  \<open>adjusted = previous theoretical * (benchmark balance / previous benchmark balance)
  + contribution of the date\<close>, \<open>theoretical = (1 - weight) * adjusted\<close> and
  \<open>weighted distribution = - (weight * adjusted)\<close>.
\<close>

record mpme_point =
  point_weight :: real
  point_adjusted :: real
  point_theoretical :: real
  point_weighted_distribution :: real

fun mpme_points ::
  "(string \<Rightarrow> real) \<Rightarrow> (string \<Rightarrow> real) \<Rightarrow> real \<Rightarrow> real option \<Rightarrow> benchmark_return list
     \<Rightarrow> mpme_point list" where
  "mpme_points weight_on contributed prev_theoretical prev_benchmark [] = []"
| "mpme_points weight_on contributed prev_theoretical prev_benchmark (r # rs) =
     (let weight = weight_on (br_date r);
          adjusted =
            prev_theoretical
              * (br_balance r / (case prev_benchmark of None \<Rightarrow> br_balance r | Some b \<Rightarrow> b))
            + contributed (br_date r);
          theoretical = (1 - weight) * adjusted
      in \<lparr>point_weight = weight, point_adjusted = adjusted, point_theoretical = theoretical,
          point_weighted_distribution = - (weight * adjusted)\<rparr>
         # mpme_points weight_on contributed theoretical (Some (br_balance r)) rs)"

text \<open>
  The weight's quotient exists on every date: where there are a distribution and a most
  recent balance, the denominator is not 0.
\<close>

definition weights_defined ::
  "pylib \<Rightarrow> string transaction list \<Rightarrow> string investment_return list \<Rightarrow> benchmark_return list
     \<Rightarrow> bool" where
  "weights_defined L transactions investment_returns benchmark_returns =
     list_all
       (\<lambda>r. any_on L transactions (Distribution L) (br_date r) \<longrightarrow>
            (case most_recent_balance L investment_returns (br_date r) of
               None \<Rightarrow> True
             | Some b \<Rightarrow> - net_on L transactions (Distribution L) (br_date r) + b \<noteq> 0))
       benchmark_returns"

text \<open>The theoretical balances the loop of \<open>calculate_mPME\<close> records, if it ends.\<close>

definition mpme_theoretical_balances ::
  "pylib \<Rightarrow> benchmark_return list \<Rightarrow> string investment_return list \<Rightarrow> string transaction list
     \<Rightarrow> real list option" where
  "mpme_theoretical_balances L benchmark_returns investment_returns investment_transactions =
     (case mpme_loop L benchmark_returns investment_returns investment_transactions False of
        Inl e \<Rightarrow> None
      | Inr (contributions, st, updated) \<Rightarrow> Some (map balance (theoretical_balances st)))"

text \<open>
  The builder. The index value of a day is the value of a benchmark entry: with entries
  on or before the day, of one that is the most recent of them; with none, of one that
  is the earliest of all.
\<close>

definition is_index_value :: "benchmark_value list \<Rightarrow> int \<Rightarrow> real \<Rightarrow> bool" where
  "is_index_value benchmark_values d v =
     (\<exists>b\<in>set benchmark_values. v = bv_value b \<and>
        (if \<exists>b'\<in>set benchmark_values. bv_date b' \<le> d
         then bv_date b \<le> d \<and>
              (\<forall>b'\<in>set benchmark_values. bv_date b' \<le> d \<longrightarrow> bv_date b' \<le> bv_date b)
         else (\<forall>b'\<in>set benchmark_values. bv_date b \<le> bv_date b')))"

text \<open>
  The time-weighted return of a value after a previous one is their difference over the
  previous one, and 0 for the first value; the cumulative return is the previous
  cumulative return times one plus the time-weighted return.
\<close>

fun time_weighted_returns :: "real option \<Rightarrow> real list \<Rightarrow> real list" where
  "time_weighted_returns previous [] = []"
| "time_weighted_returns previous (v # vs) =
     (case previous of None \<Rightarrow> 0 | Some p \<Rightarrow> (v - p) / p)
     # time_weighted_returns (Some v) vs"

fun cumulative_returns :: "real \<Rightarrow> real list \<Rightarrow> real list" where
  "cumulative_returns previous [] = []"
| "cumulative_returns previous (t # ts) =
     previous * (1 + t) # cumulative_returns (previous * (1 + t)) ts"

section \<open>A concrete library, to run the model on examples\<close>

text \<open>
  Zero-padded \<^verbatim>\<open>YYYY-MM-DD\<close> dates and their day numbers (day 1 is 0001-01-01, as
  \<^verbatim>\<open>toordinal\<close> counts), sets iterated in order of first occurrence, a root-finder
  that tries the rate 1 only and gives up when that is no root, and the type identifiers
  1 and 2.
\<close>

definition digit :: "char \<Rightarrow> int option" where
  "digit c = (if CHR ''0'' \<le> c \<and> c \<le> CHR ''9'' then Some (int (of_char c) - 48) else None)"

definition days_from_civil :: "int \<Rightarrow> int \<Rightarrow> int \<Rightarrow> int" where
  "days_from_civil y m d =
     (let y' = (if m \<le> 2 then y - 1 else y);
          era = y' div 400;
          yoe = y' - era * 400;
          doy = (153 * (if m > 2 then m - 3 else m + 9) + 2) div 5 + d - 1;
          doe = yoe * 365 + yoe div 4 - yoe div 100 + doy
      in era * 146097 + doe - 305)"

definition days_in_month :: "int \<Rightarrow> int \<Rightarrow> int" where
  "days_in_month y m =
     (if m = 2 then (if y mod 4 = 0 \<and> (y mod 100 \<noteq> 0 \<or> y mod 400 = 0) then 29 else 28)
      else if m = 4 \<or> m = 6 \<or> m = 9 \<or> m = 11 then 30 else 31)"

definition iso_strptime :: "string \<Rightarrow> int option" where
  "iso_strptime s =
     (case s of
        [y1, y2, y3, y4, s1, m1, m2, s2, d1, d2] \<Rightarrow>
          (case (digit y1, digit y2, digit y3, digit y4, digit m1, digit m2, digit d1, digit d2) of
             (Some a, Some b, Some c, Some e, Some f, Some g, Some h, Some i) \<Rightarrow>
               (let y = 1000 * a + 100 * b + 10 * c + e; m = 10 * f + g; d = 10 * h + i
                in if s1 = CHR ''-'' \<and> s2 = CHR ''-'' \<and> 1 \<le> y \<and> 1 \<le> m \<and> m \<le> 12
                      \<and> 1 \<le> d \<and> d \<le> days_in_month y m
                   then Some (days_from_civil y m d) else None)
           | _ \<Rightarrow> None)
      | _ \<Rightarrow> None)"

definition two_digits :: "int \<Rightarrow> string" where
  "two_digits n = [char_of (48 + n div 10), char_of (48 + n mod 10)]"

definition iso_strftime :: "int \<Rightarrow> string" where
  "iso_strftime n =
     (let z = n + 305;
          era = z div 146097;
          doe = z - era * 146097;
          yoe = (doe - doe div 1460 + doe div 36524 - doe div 146096) div 365;
          doy = doe - (365 * yoe + yoe div 4 - yoe div 100);
          mp = (5 * doy + 2) div 153;
          d = doy - (153 * mp + 2) div 5 + 1;
          m = (if mp < 10 then mp + 3 else mp - 9);
          y = yoe + era * 400 + (if m \<le> 2 then 1 else 0)
      in two_digits (y div 100) @ two_digits (y mod 100) @ ''-'' @ two_digits m @ ''-'' @ two_digits d)"

definition example_lib :: pylib where
  "example_lib =
     \<lparr>strptime = iso_strptime, strftime = iso_strftime, set_iter = remdups,
      brenth = (\<lambda>f a b. if a \<le> 1 \<and> 1 \<le> b \<and> f 1 = 0 then Inr 1 else Inl ValueError),
      Contribution = 1, Distribution = 2\<rparr>"

text \<open>
  The same library with a parser that also reads what \<^verbatim>\<open>strptime\<close> reads besides the
  zero-padded form: for \<^verbatim>\<open>%Y-%m-%d\<close>, four digits, then a month and a day of one or
  two digits each (the day also as a space and a digit), so that \<^verbatim>\<open>2020-7-1\<close> and
  \<^verbatim>\<open>2020-07-01\<close> are the same day.
\<close>

fun split_on :: "char \<Rightarrow> string \<Rightarrow> string list" where
  "split_on c [] = [[]]"
| "split_on c (x # xs) =
     (if x = c then [] # split_on c xs
      else (case split_on c xs of [] \<Rightarrow> [[x]] | p # ps \<Rightarrow> (x # p) # ps))"

definition number :: "string \<Rightarrow> int option" where
  "number s =
     (if s \<noteq> [] \<and> list_all (\<lambda>c. digit c \<noteq> None) s
      then Some (foldl (\<lambda>n c. 10 * n + the (digit c)) 0 s) else None)"

definition py_strptime :: "string \<Rightarrow> int option" where
  "py_strptime s =
     (case split_on CHR ''-'' s of
        [ys, ms, ds] \<Rightarrow>
          (case (number ys, number ms,
                 number (if length ds = 2 \<and> hd ds = CHR '' '' then tl ds else ds)) of
             (Some y, Some m, Some d) \<Rightarrow>
               if length ys = 4 \<and> length ms \<le> 2 \<and> length ds \<le> 2 \<and> 1 \<le> y
                  \<and> 1 \<le> m \<and> m \<le> 12 \<and> 1 \<le> d \<and> d \<le> days_in_month y m
               then Some (days_from_civil y m d) else None
           | _ \<Rightarrow> None)
      | _ \<Rightarrow> None)"

definition python_lib :: pylib where
  "python_lib = example_lib\<lparr>strptime := py_strptime\<rparr>"

text \<open>Transactions of two types on two dates, one of them without a value.\<close>

definition example_transactions :: "string transaction list" where
  "example_transactions =
     [\<lparr>date = ''2020-07-01'', val = Some 5, transactionTypeId = Some 1\<rparr>,
      \<lparr>date = ''2020-01-01'', val = Some 3, transactionTypeId = Some 1\<rparr>,
      \<lparr>date = ''2020-07-01'', val = None, transactionTypeId = Some 2\<rparr>,
      \<lparr>date = ''2020-07-01'', val = Some 4, transactionTypeId = Some 1\<rparr>]"

text \<open>A payment of 100 and, 365 days later, a receipt of 200, in the signs XIRR is given.\<close>

definition example_cash_flows :: "string transaction list" where
  "example_cash_flows =
     [\<lparr>date = ''2021-01-01'', val = Some (- 100), transactionTypeId = None\<rparr>,
      \<lparr>date = ''2022-01-01'', val = Some 200, transactionTypeId = None\<rparr>]"

text \<open>
  A benchmark at 100, 110 and 121 on three dates; a contribution of 1000 on the first
  and a distribution of 600 on the last, in the signs the PME functions expect
  (contributions positive, distributions negative); two valuations of the investment.
\<close>

definition example_benchmark_returns :: "benchmark_return list" where
  "example_benchmark_returns =
     [\<lparr>br_date = ''2020-01-01'', br_balance = 100, timeWeightedReturn = 0,
       cumulativeTimeWeightedReturn = 1, kaplanSchoarMultiple = None, br_xirr = None,
       dpi = None, rvpi = None, tvpi = None\<rparr>,
      \<lparr>br_date = ''2020-07-01'', br_balance = 110, timeWeightedReturn = 1 / 10,
       cumulativeTimeWeightedReturn = 11 / 10, kaplanSchoarMultiple = None, br_xirr = None,
       dpi = None, rvpi = None, tvpi = None\<rparr>,
      \<lparr>br_date = ''2021-01-01'', br_balance = 121, timeWeightedReturn = 1 / 10,
       cumulativeTimeWeightedReturn = 121 / 100, kaplanSchoarMultiple = None, br_xirr = None,
       dpi = None, rvpi = None, tvpi = None\<rparr>]"

definition example_investment_transactions :: "string transaction list" where
  "example_investment_transactions =
     [\<lparr>date = ''2020-01-01'', val = Some 1000, transactionTypeId = Some 1\<rparr>,
      \<lparr>date = ''2021-01-01'', val = Some (- 600), transactionTypeId = Some 2\<rparr>]"

definition example_investment_returns :: "string investment_return list" where
  "example_investment_returns =
     [\<lparr>rdate = ''2021-01-01'', balance = 600\<rparr>,
      \<lparr>rdate = ''2020-07-01'', balance = 1050\<rparr>]"

text \<open>Benchmark values that start after the first date asked for, out of order.\<close>

definition example_benchmark_values :: "benchmark_value list" where
  "example_benchmark_values =
     [\<lparr>bv_date = 737607, bv_value = 110\<rparr>,
      \<lparr>bv_date = 737456, bv_value = 100\<rparr>,
      \<lparr>bv_date = 737791, bv_value = 121\<rparr>]"

section \<open>Binary search\<close>

lemma bisect_left_loop_bounds:
  "lo \<le> hi \<Longrightarrow> lo \<le> bisect_left_loop a x lo hi \<and> bisect_left_loop a x lo hi \<le> hi"
proof (induction a x lo hi rule: bisect_left_loop.induct)
  case (1 a x lo hi)
  show ?case
  proof (cases "lo < hi")
    case False
    with "1.prems" show ?thesis by (subst (1 2) bisect_left_loop.simps) simp
  next
    case True
    define mid where "mid = (lo + hi) div 2"
    have m: "lo \<le> mid" "mid < hi" using True by (simp_all add: mid_def)
    show ?thesis
    proof (cases "a ! mid < x")
      case T2: True
      have "mid + 1 \<le> bisect_left_loop a x (mid + 1) hi \<and> bisect_left_loop a x (mid + 1) hi \<le> hi"
        using "1.IH"(1)[OF True mid_def T2] m by simp
      moreover have "bisect_left_loop a x lo hi = bisect_left_loop a x (mid + 1) hi"
        using True T2 by (subst bisect_left_loop.simps) (simp add: mid_def Let_def)
      ultimately show ?thesis using m by simp
    next
      case F2: False
      have "lo \<le> bisect_left_loop a x lo mid \<and> bisect_left_loop a x lo mid \<le> mid"
        using "1.IH"(2)[OF True mid_def F2] m by simp
      moreover have "bisect_left_loop a x lo hi = bisect_left_loop a x lo mid"
        using True F2 by (subst bisect_left_loop.simps) (simp add: mid_def Let_def)
      ultimately show ?thesis using m by simp
    qed
  qed
qed

lemma bisect_left_loop_inv:
  "sorted a \<Longrightarrow> lo \<le> hi \<Longrightarrow> hi \<le> length a \<Longrightarrow> \<forall>i<lo. a ! i < x \<Longrightarrow>
   \<forall>i. hi \<le> i \<and> i < length a \<longrightarrow> x \<le> a ! i \<Longrightarrow>
   (\<forall>i < bisect_left_loop a x lo hi. a ! i < x) \<and>
   (\<forall>i. bisect_left_loop a x lo hi \<le> i \<and> i < length a \<longrightarrow> x \<le> a ! i)"
proof (induction a x lo hi rule: bisect_left_loop.induct)
  case (1 a x lo hi)
  show ?case
  proof (cases "lo < hi")
    case False
    with "1.prems" show ?thesis by (subst (1 2) bisect_left_loop.simps) simp
  next
    case True
    define mid where "mid = (lo + hi) div 2"
    have m: "lo \<le> mid" "mid < hi" using True by (simp_all add: mid_def)
    show ?thesis
    proof (cases "a ! mid < x")
      case T2: True
      have below: "\<forall>i<mid + 1. a ! i < x"
      proof (intro allI impI)
        fix i assume "i < mid + 1"
        then have "a ! i \<le> a ! mid"
          using "1.prems"(1,3) m by (auto intro!: sorted_nth_mono)
        with T2 show "a ! i < x" by simp
      qed
      have eq: "bisect_left_loop a x lo hi = bisect_left_loop a x (mid + 1) hi"
        using True T2 by (subst bisect_left_loop.simps) (simp add: mid_def Let_def)
      show ?thesis unfolding eq
        using "1.IH"(1)[OF True mid_def T2 "1.prems"(1) _ "1.prems"(3) below "1.prems"(5)] m by simp
    next
      case F2: False
      have above: "\<forall>i. mid \<le> i \<and> i < length a \<longrightarrow> x \<le> a ! i"
      proof (intro allI impI)
        fix i assume "mid \<le> i \<and> i < length a"
        then have "a ! mid \<le> a ! i"
          using "1.prems"(1) by (auto intro!: sorted_nth_mono)
        with F2 show "x \<le> a ! i" by simp
      qed
      have eq: "bisect_left_loop a x lo hi = bisect_left_loop a x lo mid"
        using True F2 by (subst bisect_left_loop.simps) (simp add: mid_def Let_def)
      show ?thesis unfolding eq
        using "1.IH"(2)[OF True mid_def F2 "1.prems"(1) _ _ "1.prems"(4) above] m "1.prems"(3) by simp
    qed
  qed
qed

lemma bisect_right_loop_bounds:
  "lo \<le> hi \<Longrightarrow> lo \<le> bisect_right_loop a x lo hi \<and> bisect_right_loop a x lo hi \<le> hi"
proof (induction a x lo hi rule: bisect_right_loop.induct)
  case (1 a x lo hi)
  show ?case
  proof (cases "lo < hi")
    case False
    with "1.prems" show ?thesis by (subst (1 2) bisect_right_loop.simps) simp
  next
    case True
    define mid where "mid = (lo + hi) div 2"
    have m: "lo \<le> mid" "mid < hi" using True by (simp_all add: mid_def)
    show ?thesis
    proof (cases "x < a ! mid")
      case T2: True
      have "lo \<le> bisect_right_loop a x lo mid \<and> bisect_right_loop a x lo mid \<le> mid"
        using "1.IH"(1)[OF True mid_def T2] m by simp
      moreover have "bisect_right_loop a x lo hi = bisect_right_loop a x lo mid"
        using True T2 by (subst bisect_right_loop.simps) (simp add: mid_def Let_def)
      ultimately show ?thesis using m by simp
    next
      case F2: False
      have "mid + 1 \<le> bisect_right_loop a x (mid + 1) hi \<and> bisect_right_loop a x (mid + 1) hi \<le> hi"
        using "1.IH"(2)[OF True mid_def F2] m by simp
      moreover have "bisect_right_loop a x lo hi = bisect_right_loop a x (mid + 1) hi"
        using True F2 by (subst bisect_right_loop.simps) (simp add: mid_def Let_def)
      ultimately show ?thesis using m by simp
    qed
  qed
qed

lemma bisect_right_loop_inv:
  "sorted a \<Longrightarrow> lo \<le> hi \<Longrightarrow> hi \<le> length a \<Longrightarrow> \<forall>i<lo. a ! i \<le> x \<Longrightarrow>
   \<forall>i. hi \<le> i \<and> i < length a \<longrightarrow> x < a ! i \<Longrightarrow>
   (\<forall>i < bisect_right_loop a x lo hi. a ! i \<le> x) \<and>
   (\<forall>i. bisect_right_loop a x lo hi \<le> i \<and> i < length a \<longrightarrow> x < a ! i)"
proof (induction a x lo hi rule: bisect_right_loop.induct)
  case (1 a x lo hi)
  show ?case
  proof (cases "lo < hi")
    case False
    with "1.prems" show ?thesis by (subst (1 2) bisect_right_loop.simps) simp
  next
    case True
    define mid where "mid = (lo + hi) div 2"
    have m: "lo \<le> mid" "mid < hi" using True by (simp_all add: mid_def)
    show ?thesis
    proof (cases "x < a ! mid")
      case F2: False
      have below: "\<forall>i<mid + 1. a ! i \<le> x"
      proof (intro allI impI)
        fix i assume "i < mid + 1"
        then have "a ! i \<le> a ! mid"
          using "1.prems"(1,3) m by (auto intro!: sorted_nth_mono)
        with F2 show "a ! i \<le> x" by simp
      qed
      have eq: "bisect_right_loop a x lo hi = bisect_right_loop a x (mid + 1) hi"
        using True F2 by (subst bisect_right_loop.simps) (simp add: mid_def Let_def)
      show ?thesis unfolding eq
        using "1.IH"(2)[OF True mid_def F2 "1.prems"(1) _ "1.prems"(3) below "1.prems"(5)] m by simp
    next
      case T2: True
      have above: "\<forall>i. mid \<le> i \<and> i < length a \<longrightarrow> x < a ! i"
      proof (intro allI impI)
        fix i assume "mid \<le> i \<and> i < length a"
        then have "a ! mid \<le> a ! i"
          using "1.prems"(1) by (auto intro!: sorted_nth_mono)
        with T2 show "x < a ! i" by simp
      qed
      have eq: "bisect_right_loop a x lo hi = bisect_right_loop a x lo mid"
        using True T2 by (subst bisect_right_loop.simps) (simp add: mid_def Let_def)
      show ?thesis unfolding eq
        using "1.IH"(1)[OF True mid_def T2 "1.prems"(1) _ _ "1.prems"(4) above] m "1.prems"(3) by simp
    qed
  qed
qed

lemma split_point_filter:
  assumes "r \<le> length a" "\<forall>i<r. P (a ! i)" "\<forall>i. r \<le> i \<and> i < length a \<longrightarrow> \<not> P (a ! i)"
  shows "r = length (filter P a)" "filter P a = take r a" "takeWhile P a = take r a"
    "dropWhile P a = drop r a"
proof -
  have a: "a = take r a @ drop r a" by simp
  have t: "\<forall>y\<in>set (take r a). P y"
    using assms(1,2) by (auto simp: in_set_conv_nth)
  have d: "\<forall>y\<in>set (drop r a). \<not> P y"
    using assms(1,3) by (auto simp: in_set_conv_nth)
  have f1: "filter P (take r a) = take r a" using t by simp
  have f2: "filter P (drop r a) = []" using d by simp
  have "filter P a = filter P (take r a) @ filter P (drop r a)"
    by (subst a) (simp only: filter_append)
  then show 2: "filter P a = take r a" using f1 f2 by simp
  then show "r = length (filter P a)" using assms(1) by simp
  have hd: "drop r a \<noteq> [] \<Longrightarrow> \<not> P (hd (drop r a))"
    using d by (cases "drop r a") auto
  have "takeWhile P (take r a @ drop r a) = take r a"
    using t hd by (cases "drop r a") (auto simp: takeWhile_append2 simp del: append_take_drop_id)
  then show "takeWhile P a = take r a" by simp
  have "dropWhile P (take r a @ drop r a) = drop r a"
    using t hd by (cases "drop r a") (auto simp: dropWhile_append2 simp del: append_take_drop_id)
  then show "dropWhile P a = drop r a" by simp
qed

lemma bisect_left_sorted:
  assumes "sorted a"
  shows "bisect_left a x = length (filter (\<lambda>y. y < x) a)"
    and "takeWhile (\<lambda>y. y < x) a = take (bisect_left a x) a"
    and "dropWhile (\<lambda>y. y < x) a = drop (bisect_left a x) a"
proof -
  let ?r = "bisect_left a x"
  have b: "?r \<le> length a"
    using bisect_left_loop_bounds[of 0 "length a" a x] by (simp add: bisect_left_def)
  have i: "(\<forall>i < ?r. a ! i < x) \<and> (\<forall>i. ?r \<le> i \<and> i < length a \<longrightarrow> x \<le> a ! i)"
    unfolding bisect_left_def by (rule bisect_left_loop_inv[OF assms]) auto
  then have i2: "\<forall>i. ?r \<le> i \<and> i < length a \<longrightarrow> \<not> a ! i < x" by (simp add: not_less)
  from split_point_filter[OF b conjunct1[OF i] i2]
  show "bisect_left a x = length (filter (\<lambda>y. y < x) a)"
    and "takeWhile (\<lambda>y. y < x) a = take (bisect_left a x) a"
    and "dropWhile (\<lambda>y. y < x) a = drop (bisect_left a x) a" by simp_all
qed

lemma bisect_right_sorted:
  assumes "sorted a"
  shows "bisect_right a x = length (filter (\<lambda>y. y \<le> x) a)"
    and "takeWhile (\<lambda>y. y \<le> x) a = take (bisect_right a x) a"
    and "dropWhile (\<lambda>y. y \<le> x) a = drop (bisect_right a x) a"
proof -
  let ?r = "bisect_right a x"
  have b: "?r \<le> length a"
    using bisect_right_loop_bounds[of 0 "length a" a x] by (simp add: bisect_right_def)
  have i: "(\<forall>i < ?r. a ! i \<le> x) \<and> (\<forall>i. ?r \<le> i \<and> i < length a \<longrightarrow> x < a ! i)"
    unfolding bisect_right_def by (rule bisect_right_loop_inv[OF assms]) auto
  then have i2: "\<forall>i. ?r \<le> i \<and> i < length a \<longrightarrow> \<not> a ! i \<le> x" by (simp add: not_le)
  from split_point_filter[OF b conjunct1[OF i] i2]
  show "bisect_right a x = length (filter (\<lambda>y. y \<le> x) a)"
    and "takeWhile (\<lambda>y. y \<le> x) a = take (bisect_right a x) a"
    and "dropWhile (\<lambda>y. y \<le> x) a = drop (bisect_right a x) a" by simp_all
qed

lemma bisect_left_le: "bisect_left a x \<le> length a"
  using bisect_left_loop_bounds[of 0 "length a" a x] by (simp add: bisect_left_def)

lemma bisect_right_le: "bisect_right a x \<le> length a"
  using bisect_right_loop_bounds[of 0 "length a" a x] by (simp add: bisect_right_def)

lemma bisect_left_props:
  assumes "sorted a"
  shows "\<forall>i < bisect_left a x. a ! i < x"
    and "\<forall>i. bisect_left a x \<le> i \<and> i < length a \<longrightarrow> x \<le> a ! i"
proof -
  have "(\<forall>i < bisect_left a x. a ! i < x) \<and>
        (\<forall>i. bisect_left a x \<le> i \<and> i < length a \<longrightarrow> x \<le> a ! i)"
    unfolding bisect_left_def by (rule bisect_left_loop_inv[OF assms]) auto
  then show "\<forall>i < bisect_left a x. a ! i < x"
    and "\<forall>i. bisect_left a x \<le> i \<and> i < length a \<longrightarrow> x \<le> a ! i" by blast+
qed

lemma bisect_right_props:
  assumes "sorted a"
  shows "\<forall>i < bisect_right a x. a ! i \<le> x"
    and "\<forall>i. bisect_right a x \<le> i \<and> i < length a \<longrightarrow> x < a ! i"
proof -
  have "(\<forall>i < bisect_right a x. a ! i \<le> x) \<and>
        (\<forall>i. bisect_right a x \<le> i \<and> i < length a \<longrightarrow> x < a ! i)"
    unfolding bisect_right_def by (rule bisect_right_loop_inv[OF assms]) auto
  then show "\<forall>i < bisect_right a x. a ! i \<le> x"
    and "\<forall>i. bisect_right a x \<le> i \<and> i < length a \<longrightarrow> x < a ! i" by blast+
qed

text \<open>No helper raises: the position a bisection returns is within the list.\<close>

lemma index_total: "index a x = Inr (if bisect_left a x \<noteq> length a \<and> a ! bisect_left a x = x
    then Some (bisect_left a x) else None)"
  using bisect_left_le[of a x] by (auto simp: index_def getitem_def Let_def)

lemma find_lt_total: "find_lt a x = Inr (if bisect_left a x \<noteq> 0
    then Some (a ! (bisect_left a x - 1)) else None)"
  using bisect_left_le[of a x] by (auto simp: find_lt_def getitem_def Let_def)

lemma find_le_total: "find_le a x = Inr (if bisect_right a x \<noteq> 0
    then Some (a ! (bisect_right a x - 1)) else None)"
  using bisect_right_le[of a x] by (auto simp: find_le_def getitem_def Let_def)

lemma find_gt_total: "find_gt a x = Inr (if bisect_right a x \<noteq> length a
    then Some (a ! bisect_right a x) else None)"
  using bisect_right_le[of a x] by (auto simp: find_gt_def getitem_def Let_def)

lemma find_ge_total: "find_ge a x = Inr (if bisect_left a x \<noteq> length a
    then Some (a ! bisect_left a x) else None)"
  using bisect_left_le[of a x] by (auto simp: find_ge_def getitem_def Let_def)

lemma index_sorted:
  assumes "sorted a"
  shows "index a x = Inr (Some i) \<longleftrightarrow> i < length a \<and> a ! i = x \<and> (\<forall>j<i. a ! j < x)"
proof -
  let ?r = "bisect_left a x"
  note p = bisect_left_props[OF assms, of x] and b = bisect_left_le[of a x]
  show ?thesis
  proof
    assume "index a x = Inr (Some i)"
    then have "i = ?r" "?r \<noteq> length a" "a ! ?r = x"
      by (auto simp: index_total split: if_splits)
    with p b show "i < length a \<and> a ! i = x \<and> (\<forall>j<i. a ! j < x)" by auto
  next
    assume r: "i < length a \<and> a ! i = x \<and> (\<forall>j<i. a ! j < x)"
    have "\<not> i < ?r" using p(1) r by auto
    moreover have "\<not> ?r < i" using p(2) r by (metis leD le_refl less_trans)
    ultimately have "i = ?r" by simp
    with r show "index a x = Inr (Some i)" by (auto simp: index_total)
  qed
qed

lemma index_none_sorted:
  assumes "sorted a"
  shows "index a x = Inr None \<longleftrightarrow> x \<notin> set a"
proof -
  let ?r = "bisect_left a x"
  note p = bisect_left_props[OF assms, of x] and b = bisect_left_le[of a x]
  show ?thesis
  proof
    assume n: "index a x = Inr None"
    show "x \<notin> set a"
    proof
      assume "x \<in> set a"
      then obtain i where i: "i < length a" "a ! i = x" by (auto simp: in_set_conv_nth)
      have "\<not> i < ?r" using p(1) i by auto
      then have ri: "?r \<le> i" by simp
      then have rl: "?r < length a" using i by simp
      have "a ! ?r \<le> a ! i" using assms ri i by (auto intro: sorted_nth_mono)
      moreover have "x \<le> a ! ?r" using p(2) rl by auto
      ultimately have "a ! ?r = x" using i by simp
      with rl n show False by (auto simp: index_total)
    qed
  next
    assume "x \<notin> set a"
    then have "\<not> (bisect_left a x < length a \<and> a ! bisect_left a x = x)"
      using nth_mem by metis
    then show "index a x = Inr None"
      using b by (auto simp: index_total)
  qed
qed

lemma find_lt_sorted:
  assumes "sorted a"
  shows "find_lt a x = Inr (Some l) \<Longrightarrow> l \<in> set a \<and> l < x"
    and "find_lt a x = Inr None \<longleftrightarrow> (\<forall>y\<in>set a. \<not> y < x)"
proof -
  let ?r = "bisect_left a x"
  note p = bisect_left_props[OF assms, of x] and b = bisect_left_le[of a x]
  show "find_lt a x = Inr (Some l) \<Longrightarrow> l \<in> set a \<and> l < x"
    using p(1) b by (auto simp: find_lt_total split: if_splits)
  show "find_lt a x = Inr None \<longleftrightarrow> (\<forall>y\<in>set a. \<not> y < x)"
  proof
    assume "find_lt a x = Inr None"
    then have "?r = 0" by (auto simp: find_lt_total split: if_splits)
    with p(2) show "\<forall>y\<in>set a. \<not> y < x" by (auto simp: in_set_conv_nth not_less)
  next
    assume n: "\<forall>y\<in>set a. \<not> y < x"
    have "?r = 0"
    proof (rule ccontr)
      assume "?r \<noteq> 0"
      then have "0 < ?r" by simp
      then have "0 < length a" using b by linarith
      then have "a ! 0 \<in> set a" by (rule nth_mem)
      moreover have "a ! 0 < x" using p(1) \<open>0 < ?r\<close> by blast
      ultimately have "a ! 0 < x" "a ! 0 \<in> set a" by auto
      with n show False by blast
    qed
    then show "find_lt a x = Inr None" by (simp add: find_lt_total)
  qed
qed

lemma find_le_sorted:
  assumes "sorted a"
  shows "find_le a x = Inr (Some l) \<Longrightarrow> l \<in> set a \<and> l \<le> x"
    and "find_le a x = Inr None \<longleftrightarrow> (\<forall>y\<in>set a. \<not> y \<le> x)"
proof -
  let ?r = "bisect_right a x"
  note p = bisect_right_props[OF assms, of x] and b = bisect_right_le[of a x]
  show "find_le a x = Inr (Some l) \<Longrightarrow> l \<in> set a \<and> l \<le> x"
    using p(1) b by (auto simp: find_le_total split: if_splits)
  show "find_le a x = Inr None \<longleftrightarrow> (\<forall>y\<in>set a. \<not> y \<le> x)"
  proof
    assume "find_le a x = Inr None"
    then have "?r = 0" by (auto simp: find_le_total split: if_splits)
    with p(2) show "\<forall>y\<in>set a. \<not> y \<le> x" by (auto simp: in_set_conv_nth not_le)
  next
    assume n: "\<forall>y\<in>set a. \<not> y \<le> x"
    have "?r = 0"
    proof (rule ccontr)
      assume "?r \<noteq> 0"
      then have "0 < ?r" by simp
      then have "0 < length a" using b by linarith
      then have "a ! 0 \<in> set a" by (rule nth_mem)
      moreover have "a ! 0 \<le> x" using p(1) \<open>0 < ?r\<close> by blast
      ultimately have "a ! 0 \<le> x" "a ! 0 \<in> set a" by auto
      with n show False by blast
    qed
    then show "find_le a x = Inr None" by (simp add: find_le_total)
  qed
qed

lemma find_gt_sorted:
  assumes "sorted a"
  shows "find_gt a x = Inr (Some g) \<Longrightarrow> g \<in> set a \<and> x < g"
    and "find_gt a x = Inr None \<longleftrightarrow> (\<forall>y\<in>set a. \<not> x < y)"
proof -
  let ?r = "bisect_right a x"
  note p = bisect_right_props[OF assms, of x] and b = bisect_right_le[of a x]
  show "find_gt a x = Inr (Some g) \<Longrightarrow> g \<in> set a \<and> x < g"
    using p(2) b by (auto simp: find_gt_total split: if_splits)
  show "find_gt a x = Inr None \<longleftrightarrow> (\<forall>y\<in>set a. \<not> x < y)"
  proof
    assume "find_gt a x = Inr None"
    then have "?r = length a" by (auto simp: find_gt_total split: if_splits)
    with p(1) show "\<forall>y\<in>set a. \<not> x < y" by (auto simp: in_set_conv_nth not_less)
  next
    assume n: "\<forall>y\<in>set a. \<not> x < y"
    have "?r = length a"
    proof (rule ccontr)
      assume "?r \<noteq> length a"
      then have "?r < length a" using b by simp
      with p(2) have "x < a ! ?r" "a ! ?r \<in> set a" by auto
      with n show False by blast
    qed
    then show "find_gt a x = Inr None" by (simp add: find_gt_total)
  qed
qed

lemma find_ge_sorted:
  assumes "sorted a"
  shows "find_ge a x = Inr (Some g) \<Longrightarrow> g \<in> set a \<and> x \<le> g"
    and "find_ge a x = Inr None \<longleftrightarrow> (\<forall>y\<in>set a. \<not> x \<le> y)"
proof -
  let ?r = "bisect_left a x"
  note p = bisect_left_props[OF assms, of x] and b = bisect_left_le[of a x]
  show "find_ge a x = Inr (Some g) \<Longrightarrow> g \<in> set a \<and> x \<le> g"
    using p(2) b by (auto simp: find_ge_total split: if_splits)
  show "find_ge a x = Inr None \<longleftrightarrow> (\<forall>y\<in>set a. \<not> x \<le> y)"
  proof
    assume "find_ge a x = Inr None"
    then have "?r = length a" by (auto simp: find_ge_total split: if_splits)
    with p(1) show "\<forall>y\<in>set a. \<not> x \<le> y" by (auto simp: in_set_conv_nth not_le)
  next
    assume n: "\<forall>y\<in>set a. \<not> x \<le> y"
    have "?r = length a"
    proof (rule ccontr)
      assume "?r \<noteq> length a"
      then have "?r < length a" using b by simp
      with p(2) have "x \<le> a ! ?r" "a ! ?r \<in> set a" by auto
      with n show False by blast
    qed
    then show "find_ge a x = Inr None" by (simp add: find_ge_total)
  qed
qed

text \<open>
  Claim C10. On a list sorted ascending: when \<open>find_lt\<close> and \<open>find_gt\<close> both return an
  element, the first is below the query and the second above it; \<open>index\<close> returns a
  position exactly when the query is a member, the element there is the query and no
  earlier element is; each of the five helpers returns \<open>None\<close> when no element
  qualifies, and none of them raises.
\<close>

theorem sorted_search_helpers:
  assumes "sorted a"
  shows "(\<forall>l g. find_lt a x = Inr (Some l) \<and> find_gt a x = Inr (Some g) \<longrightarrow> l < x \<and> x < g) \<and>
    ((\<exists>i. index a x = Inr (Some i)) \<longleftrightarrow> x \<in> set a) \<and>
    (\<forall>i. index a x = Inr (Some i) \<longrightarrow> i < length a \<and> a ! i = x \<and> (\<forall>j<i. a ! j \<noteq> x)) \<and>
    (x \<notin> set a \<longrightarrow> index a x = Inr None) \<and>
    ((\<forall>y\<in>set a. \<not> y < x) \<longrightarrow> find_lt a x = Inr None) \<and>
    ((\<forall>y\<in>set a. \<not> y \<le> x) \<longrightarrow> find_le a x = Inr None) \<and>
    ((\<forall>y\<in>set a. \<not> x < y) \<longrightarrow> find_gt a x = Inr None) \<and>
    ((\<forall>y\<in>set a. \<not> x \<le> y) \<longrightarrow> find_ge a x = Inr None) \<and>
    (\<forall>e. index a x \<noteq> Inl e \<and> find_lt a x \<noteq> Inl e \<and> find_le a x \<noteq> Inl e \<and>
         find_gt a x \<noteq> Inl e \<and> find_ge a x \<noteq> Inl e)"
proof -
  have c1: "\<forall>l g. find_lt a x = Inr (Some l) \<and> find_gt a x = Inr (Some g) \<longrightarrow> l < x \<and> x < g"
    using find_lt_sorted(1)[OF assms] find_gt_sorted(1)[OF assms] by blast
  have some_or_none: "(\<exists>i. index a x = Inr (Some i)) \<or> index a x = Inr None"
    by (simp add: index_total)
  have c2: "(\<exists>i. index a x = Inr (Some i)) \<longleftrightarrow> x \<in> set a"
  proof
    assume "\<exists>i. index a x = Inr (Some i)"
    then obtain i where "index a x = Inr (Some i)" ..
    then have "i < length a \<and> a ! i = x" using index_sorted[OF assms] by blast
    then show "x \<in> set a" using nth_mem by blast
  next
    assume "x \<in> set a"
    then have "index a x \<noteq> Inr None" using index_none_sorted[OF assms] by blast
    with some_or_none show "\<exists>i. index a x = Inr (Some i)" by blast
  qed
  have c3: "\<forall>i. index a x = Inr (Some i) \<longrightarrow> i < length a \<and> a ! i = x \<and> (\<forall>j<i. a ! j \<noteq> x)"
  proof (intro allI impI)
    fix i assume "index a x = Inr (Some i)"
    then have "i < length a \<and> a ! i = x \<and> (\<forall>j<i. a ! j < x)"
      using index_sorted[OF assms] by blast
    then show "i < length a \<and> a ! i = x \<and> (\<forall>j<i. a ! j \<noteq> x)" by auto
  qed
  have c4: "x \<notin> set a \<longrightarrow> index a x = Inr None"
    using index_none_sorted[OF assms] by blast
  have c5: "(\<forall>y\<in>set a. \<not> y < x) \<longrightarrow> find_lt a x = Inr None"
    using find_lt_sorted(2)[OF assms] by blast
  have c6: "(\<forall>y\<in>set a. \<not> y \<le> x) \<longrightarrow> find_le a x = Inr None"
    using find_le_sorted(2)[OF assms] by blast
  have c7: "(\<forall>y\<in>set a. \<not> x < y) \<longrightarrow> find_gt a x = Inr None"
    using find_gt_sorted(2)[OF assms] by blast
  have c8: "(\<forall>y\<in>set a. \<not> x \<le> y) \<longrightarrow> find_ge a x = Inr None"
    using find_ge_sorted(2)[OF assms] by blast
  have c9: "\<forall>e. index a x \<noteq> Inl e \<and> find_lt a x \<noteq> Inl e \<and> find_le a x \<noteq> Inl e \<and>
         find_gt a x \<noteq> Inl e \<and> find_ge a x \<noteq> Inl e"
    by (simp add: index_total find_lt_total find_le_total find_gt_total find_ge_total)
  from c1 c2 c3 c4 c5 c6 c7 c8 c9 show ?thesis by blast
qed

theorem sorted_search_helpers_witness:
  "sorted [1, 3, 3, 5 :: int] \<and>
   find_lt [1, 3, 3, 5 :: int] 3 = Inr (Some 1) \<and> find_gt [1, 3, 3, 5 :: int] 3 = Inr (Some 5) \<and>
   (1 :: int) < 3 \<and> (3 :: int) < 5 \<and>
   index [1, 3, 3, 5 :: int] 3 = Inr (Some 1) \<and> (3 :: int) \<in> set [1, 3, 3, 5] \<and>
   (4 :: int) \<notin> set [1, 3, 3, 5] \<and> index [1, 3, 3, 5 :: int] 4 = Inr None \<and>
   find_lt [1, 3, 3, 5 :: int] 1 = Inr None \<and> find_le [1, 3, 3, 5 :: int] 0 = Inr None \<and>
   find_gt [1, 3, 3, 5 :: int] 5 = Inr None \<and> find_ge [1, 3, 3, 5 :: int] 6 = Inr None"
proof -
  have s: "sorted [1, 3, 3, 5 :: int]" by simp
  have l: "find_lt [1, 3, 3, 5 :: int] 3 = Inr (Some 1)" by code_simp
  have g: "find_gt [1, 3, 3, 5 :: int] 3 = Inr (Some 5)" by code_simp
  have i: "index [1, 3, 3, 5 :: int] 3 = Inr (Some 1)" by code_simp
  note t3 = sorted_search_helpers[OF s, of 3]
  have b: "(1 :: int) < 3 \<and> (3 :: int) < 5" using t3 l g by blast
  have m: "(3 :: int) \<in> set [1, 3, 3, 5]" using t3 i by blast
  have n4: "(4 :: int) \<notin> set [1, 3, 3, 5]" by simp
  have i4: "index [1, 3, 3, 5 :: int] 4 = Inr None"
    using sorted_search_helpers[OF s, of 4] n4 by blast
  have lt1: "find_lt [1, 3, 3, 5 :: int] 1 = Inr None"
    using sorted_search_helpers[OF s, of 1] by simp
  have le0: "find_le [1, 3, 3, 5 :: int] 0 = Inr None"
    using sorted_search_helpers[OF s, of 0] by simp
  have gt5: "find_gt [1, 3, 3, 5 :: int] 5 = Inr None"
    using sorted_search_helpers[OF s, of 5] by simp
  have ge6: "find_ge [1, 3, 3, 5 :: int] 6 = Inr None"
    using sorted_search_helpers[OF s, of 6] by simp
  from s l g b i m n4 i4 lt1 le0 gt5 ge6 show ?thesis by blast
qed

section \<open>Aggregation by date\<close>

lemma decorate_ok:
  "\<forall>x\<in>set xs. \<exists>t k. x = Some t \<and> strptime L (date t) = Some k \<Longrightarrow>
   decorate L xs = Inr (map (\<lambda>x. (the (strptime L (date (the x))), the x)) xs)"
  by (induction xs) auto

lemma sum_list_indicator_absent:
  "a \<notin> set ds \<Longrightarrow> (\<Sum>d\<leftarrow>ds. if a = d then (c::real) else 0) = 0"
  by (induction ds) auto

lemma sum_list_indicator:
  "distinct ds \<Longrightarrow> a \<in> set ds \<Longrightarrow> (\<Sum>d\<leftarrow>ds. if a = d then (c::real) else 0) = c"
  by (induction ds) (auto simp: sum_list_indicator_absent)

lemma sum_list_by_groups:
  fixes g :: "'a \<Rightarrow> real"
  assumes "distinct ds" "f ` set xs \<subseteq> set ds"
  shows "(\<Sum>d\<leftarrow>ds. \<Sum>x\<leftarrow>filter (\<lambda>x. f x = d) xs. g x) = (\<Sum>x\<leftarrow>xs. g x)"
  using assms(2)
proof (induction xs)
  case Nil
  show ?case by simp
next
  case (Cons x xs)
  have "(\<Sum>d\<leftarrow>ds. \<Sum>y\<leftarrow>filter (\<lambda>y. f y = d) (x # xs). g y)
      = (\<Sum>d\<leftarrow>ds. (if f x = d then g x else 0) + (\<Sum>y\<leftarrow>filter (\<lambda>y. f y = d) xs. g y))"
    by (intro arg_cong[where f = sum_list] map_cong) auto
  also have "\<dots> = (\<Sum>d\<leftarrow>ds. if f x = d then g x else 0)
                 + (\<Sum>d\<leftarrow>ds. \<Sum>y\<leftarrow>filter (\<lambda>y. f y = d) xs. g y)"
    by (simp add: sum_list_addf)
  also have "\<dots> = g x + (\<Sum>y\<leftarrow>xs. g y)"
    using Cons sum_list_indicator[OF assms(1), of "f x" "g x"] by simp
  finally show ?case by simp
qed

lemma summed_transaction_group:
  assumes "d \<in> date ` set txs"
  shows "summed_transaction (map (\<lambda>txn. \<lparr>date = date txn, val = val txn, transactionTypeId = None\<rparr>)
            (filter (\<lambda>txn. date txn = d) txs))
         = Some \<lparr>date = d,
                 val = Some (\<Sum>t\<leftarrow>filter (\<lambda>txn. date txn = d) txs. or_zero (val t)),
                 transactionTypeId = None\<rparr>"
proof -
  let ?f = "filter (\<lambda>txn. date txn = d) txs"
  from assms have ne: "?f \<noteq> []" by (auto simp: filter_empty_conv)
  then obtain t ts where f: "?f = t # ts" by (cases ?f) auto
  then have "t \<in> set ?f" by simp
  then have "date t = d" by simp
  then show ?thesis
    unfolding summed_transaction_def by (simp add: f o_def)
qed

lemma summed_transactions_eq:
  assumes "set ds \<subseteq> date ` set txs"
  shows "map summed_transaction (grouped_transactions ds txs) = map Some (summed ds txs)"
  using assms by (auto simp: grouped_transactions_def summed_def summed_transaction_group)

lemma insort_key_decorated:
  "insort_key fst (k x, x) (map (\<lambda>t. (k t, t)) ys) = map (\<lambda>t. (k t, t)) (insort_key k x ys)"
  by (induction ys) auto

lemma sort_key_decorated:
  "sort_key fst (map (\<lambda>t. (k t, t)) ts) = map (\<lambda>t. (k t, t)) (sort_key k ts)"
  by (induction ts) (auto simp: insort_key_decorated)

lemma sorted_by_date_ok:
  assumes "\<forall>t\<in>set ts. strptime L (date t) \<noteq> None"
  shows "sorted_by_date L (map Some ts) = Inr (sort_key (\<lambda>t. the (strptime L (date t))) ts)"
proof -
  have "decorate L (map Some ts) = Inr (map (\<lambda>t. (the (strptime L (date t)), t)) ts)"
    using assms by (subst decorate_ok) (auto simp: o_def)
  moreover have "map snd (sort_key fst (map (\<lambda>t. (the (strptime L (date t)), t)) ts))
      = sort_key (\<lambda>t. the (strptime L (date t))) ts"
    by (simp add: sort_key_decorated o_def)
  ultimately show ?thesis by (simp add: sorted_by_date_def)
qed

lemma aggregate_closed_form:
  assumes "set_iter_ok L"
    and "\<forall>t\<in>set transactions. strptime L (date t) \<noteq> None"
    and "truthy tid \<longrightarrow> (\<forall>t\<in>set transactions. transactionTypeId t \<noteq> None)"
  shows "aggregate_transactions_by_date L transactions tid =
    Inr (sort_key (\<lambda>t. the (strptime L (date t)))
          (summed (set_iter L (map date (selected transactions tid))) (selected transactions tid)))"
proof -
  let ?txs = "selected transactions tid"
  let ?ds = "set_iter L (map date ?txs)"
  have guard: "\<not> (truthy tid \<and> length transactions > 0 \<and> transactionTypeId (transactions ! 0) = None)"
  proof
    assume a: "truthy tid \<and> length transactions > 0 \<and> transactionTypeId (transactions ! 0) = None"
    then have "transactions ! 0 \<in> set transactions" by (intro nth_mem) simp
    with a assms(3) show False by blast
  qed
  have sel: "(if truthy tid then filter_by_type transactions tid else Inr transactions) = Inr ?txs"
    using assms(3) by (auto simp: filter_by_type_def selected_def list_ex_iff)
  have ds: "set ?ds = date ` set ?txs"
    using assms(1) by (simp add: set_iter_ok_def)
  have sub: "set ?txs \<subseteq> set transactions" by (auto simp: selected_def)
  have parse: "\<forall>t\<in>set (summed ?ds ?txs). strptime L (date t) \<noteq> None"
    using ds sub assms(2) by (auto simp: summed_def)
  have "aggregate_transactions_by_date L transactions tid
      = sorted_by_date L (map summed_transaction (grouped_transactions ?ds ?txs))"
    unfolding aggregate_transactions_by_date_def
    by (simp only: guard if_False sel sum.case Let_def)
  also have "\<dots> = sorted_by_date L (map Some (summed ?ds ?txs))"
    using ds by (simp add: summed_transactions_eq)
  also have "\<dots> = Inr (sort_key (\<lambda>t. the (strptime L (date t))) (summed ?ds ?txs))"
    using parse by (rule sorted_by_date_ok)
  finally show ?thesis .
qed

lemma sum_list_insort_key:
  fixes g :: "'a \<Rightarrow> real"
  shows "sum_list (map g (insort_key k x xs)) = g x + sum_list (map g xs)"
  by (induction xs) auto

lemma sum_list_sort_key:
  fixes g :: "'a \<Rightarrow> real"
  shows "sum_list (map g (sort_key k xs)) = sum_list (map g xs)"
  by (induction xs) (auto simp: sum_list_insort_key)

lemma distinct_map_insort_key:
  "distinct (map f (insort_key k x xs)) \<longleftrightarrow> f x \<notin> f ` set xs \<and> distinct (map f xs)"
  by (induction xs) (auto simp: set_insort_key)

lemma distinct_map_sort_key:
  "distinct (map f (sort_key k xs)) \<longleftrightarrow> distinct (map f xs)"
  by (induction xs) (auto simp: distinct_map_insort_key)

lemma map_date_summed: "map date (summed ds txs) = ds"
  by (simp add: summed_def o_def)

lemma sum_summed:
  assumes "distinct ds" "date ` set txs \<subseteq> set ds"
  shows "(\<Sum>t\<leftarrow>summed ds txs. or_zero (val t)) = (\<Sum>t\<leftarrow>txs. or_zero (val t))"
proof -
  have "(\<Sum>t\<leftarrow>summed ds txs. or_zero (val t))
      = (\<Sum>d\<leftarrow>ds. \<Sum>t\<leftarrow>filter (\<lambda>txn. date txn = d) txs. or_zero (val t))"
    by (simp add: summed_def o_def or_zero_def)
  also have "\<dots> = (\<Sum>t\<leftarrow>txs. or_zero (val t))"
    using assms by (rule sum_list_by_groups)
  finally show ?thesis .
qed

lemma selected_matching:
  "type_filter \<noteq> Some 0 \<Longrightarrow> selected transactions type_filter = matching transactions type_filter"
  by (cases type_filter) (simp_all add: selected_def matching_def truthy_def)

lemma distinct_parsed_dates:
  assumes d: "distinct (map date out)"
    and p: "\<forall>t\<in>set out. strptime L (date t) \<noteq> None"
    and i: "inj_on (strptime L) (date ` set out)"
  shows "distinct (map (\<lambda>t. the (strptime L (date t))) out)"
proof -
  have "inj_on (\<lambda>s. the (strptime L s)) (set (map date out))"
  proof (rule inj_onI)
    fix s s' assume s: "s \<in> set (map date out)" "s' \<in> set (map date out)"
      and e: "the (strptime L s) = the (strptime L s')"
    from s p have "strptime L s \<noteq> None" "strptime L s' \<noteq> None" by auto
    with e have "strptime L s = strptime L s'" by auto
    with i s show "s = s'" by (auto dest: inj_onD)
  qed
  with d have "distinct (map (\<lambda>s. the (strptime L s)) (map date out))"
    by (simp only: distinct_map)
  then show ?thesis by (simp add: o_def)
qed

text \<open>
  Claim C9, as the code has it. For a transaction list whose dates parse and no filter,
  or a filter that counts as true (not the identifier 0) on transactions that all
  carry a type, \<open>aggregate_transactions_by_date\<close> returns a list with at most one
  transaction per date string, on exactly the date strings of the filter-matching
  transactions, hence with at most one per calendar day when no two of these strings
  parse to the same day; the values returned sum to the total of the filter-matching
  values, \<^verbatim>\<open>None\<close> counting as 0; and the list is ascending in the parsed dates.
\<close>

theorem aggregate_transactions_by_date_result:
  assumes "set_iter_ok L"
    and "\<forall>t\<in>set transactions. strptime L (date t) \<noteq> None"
    and "type_filter \<noteq> Some 0"
    and "type_filter \<noteq> None \<longrightarrow> (\<forall>t\<in>set transactions. transactionTypeId t \<noteq> None)"
  shows "\<exists>out. aggregate_transactions_by_date L transactions type_filter = Inr out \<and>
      distinct (map date out) \<and>
      set (map date out) = set (map date (matching transactions type_filter)) \<and>
      (inj_on (strptime L) (date ` set (matching transactions type_filter)) \<longrightarrow>
         distinct (map (\<lambda>t. the (strptime L (date t))) out)) \<and>
      (\<Sum>t\<leftarrow>out. or_zero (val t))
        = (\<Sum>t\<leftarrow>matching transactions type_filter. or_zero (val t)) \<and>
      sorted (map (\<lambda>t. the (strptime L (date t))) out)"
proof -
  let ?txs = "matching transactions type_filter"
  let ?ds = "set_iter L (map date ?txs)"
  let ?k = "\<lambda>t. the (strptime L (date t))"
  let ?out = "sort_key ?k (summed ?ds ?txs)"
  have sel: "selected transactions type_filter = ?txs"
    using assms(3) by (rule selected_matching)
  have typed: "truthy type_filter \<longrightarrow> (\<forall>t\<in>set transactions. transactionTypeId t \<noteq> None)"
    using assms(4) by (cases type_filter) (simp_all add: truthy_def)
  have ds: "distinct ?ds" "set ?ds = date ` set ?txs"
    using assms(1) by (simp_all add: set_iter_ok_def)
  have 1: "aggregate_transactions_by_date L transactions type_filter = Inr ?out"
    using aggregate_closed_form[OF assms(1,2) typed] by (simp only: sel)
  have 2: "distinct (map date ?out)"
    using ds(1) by (simp add: distinct_map_sort_key map_date_summed)
  have "set (map date ?out) = set (map date (summed ?ds ?txs))" by simp
  then have 3: "set (map date ?out) = set (map date ?txs)"
    using ds(2) by (simp add: map_date_summed)
  have sub: "set ?txs \<subseteq> set transactions"
    by (cases type_filter) (auto simp: matching_def)
  have dates: "date ` set ?out = date ` set ?txs"
    using 3 by simp
  have parse: "\<forall>t\<in>set ?out. strptime L (date t) \<noteq> None"
  proof
    fix t assume "t \<in> set ?out"
    then have "date t \<in> date ` set ?out" by (rule imageI)
    then have "date t \<in> date ` set transactions" using dates sub by auto
    then show "strptime L (date t) \<noteq> None" using assms(2) by auto
  qed
  have 4: "inj_on (strptime L) (date ` set ?txs) \<longrightarrow> distinct (map ?k ?out)"
  proof
    assume "inj_on (strptime L) (date ` set ?txs)"
    then have "inj_on (strptime L) (date ` set ?out)" by (simp only: dates)
    with 2 parse show "distinct (map ?k ?out)" by (rule distinct_parsed_dates)
  qed
  have 5: "(\<Sum>t\<leftarrow>?out. or_zero (val t)) = (\<Sum>t\<leftarrow>?txs. or_zero (val t))"
    using ds by (simp add: sum_list_sort_key sum_summed)
  have 6: "sorted (map ?k ?out)"
    by (rule sorted_sort_key)
  from 1 2 3 4 5 6 show ?thesis by blast
qed

theorem aggregate_transactions_by_date_result_witness:
  "aggregate_transactions_by_date example_lib example_transactions (Some 1) =
     Inr [\<lparr>date = ''2020-01-01'', val = Some 3, transactionTypeId = None\<rparr>,
          \<lparr>date = ''2020-07-01'', val = Some 9, transactionTypeId = None\<rparr>] \<and>
   distinct [''2020-01-01'', ''2020-07-01''] \<and>
   distinct (map (\<lambda>t. the (strptime example_lib (date t)))
     [\<lparr>date = ''2020-01-01'', val = Some 3, transactionTypeId = None\<rparr>,
      \<lparr>date = ''2020-07-01'', val = Some 9, transactionTypeId = None\<rparr>]) \<and>
   (\<Sum>t\<leftarrow>matching example_transactions (Some 1). or_zero (val t)) = 3 + 9 \<and>
   sorted (map (\<lambda>t. the (strptime example_lib (date t)))
     [\<lparr>date = ''2020-01-01'', val = Some 3, transactionTypeId = None\<rparr>,
      \<lparr>date = ''2020-07-01'', val = Some 9, transactionTypeId = None\<rparr>]) \<and>
   aggregate_transactions_by_date python_lib
     [\<lparr>date = ''2020-10-01'', val = Some 1, transactionTypeId = None\<rparr>,
      \<lparr>date = ''2020-9-01'', val = Some 2, transactionTypeId = None\<rparr>] None =
     Inr [\<lparr>date = ''2020-9-01'', val = Some 2, transactionTypeId = None\<rparr>,
          \<lparr>date = ''2020-10-01'', val = Some 1, transactionTypeId = None\<rparr>] \<and>
   ''2020-10-01'' < ''2020-9-01''"
proof -
  let ?r = "[\<lparr>date = ''2020-01-01'', val = Some 3, transactionTypeId = None\<rparr>,
          \<lparr>date = ''2020-07-01'', val = Some 9, transactionTypeId = None\<rparr>]"
  have h1: "set_iter_ok example_lib"
    by (simp add: set_iter_ok_def example_lib_def)
  have h2: "\<forall>t\<in>set example_transactions. strptime example_lib (date t) \<noteq> None"
    by code_simp
  have h3: "Some (1 :: int) \<noteq> Some 0" by simp
  have h4: "Some (1 :: int) \<noteq> None \<longrightarrow>
      (\<forall>t\<in>set example_transactions. transactionTypeId t \<noteq> None)"
    by code_simp
  have i: "inj_on (strptime example_lib) (date ` set (matching example_transactions (Some 1)))"
    by code_simp
  have e: "aggregate_transactions_by_date example_lib example_transactions (Some 1) = Inr ?r"
    by code_simp
  from aggregate_transactions_by_date_result[OF h1 h2 h3 h4] e i
  have "distinct (map date ?r) \<and>
      distinct (map (\<lambda>t. the (strptime example_lib (date t))) ?r) \<and>
      (\<Sum>t\<leftarrow>?r. or_zero (val t))
        = (\<Sum>t\<leftarrow>matching example_transactions (Some 1). or_zero (val t)) \<and>
      sorted (map (\<lambda>t. the (strptime example_lib (date t))) ?r)"
    by auto
  then have a: "distinct [''2020-01-01'', ''2020-07-01''] \<and>
      distinct (map (\<lambda>t. the (strptime example_lib (date t))) ?r) \<and>
      (\<Sum>t\<leftarrow>matching example_transactions (Some 1). or_zero (val t)) = 3 + 9 \<and>
      sorted (map (\<lambda>t. the (strptime example_lib (date t))) ?r)"
    by (simp add: or_zero_def)
  have b: "aggregate_transactions_by_date python_lib
     [\<lparr>date = ''2020-10-01'', val = Some 1, transactionTypeId = None\<rparr>,
      \<lparr>date = ''2020-9-01'', val = Some 2, transactionTypeId = None\<rparr>] None =
     Inr [\<lparr>date = ''2020-9-01'', val = Some 2, transactionTypeId = None\<rparr>,
          \<lparr>date = ''2020-10-01'', val = Some 1, transactionTypeId = None\<rparr>]"
    by code_simp
  have c: "''2020-10-01'' < ''2020-9-01''" by code_simp
  from e a b c show ?thesis by (intro conjI) simp_all
qed

text \<open>
  The claim as stated fails in two places. With the identifier 0 as the filter nothing
  is filtered: a transaction of type 0 of value 5 and one of type 1 of value 7 come back
  as one record of value 12, while the filter-matching values sum to 5. And two strings
  for one day give two records: \<^verbatim>\<open>2020-07-01\<close> and \<^verbatim>\<open>2020-7-1\<close> parse to the same
  day and each keeps its own record.
\<close>

theorem aggregate_transactions_by_date_counterexample:
  "aggregate_transactions_by_date example_lib
     [\<lparr>date = ''2020-07-01'', val = Some 5, transactionTypeId = Some 0\<rparr>,
      \<lparr>date = ''2020-07-01'', val = Some 7, transactionTypeId = Some 1\<rparr>] (Some 0)
     = Inr [\<lparr>date = ''2020-07-01'', val = Some 12, transactionTypeId = None\<rparr>] \<and>
   (\<Sum>t\<leftarrow>matching
          [\<lparr>date = ''2020-07-01'', val = Some 5, transactionTypeId = Some 0\<rparr>,
           \<lparr>date = ''2020-07-01'', val = Some 7, transactionTypeId = Some 1\<rparr>] (Some 0).
      or_zero (val t)) = 5 \<and>
   (12 :: real) \<noteq> 5 \<and>
   aggregate_transactions_by_date python_lib
     [\<lparr>date = ''2020-07-01'', val = Some 5, transactionTypeId = None\<rparr>,
      \<lparr>date = ''2020-7-1'', val = Some 4, transactionTypeId = None\<rparr>] None
     = Inr [\<lparr>date = ''2020-07-01'', val = Some 5, transactionTypeId = None\<rparr>,
            \<lparr>date = ''2020-7-1'', val = Some 4, transactionTypeId = None\<rparr>] \<and>
   strptime python_lib ''2020-07-01'' = Some 737607 \<and>
   strptime python_lib ''2020-7-1'' = Some 737607"
  by code_simp

section \<open>XIRR\<close>

lemma list_all_sort_key: "list_all P (sort_key k xs) = list_all P xs"
  by (simp add: list_all_iff)

text \<open>
  Claim C2, as the code has it. When every value is at least 0, \<open>calculate_xirr\<close>
  returns \<^verbatim>\<open>None\<close>; when every value is at most 0 and not every value is at least 0,
  it returns \<open>-1\<close>. In both cases it decides by itself: nothing is raised and the
  root-finder is not called, whatever the dates are.
\<close>

theorem calculate_xirr_one_sign:
  "((\<forall>x\<in>set transactions. ge_zero (val x)) \<longrightarrow>
      calculate_xirr_plan L transactions = Inr (Return None) \<and>
      calculate_xirr L transactions = Inr None) \<and>
   ((\<forall>x\<in>set transactions. le_zero (val x)) \<and> \<not> (\<forall>x\<in>set transactions. ge_zero (val x)) \<longrightarrow>
      calculate_xirr_plan L transactions = Inr (Return (Some (- 1))) \<and>
      calculate_xirr L transactions = Inr (Some (- 1)))"
proof (intro conjI impI)
  assume a: "\<forall>x\<in>set transactions. ge_zero (val x)"
  then show p: "calculate_xirr_plan L transactions = Inr (Return None)"
    by (auto simp: calculate_xirr_plan_def Let_def list_all_sort_key list_all_iff)
  show "calculate_xirr L transactions = Inr None"
    by (simp add: calculate_xirr_def p)
next
  assume a: "(\<forall>x\<in>set transactions. le_zero (val x)) \<and> \<not> (\<forall>x\<in>set transactions. ge_zero (val x))"
  then show p: "calculate_xirr_plan L transactions = Inr (Return (Some (- 1)))"
    by (auto simp: calculate_xirr_plan_def Let_def list_all_sort_key list_all_iff)
  show "calculate_xirr L transactions = Inr (Some (- 1))"
    by (simp add: calculate_xirr_def p)
qed

theorem calculate_xirr_one_sign_witness:
  "ge_zero (Some 100) \<and> ge_zero (Some 0) \<and>
   calculate_xirr example_lib
     [\<lparr>date = ''2020-01-01'', val = Some 100, transactionTypeId = None\<rparr>,
      \<lparr>date = ''not a date'', val = Some 0, transactionTypeId = None\<rparr>] = Inr None \<and>
   le_zero (Some (- 100)) \<and> le_zero None \<and> \<not> ge_zero (Some (- 100)) \<and>
   calculate_xirr example_lib
     [\<lparr>date = ''2020-01-01'', val = Some (- 100), transactionTypeId = None\<rparr>,
      \<lparr>date = ''2020-07-01'', val = None, transactionTypeId = None\<rparr>] = Inr (Some (- 1))"
proof -
  let ?p = "[\<lparr>date = ''2020-01-01'', val = Some 100, transactionTypeId = None\<rparr>,
      \<lparr>date = ''not a date'', val = Some 0, transactionTypeId = None\<rparr>]"
  let ?n = "[\<lparr>date = ''2020-01-01'', val = Some (- 100), transactionTypeId = None\<rparr>,
      \<lparr>date = ''2020-07-01'', val = None, transactionTypeId = None\<rparr>]"
  have g: "ge_zero (Some 100)" "ge_zero (Some 0)" "le_zero (Some (- 100))" "le_zero None"
    "\<not> ge_zero (Some (- 100))"
    by (simp_all add: ge_zero_def le_zero_def)
  have 1: "calculate_xirr example_lib ?p = Inr None"
    using calculate_xirr_one_sign[of ?p example_lib] g by simp
  have 2: "calculate_xirr example_lib ?n = Inr (Some (- 1))"
    using calculate_xirr_one_sign[of ?n example_lib] g by simp
  from g 1 2 show ?thesis by blast
qed

theorem calculate_xirr_all_zero_counterexample:
  "le_zero (Some 0) \<and>
   calculate_xirr example_lib
     [\<lparr>date = ''2020-01-01'', val = Some 0, transactionTypeId = None\<rparr>] = Inr None \<and>
   calculate_xirr example_lib
     [\<lparr>date = ''2020-01-01'', val = Some 0, transactionTypeId = None\<rparr>] \<noteq> Inr (Some (- 1))"
  by (simp add: calculate_xirr_def calculate_xirr_plan_def Let_def ge_zero_def le_zero_def)

lemma fold_add_sum_list:
  fixes g :: "'a \<Rightarrow> real"
  shows "fold (\<lambda>y x. x + g y) arr s = s + sum_list (map g arr)"
  by (induction arr arbitrary: s) auto

lemma transaction_array_ok:
  "\<forall>t\<in>set ts. strptime L (date t) \<noteq> None \<Longrightarrow>
   transaction_array L d ts =
     Inr (map (\<lambda>t. \<lparr>flow_value = or_zero (val t),
                     time_diff_days = the (strptime L (date t)) - d\<rparr>) ts)"
  by (induction ts) auto

lemma xirr_objective:
  assumes "strptime L (date (hd (sort_key date transactions))) = Some d"
  shows "xirr (map (\<lambda>t. \<lparr>flow_value = or_zero (val t),
                          time_diff_days = the (strptime L (date t)) - d\<rparr>)
                (sort_key date transactions)) = objective L transactions"
  by (rule ext) (simp add: xirr_def objective_def days_since_first_def fold_add_sum_list o_def assms)

lemma plan_mixed_signs:
  assumes pos: "\<exists>x\<in>set transactions. \<exists>v. val x = Some v \<and> 0 < v"
    and neg: "\<exists>x\<in>set transactions. \<exists>v. val x = Some v \<and> v < 0"
    and parse: "\<forall>x\<in>set transactions. strptime L (date x) \<noteq> None"
  shows "calculate_xirr_plan L transactions =
    Inr (if (objective L transactions (- 0.999) > 0 \<and> objective L transactions 100 < 0)
            \<or> (objective L transactions (- 0.999) < 0 \<and> objective L transactions 100 > 0)
         then Solve (objective L transactions) (- 0.999) 100
         else Return None)"
proof -
  let ?ts = "sort_key date transactions"
  have n1: "\<not> list_all (\<lambda>x. ge_zero (val x)) ?ts"
  proof -
    from neg obtain x v where "x \<in> set transactions" "val x = Some v" "v < 0" by blast
    then have "x \<in> set transactions \<and> \<not> ge_zero (val x)" by (simp add: ge_zero_def)
    then show ?thesis by (auto simp: list_all_sort_key list_all_iff)
  qed
  have n2: "\<not> list_all (\<lambda>x. le_zero (val x)) ?ts"
  proof -
    from pos obtain x v where "x \<in> set transactions" "val x = Some v" "0 < v" by blast
    then have "x \<in> set transactions \<and> \<not> le_zero (val x)" by (simp add: le_zero_def)
    then show ?thesis by (auto simp: list_all_sort_key list_all_iff)
  qed
  have "set ?ts \<noteq> {}" using pos by auto
  then have ne: "?ts \<noteq> []" by (simp del: set_sort)
  have ne0: "transactions \<noteq> []" using pos by auto
  have g: "getitem ?ts 0 = Inr (hd ?ts)"
    using ne ne0 by (simp add: getitem_def hd_conv_nth)
  have "hd ?ts \<in> set ?ts" using ne by (rule hd_in_set)
  then have "hd ?ts \<in> set transactions" by simp
  then obtain d where d: "strptime L (date (hd ?ts)) = Some d" using parse by auto
  have p2: "\<forall>t\<in>set ?ts. strptime L (date t) \<noteq> None" using parse by simp
  note arr = transaction_array_ok[OF p2, of d]
  show ?thesis
    unfolding calculate_xirr_plan_def Let_def
    by (simp only: n1 n2 if_False g sum.case d option.case arr xirr_objective[OF d]) simp
qed

text \<open>
  Claim C3. For cash flows with a strictly positive and a strictly negative value, and
  dates that parse, \<open>calculate_xirr\<close> evaluates the objective at \<open>-0.999\<close> and
  \<open>100\<close>; when the two values have opposite signs it returns what \<open>brenth\<close> finds
  for the objective on \<open>[-0.999, 100]\<close>, and otherwise (the signs agree, or a value
  is zero) it returns \<^verbatim>\<open>None\<close> with no search.
\<close>

theorem calculate_xirr_bracket:
  assumes "\<exists>x\<in>set transactions. \<exists>v. val x = Some v \<and> 0 < v"
    and "\<exists>x\<in>set transactions. \<exists>v. val x = Some v \<and> v < 0"
    and "\<forall>x\<in>set transactions. strptime L (date x) \<noteq> None"
  shows "(let f = objective L transactions;
              opposite = ((f (- 0.999) > 0 \<and> f 100 < 0) \<or> (f (- 0.999) < 0 \<and> f 100 > 0))
          in calculate_xirr_plan L transactions =
               Inr (if opposite then Solve f (- 0.999) 100 else Return None) \<and>
             calculate_xirr L transactions =
               (if opposite
                then (case brenth L f (- 0.999) 100 of Inl e \<Rightarrow> Inl e | Inr r \<Rightarrow> Inr (Some r))
                else Inr None) \<and>
             (f (- 0.999) = 0 \<or> f 100 = 0 \<or> (f (- 0.999) > 0 \<and> f 100 > 0)
                \<or> (f (- 0.999) < 0 \<and> f 100 < 0) \<longrightarrow>
              calculate_xirr L transactions = Inr None))"
proof -
  note p = plan_mixed_signs[OF assms]
  show ?thesis
    unfolding Let_def calculate_xirr_def p by auto
qed

theorem calculate_xirr_bracket_witness:
  "objective example_lib example_cash_flows (- 0.999) = 199900 \<and>
   objective example_lib example_cash_flows 100 = - 100 + 200 / 101 \<and>
   calculate_xirr_plan example_lib example_cash_flows =
     Inr (Solve (objective example_lib example_cash_flows) (- 0.999) 100) \<and>
   calculate_xirr example_lib example_cash_flows = Inr (Some 1)"
proof -
  have h1: "\<exists>x\<in>set example_cash_flows. \<exists>v. val x = Some v \<and> 0 < v"
    by (simp add: example_cash_flows_def)
  have h2: "\<exists>x\<in>set example_cash_flows. \<exists>v. val x = Some v \<and> v < 0"
    by (simp add: example_cash_flows_def)
  have d: "strptime example_lib ''2021-01-01'' = Some 737791"
    "strptime example_lib ''2022-01-01'' = Some 738156"
    by code_simp+
  have h3: "\<forall>x\<in>set example_cash_flows. strptime example_lib (date x) \<noteq> None"
    by (simp add: example_cash_flows_def d)
  have s: "sort_key date example_cash_flows = example_cash_flows"
    by code_simp
  have f: "objective example_lib example_cash_flows r =
             - 100 / (1 + r) powr 0 + 200 / (1 + r) powr 1" for r
    unfolding objective_def days_since_first_def s
    by (simp add: example_cash_flows_def d or_zero_def)
  have lo: "objective example_lib example_cash_flows (- 0.999) = 199900"
    unfolding f by simp
  have hi: "objective example_lib example_cash_flows 100 = - 100 + 200 / 101"
    unfolding f by simp
  have one: "objective example_lib example_cash_flows 1 = 0"
    unfolding f by simp
  have bdef: "brenth example_lib g lo' hi' =
      (if lo' \<le> 1 \<and> 1 \<le> hi' \<and> g 1 = 0 then Inr 1 else Inl ValueError)" for g lo' hi'
    by (simp add: example_lib_def)
  have b: "brenth example_lib (objective example_lib example_cash_flows) (- 0.999) 100 = Inr 1"
    unfolding bdef using one by simp
  from calculate_xirr_bracket[OF h1 h2 h3] lo hi b
  have "calculate_xirr_plan example_lib example_cash_flows =
     Inr (Solve (objective example_lib example_cash_flows) (- 0.999) 100) \<and>
   calculate_xirr example_lib example_cash_flows = Inr (Some 1)"
    by (simp add: Let_def)
  with lo hi show ?thesis by blast
qed

section \<open>Keyed search\<close>

lemma find_eq_by_key_total:
  "find_eq_by_key a x key =
     Inr (if bisect_left (map key a) x \<noteq> length a \<and> key (a ! bisect_left (map key a) x) = x
          then Some (a ! bisect_left (map key a) x) else None)"
  using bisect_left_le[of "map key a" x] by (auto simp: find_eq_by_key_def getitem_def Let_def)

lemma find_le_by_key_total:
  "find_le_by_key a x key =
     Inr (if bisect_right (map key a) x \<noteq> 0
          then Some (a ! (bisect_right (map key a) x - 1)) else None)"
  using bisect_right_le[of "map key a" x] by (auto simp: find_le_by_key_def getitem_def Let_def)

lemma find_gt_by_key_total:
  "find_gt_by_key a x key =
     Inr (if bisect_right (map key a) x \<noteq> length a
          then Some (a ! bisect_right (map key a) x) else None)"
  using bisect_right_le[of "map key a" x] by (auto simp: find_gt_by_key_def getitem_def Let_def)

lemma find_eq_by_key_some:
  assumes "find_eq_by_key a x key = Inr (Some v)"
  shows "v \<in> set a \<and> key v = x"
proof -
  let ?i = "bisect_left (map key a) x"
  from assms have i: "?i \<noteq> length a" "key (a ! ?i) = x" "v = a ! ?i"
    by (auto simp: find_eq_by_key_total split: if_splits)
  have "?i < length a" using i(1) bisect_left_le[of "map key a" x] by simp
  then have "a ! ?i \<in> set a" by (rule nth_mem)
  with i show ?thesis by simp
qed

lemma find_eq_by_key_none:
  assumes "sorted (map key a)" "find_eq_by_key a x key = Inr None"
  shows "\<forall>v\<in>set a. key v \<noteq> x"
proof -
  let ?i = "bisect_left (map key a) x"
  have b: "?i \<le> length a" using bisect_left_le[of "map key a" x] by simp
  from assms(2) have n: "?i = length a \<or> key (a ! ?i) \<noteq> x"
    by (auto simp: find_eq_by_key_total split: if_splits)
  have "index (map key a) x = Inr None"
    using n b by (auto simp: index_total)
  then have "x \<notin> set (map key a)" using index_none_sorted[OF assms(1)] by blast
  then show ?thesis by auto
qed

lemma find_le_by_key_sorted:
  assumes "sorted (map key a)"
  shows "find_le_by_key a x key = Inr (Some v) \<Longrightarrow>
           v \<in> set a \<and> key v \<le> x \<and> (\<forall>w\<in>set a. key w \<le> x \<longrightarrow> key w \<le> key v)"
    and "find_le_by_key a x key = Inr None \<longleftrightarrow> (\<forall>w\<in>set a. \<not> key w \<le> x)"
proof -
  let ?r = "bisect_right (map key a) x"
  note p = bisect_right_props[OF assms, of x]
  have b: "?r \<le> length a" using bisect_right_le[of "map key a" x] by simp
  have below: "\<forall>i<?r. key (a ! i) \<le> x" using p(1) b by auto
  have above: "\<forall>i. ?r \<le> i \<and> i < length a \<longrightarrow> x < key (a ! i)" using p(2) by auto
  {
    assume "find_le_by_key a x key = Inr (Some v)"
    then have r: "?r \<noteq> 0" "v = a ! (?r - 1)"
      by (auto simp: find_le_by_key_total split: if_splits)
    then have lt: "?r - 1 < length a" "?r - 1 < ?r" using b by auto
    have 1: "v \<in> set a" using r(2) lt(1) by simp
    have 2: "key v \<le> x" using below lt(2) r(2) by blast
    have 3: "\<forall>w\<in>set a. key w \<le> x \<longrightarrow> key w \<le> key v"
    proof (intro ballI impI)
      fix w assume w: "w \<in> set a" "key w \<le> x"
      then obtain j where j: "j < length a" "a ! j = w" by (auto simp: in_set_conv_nth)
      have "\<not> ?r \<le> j" using above j w(2) by (auto simp: not_less[symmetric])
      then have "j \<le> ?r - 1" by simp
      then have "map key a ! j \<le> map key a ! (?r - 1)"
        using assms lt(1) by (intro sorted_nth_mono) auto
      then show "key w \<le> key v" using j lt(1) r(2) by simp
    qed
    from 1 2 3 show "v \<in> set a \<and> key v \<le> x \<and> (\<forall>w\<in>set a. key w \<le> x \<longrightarrow> key w \<le> key v)"
      by blast
  }
  show "find_le_by_key a x key = Inr None \<longleftrightarrow> (\<forall>w\<in>set a. \<not> key w \<le> x)"
  proof
    assume "find_le_by_key a x key = Inr None"
    then have "?r = 0" by (auto simp: find_le_by_key_total split: if_splits)
    with above show "\<forall>w\<in>set a. \<not> key w \<le> x" by (auto simp: in_set_conv_nth not_le)
  next
    assume n: "\<forall>w\<in>set a. \<not> key w \<le> x"
    have "?r = 0"
    proof (rule ccontr)
      assume "?r \<noteq> 0"
      then have z: "0 < ?r" by simp
      then have "0 < length a" using b by linarith
      then have "a ! 0 \<in> set a" by (rule nth_mem)
      moreover have "key (a ! 0) \<le> x" using below z by blast
      ultimately show False using n by blast
    qed
    then show "find_le_by_key a x key = Inr None" by (simp add: find_le_by_key_total)
  qed
qed

lemma find_gt_by_key_sorted:
  assumes "sorted (map key a)"
  shows "find_gt_by_key a x key = Inr (Some v) \<Longrightarrow>
           v \<in> set a \<and> x < key v \<and> (\<forall>w\<in>set a. x < key w \<longrightarrow> key v \<le> key w)"
    and "find_gt_by_key a x key = Inr None \<longleftrightarrow> (\<forall>w\<in>set a. \<not> x < key w)"
proof -
  let ?r = "bisect_right (map key a) x"
  note p = bisect_right_props[OF assms, of x]
  have b: "?r \<le> length a" using bisect_right_le[of "map key a" x] by simp
  have below: "\<forall>i<?r. key (a ! i) \<le> x" using p(1) b by auto
  have above: "\<forall>i. ?r \<le> i \<and> i < length a \<longrightarrow> x < key (a ! i)" using p(2) by auto
  {
    assume "find_gt_by_key a x key = Inr (Some v)"
    then have r: "?r \<noteq> length a" "v = a ! ?r"
      by (auto simp: find_gt_by_key_total split: if_splits)
    then have lt: "?r < length a" using b by auto
    have 1: "v \<in> set a" using r(2) lt by simp
    have 2: "x < key v" using above lt r(2) by blast
    have 3: "\<forall>w\<in>set a. x < key w \<longrightarrow> key v \<le> key w"
    proof (intro ballI impI)
      fix w assume w: "w \<in> set a" "x < key w"
      then obtain j where j: "j < length a" "a ! j = w" by (auto simp: in_set_conv_nth)
      have "\<not> j < ?r" using below j w(2) by (auto simp: not_le[symmetric])
      then have "?r \<le> j" by simp
      then have "map key a ! ?r \<le> map key a ! j"
        using assms j(1) by (intro sorted_nth_mono) auto
      then show "key v \<le> key w" using j lt r(2) by simp
    qed
    from 1 2 3 show "v \<in> set a \<and> x < key v \<and> (\<forall>w\<in>set a. x < key w \<longrightarrow> key v \<le> key w)"
      by blast
  }
  show "find_gt_by_key a x key = Inr None \<longleftrightarrow> (\<forall>w\<in>set a. \<not> x < key w)"
  proof
    assume "find_gt_by_key a x key = Inr None"
    then have "?r = length a" by (auto simp: find_gt_by_key_total split: if_splits)
    with below show "\<forall>w\<in>set a. \<not> x < key w" by (auto simp: in_set_conv_nth not_less)
  next
    assume n: "\<forall>w\<in>set a. \<not> x < key w"
    have "?r = length a"
    proof (rule ccontr)
      assume "?r \<noteq> length a"
      then have z: "?r < length a" using b by simp
      then have "a ! ?r \<in> set a" by (rule nth_mem)
      moreover have "x < key (a ! ?r)" using above z by blast
      ultimately show False using n by blast
    qed
    then show "find_gt_by_key a x key = Inr None" by (simp add: find_gt_by_key_total)
  qed
qed

section \<open>Looking up the aggregated cash flow of a date\<close>

lemma collect_map:
  "\<forall>x\<in>set xs. f x = Inr (g x) \<Longrightarrow> collect f xs = Inr (map g xs)"
  by (induction xs) auto

lemma aggregated_by_date_closed:
  assumes "well_formed L transactions" "type_id \<noteq> 0"
  shows "aggregated_by_date L transactions type_id =
    Inr (map (\<lambda>t. \<lparr>date = the (strptime L (date t)), val = val t, transactionTypeId = None\<rparr>)
          (sort_key (\<lambda>t. the (strptime L (date t)))
            (summed (set_iter L (map date (selected transactions (Some type_id))))
               (selected transactions (Some type_id)))))"
proof -
  let ?sel = "selected transactions (Some type_id)"
  let ?ds = "set_iter L (map date ?sel)"
  let ?k = "\<lambda>t. the (strptime L (date t))"
  have a1: "set_iter_ok L" and a2: "\<forall>t\<in>set transactions. strptime L (date t) \<noteq> None"
    and a3: "truthy (Some type_id) \<longrightarrow> (\<forall>t\<in>set transactions. transactionTypeId t \<noteq> None)"
    using assms(1) by (auto simp: well_formed_def)
  have agg: "aggregate_transactions_by_date L transactions (Some type_id)
      = Inr (sort_key ?k (summed ?ds ?sel))"
    using a1 a2 a3 by (rule aggregate_closed_form)
  have ds: "set ?ds = date ` set ?sel" using a1 by (simp add: set_iter_ok_def)
  have sub: "set ?sel \<subseteq> set transactions" by (auto simp: selected_def)
  have "\<forall>x\<in>set (sort_key ?k (summed ?ds ?sel)). to_datetime L x =
      Inr \<lparr>date = ?k x, val = val x, transactionTypeId = None\<rparr>"
  proof
    fix x assume "x \<in> set (sort_key ?k (summed ?ds ?sel))"
    then have "x \<in> set (summed ?ds ?sel)" by simp
    then obtain s' where s': "s' \<in> set ?ds" "date x = s'"
      by (auto simp: summed_def)
    then have "s' \<in> date ` set transactions" using ds sub by auto
    then have "strptime L (date x) \<noteq> None" using a2 s'(2) by auto
    then show "to_datetime L x = Inr \<lparr>date = ?k x, val = val x, transactionTypeId = None\<rparr>"
      by (auto simp: to_datetime_def)
  qed
  then have "collect (to_datetime L) (sort_key ?k (summed ?ds ?sel)) =
      Inr (map (\<lambda>t. \<lparr>date = ?k t, val = val t, transactionTypeId = None\<rparr>)
             (sort_key ?k (summed ?ds ?sel)))"
    by (rule collect_map)
  then show ?thesis by (simp add: aggregated_by_date_def agg)
qed

lemma group_sum_is_net:
  assumes "well_formed L transactions" "type_id \<noteq> 0"
    and "s' \<in> date ` set (selected transactions (Some type_id))"
    and "strptime L s' = strptime L s"
  shows "(\<Sum>t\<leftarrow>filter (\<lambda>txn. date txn = s') (selected transactions (Some type_id)).
            or_zero (val t)) = net_on L transactions type_id s"
proof -
  have inj: "inj_on (strptime L) (date ` set transactions)"
    using assms(1) by (simp add: well_formed_def)
  have s': "s' \<in> date ` set transactions" using assms(3) by (auto simp: selected_def split: if_splits)
  have sel: "selected transactions (Some type_id) =
      filter (\<lambda>x. transactionTypeId x = Some type_id) transactions"
    using assms(2) by (simp add: selected_def truthy_def)
  have "filter (\<lambda>txn. date txn = s') (selected transactions (Some type_id))
      = filter (\<lambda>t. transactionTypeId t = Some type_id \<and> strptime L (date t) = strptime L s)
          transactions"
    unfolding sel filter_filter
  proof (rule filter_cong[OF refl])
    fix t assume "t \<in> set transactions"
    then have "date t \<in> date ` set transactions" by simp
    then have "date t = s' \<longleftrightarrow> strptime L (date t) = strptime L s'"
      using inj s' by (auto dest: inj_onD)
    then show "(transactionTypeId t = Some type_id \<and> date t = s') =
        (transactionTypeId t = Some type_id \<and> strptime L (date t) = strptime L s)"
      using assms(4) by auto
  qed
  then show ?thesis by (simp add: net_on_def)
qed

lemma lookup_aggregated:
  assumes wf: "well_formed L transactions" and tid: "type_id \<noteq> 0"
    and agg: "aggregated_by_date L transactions type_id = Inr A"
    and d: "strptime L s = Some d"
  shows "find_eq_by_key A d date =
    Inr (if any_on L transactions type_id s
         then Some \<lparr>date = d, val = Some (net_on L transactions type_id s),
                    transactionTypeId = None\<rparr>
         else None)"
proof -
  let ?sel = "selected transactions (Some type_id)"
  let ?ds = "set_iter L (map date ?sel)"
  let ?k = "\<lambda>t. the (strptime L (date t))"
  let ?to = "\<lambda>t. \<lparr>date = ?k t, val = val t, transactionTypeId = None\<rparr>"
  have A: "A = map ?to (sort_key ?k (summed ?ds ?sel))"
    using agg aggregated_by_date_closed[OF wf tid] by simp
  have ds: "set ?ds = date ` set ?sel"
    using wf by (simp add: well_formed_def set_iter_ok_def)
  have sel: "?sel = filter (\<lambda>x. transactionTypeId x = Some type_id) transactions"
    using tid by (simp add: selected_def truthy_def)
  have parse: "\<forall>t\<in>set transactions. strptime L (date t) \<noteq> None"
    using wf by (simp add: well_formed_def)
  have keys: "map date A = map ?k (sort_key ?k (summed ?ds ?sel))"
    by (simp add: A o_def)
  have srt: "sorted (map date A)" unfolding keys by (rule sorted_sort_key)
  have elems: "set A = (\<lambda>s'. \<lparr>date = the (strptime L s'),
        val = Some (\<Sum>t\<leftarrow>filter (\<lambda>txn. date txn = s') ?sel. or_zero (val t)),
        transactionTypeId = None\<rparr>) ` (date ` set ?sel)"
    unfolding A by (simp add: summed_def ds image_image)
  have any: "any_on L transactions type_id s \<longleftrightarrow> (\<exists>s'\<in>date ` set ?sel. strptime L s' = Some d)"
    by (auto simp: any_on_def list_ex_iff sel d)
  obtain r where r: "find_eq_by_key A d date = Inr r"
    by (simp add: find_eq_by_key_total)
  show ?thesis
  proof (cases r)
    case None
    then have "\<forall>v\<in>set A. date v \<noteq> d"
      using find_eq_by_key_none[OF srt] r by blast
    then have "\<forall>s'\<in>date ` set ?sel. the (strptime L s') \<noteq> d"
      unfolding elems by simp
    then have "\<not> any_on L transactions type_id s" unfolding any by auto
    with r None show ?thesis by simp
  next
    case (Some v)
    then have "find_eq_by_key A d date = Inr (Some v)" using r by simp
    then have "v \<in> set A \<and> date v = d" by (rule find_eq_by_key_some)
    then have v: "v \<in> set A" "date v = d" by simp_all
    then obtain s' where s': "s' \<in> date ` set ?sel"
      "v = \<lparr>date = the (strptime L s'),
            val = Some (\<Sum>t\<leftarrow>filter (\<lambda>txn. date txn = s') ?sel. or_zero (val t)),
            transactionTypeId = None\<rparr>"
      unfolding elems by blast
    have "s' \<in> date ` set transactions" using s'(1) sel by auto
    then have "strptime L s' \<noteq> None" using parse by auto
    moreover have "the (strptime L s') = d" using v(2) s'(2) by simp
    ultimately have e: "strptime L s' = Some d" by auto
    then have "strptime L s' = strptime L s" using d by simp
    from group_sum_is_net[OF wf tid s'(1) this]
    have "v = \<lparr>date = d, val = Some (net_on L transactions type_id s), transactionTypeId = None\<rparr>"
      using s'(2) e by simp
    moreover have "any_on L transactions type_id s" unfolding any using s'(1) e by blast
    ultimately show ?thesis using r Some by simp
  qed
qed

lemma net_on_none: "\<not> any_on L transactions type_id s \<Longrightarrow> net_on L transactions type_id s = 0"
proof -
  assume "\<not> any_on L transactions type_id s"
  then have "filter (\<lambda>t. transactionTypeId t = Some type_id \<and>
       strptime L (date t) = strptime L s) transactions = []"
    by (auto simp: any_on_def list_ex_iff filter_empty_conv)
  then show ?thesis by (simp add: net_on_def)
qed

lemma add_found_lookup:
  assumes "well_formed L transactions" "type_id \<noteq> 0"
    and "aggregated_by_date L transactions type_id = Inr A"
    and "strptime L s = Some d"
  shows "\<exists>found. find_eq_by_key A d date = Inr found \<and>
     add_found current cumulative found =
       Inr (current + net_on L transactions type_id s,
            cumulative + net_on L transactions type_id s) \<and>
     value_or_zero found = Inr (net_on L transactions type_id s)"
  using lookup_aggregated[OF assms] net_on_none[of L transactions type_id s]
  by (auto simp: add_found_def value_or_zero_def)

section \<open>Long-Nickels\<close>

lemma set_ratios_closed:
  "set_ratios calculate_tvpi c x y r =
     Inr (if calculate_tvpi \<and> c \<noteq> 0
          then r\<lparr>dpi := Some (- 1 * x / c), rvpi := Some (y / c),
                 tvpi := Some (- 1 * x / c + y / c)\<rparr>
          else if calculate_tvpi then r\<lparr>dpi := Some 0, rvpi := Some 0, tvpi := Some 0\<rparr>
          else r)"
  by (simp add: set_ratios_def pydiv_def)

lemma ln_body_ok:
  assumes wf: "well_formed L transactions"
    and C: "aggregated_by_date L transactions (Contribution L) = Inr C"
    and D: "aggregated_by_date L transactions (Distribution L) = Inr D"
    and d: "strptime L (br_date r) = Some d"
  shows "\<exists>u. ln_body L C D calculate_tvpi st r =
     Inr (\<lparr>ln_prev_value =
             Some ((case ln_prev_value st of None \<Rightarrow> 0 | Some p \<Rightarrow> p) * (1 + timeWeightedReturn r)
                   + net_on L transactions (Contribution L) (br_date r)
                   + net_on L transactions (Distribution L) (br_date r)),
           ln_cumulative_contributions =
             ln_cumulative_contributions st + net_on L transactions (Contribution L) (br_date r),
           ln_cumulative_distributions =
             ln_cumulative_distributions st + net_on L transactions (Distribution L) (br_date r),
           theoretical_investment_series =
             theoretical_investment_series st @
             [\<lparr>rdate = br_date r,
               balance = (case ln_prev_value st of None \<Rightarrow> 0 | Some p \<Rightarrow> p)
                   * (1 + timeWeightedReturn r)
                   + net_on L transactions (Contribution L) (br_date r)
                   + net_on L transactions (Distribution L) (br_date r)\<rparr>]\<rparr>, u)"
proof -
  have c0: "Contribution L \<noteq> 0" and d0: "Distribution L \<noteq> 0"
    using wf by (simp_all add: well_formed_def)
  let ?cur = "(case ln_prev_value st of None \<Rightarrow> 0
     | Some prev_value \<Rightarrow> if prev_value \<noteq> 0 then prev_value * (1 + timeWeightedReturn r) else 0)"
  have cur: "?cur = (case ln_prev_value st of None \<Rightarrow> 0 | Some p \<Rightarrow> p) * (1 + timeWeightedReturn r)"
    by (simp split: option.splits)
  let ?b = "(case ln_prev_value st of None \<Rightarrow> 0 | Some p \<Rightarrow> p) * (1 + timeWeightedReturn r)"
  let ?c = "net_on L transactions (Contribution L) (br_date r)"
  let ?d = "net_on L transactions (Distribution L) (br_date r)"
  from add_found_lookup[OF wf c0 C d, of ?b "ln_cumulative_contributions st"]
  obtain fc where fc: "find_eq_by_key C d date = Inr fc"
    "add_found ?b (ln_cumulative_contributions st) fc =
       Inr (?b + ?c, ln_cumulative_contributions st + ?c)" by blast
  from add_found_lookup[OF wf d0 D d, of "?b + ?c" "ln_cumulative_distributions st"]
  obtain fd where fd: "find_eq_by_key D d date = Inr fd"
    "add_found (?b + ?c) (ln_cumulative_distributions st) fd =
       Inr (?b + ?c + ?d, ln_cumulative_distributions st + ?d)" by blast
  show ?thesis
    unfolding ln_body_def Let_def
    by (simp only: d option.case fc fd sum.case prod.case set_ratios_closed cur) blast
qed

lemma ln_loop_series:
  assumes wf: "well_formed L transactions"
    and C: "aggregated_by_date L transactions (Contribution L) = Inr C"
    and D: "aggregated_by_date L transactions (Distribution L) = Inr D"
    and p: "\<forall>r\<in>set rs. strptime L (br_date r) \<noteq> None"
  shows "\<exists>st' out. run_loop (ln_body L C D calculate_tvpi) st rs = Inr (st', out) \<and>
     length out = length rs \<and>
     map rdate (theoretical_investment_series st') =
       map rdate (theoretical_investment_series st) @ map br_date rs \<and>
     map balance (theoretical_investment_series st') =
       map balance (theoretical_investment_series st) @
       long_nickels_balances (net_on L transactions (Contribution L))
         (net_on L transactions (Distribution L))
         (case ln_prev_value st of None \<Rightarrow> 0 | Some p \<Rightarrow> p) rs"
  using p
proof (induction rs arbitrary: st)
  case Nil
  show ?case by simp
next
  case (Cons r rs)
  from Cons.prems obtain d where d: "strptime L (br_date r) = Some d" by auto
  from ln_body_ok[OF wf C D d, of calculate_tvpi st]
  obtain u st1 where b: "ln_body L C D calculate_tvpi st r = Inr (st1, u)"
    and st1: "st1 = \<lparr>ln_prev_value =
             Some ((case ln_prev_value st of None \<Rightarrow> 0 | Some p \<Rightarrow> p) * (1 + timeWeightedReturn r)
                   + net_on L transactions (Contribution L) (br_date r)
                   + net_on L transactions (Distribution L) (br_date r)),
           ln_cumulative_contributions =
             ln_cumulative_contributions st + net_on L transactions (Contribution L) (br_date r),
           ln_cumulative_distributions =
             ln_cumulative_distributions st + net_on L transactions (Distribution L) (br_date r),
           theoretical_investment_series =
             theoretical_investment_series st @
             [\<lparr>rdate = br_date r,
               balance = (case ln_prev_value st of None \<Rightarrow> 0 | Some p \<Rightarrow> p)
                   * (1 + timeWeightedReturn r)
                   + net_on L transactions (Contribution L) (br_date r)
                   + net_on L transactions (Distribution L) (br_date r)\<rparr>]\<rparr>"
    by blast
  from Cons.prems have "\<forall>r\<in>set rs. strptime L (br_date r) \<noteq> None" by simp
  from Cons.IH[OF this, of st1]
  obtain st' out where l: "run_loop (ln_body L C D calculate_tvpi) st1 rs = Inr (st', out)"
    and len: "length out = length rs"
    and dates: "map rdate (theoretical_investment_series st') =
       map rdate (theoretical_investment_series st1) @ map br_date rs"
    and bals: "map balance (theoretical_investment_series st') =
       map balance (theoretical_investment_series st1) @
       long_nickels_balances (net_on L transactions (Contribution L))
         (net_on L transactions (Distribution L))
         (case ln_prev_value st1 of None \<Rightarrow> 0 | Some p \<Rightarrow> p) rs"
    by blast
  have "run_loop (ln_body L C D calculate_tvpi) st (r # rs) = Inr (st', u # out)"
    by (simp add: b l)
  moreover have "length (u # out) = length (r # rs)" using len by simp
  moreover have "map rdate (theoretical_investment_series st') =
       map rdate (theoretical_investment_series st) @ map br_date (r # rs)"
    using dates by (simp add: st1)
  moreover have "map balance (theoretical_investment_series st') =
       map balance (theoretical_investment_series st) @
       long_nickels_balances (net_on L transactions (Contribution L))
         (net_on L transactions (Distribution L))
         (case ln_prev_value st of None \<Rightarrow> 0 | Some p \<Rightarrow> p) (r # rs)"
    using bals by (simp add: st1 Let_def)
  ultimately show ?case by blast
qed

section \<open>The example inputs\<close>

lemma example_lib_simps:
  "strptime example_lib = iso_strptime" "set_iter example_lib = remdups"
  "Contribution example_lib = 1" "Distribution example_lib = 2"
  "strftime example_lib = iso_strftime"
  by (simp_all add: example_lib_def)

lemma example_dates:
  "iso_strptime ''2020-01-01'' = Some 737425" "iso_strptime ''2020-07-01'' = Some 737607"
  "iso_strptime ''2021-01-01'' = Some 737791"
  by code_simp+

lemma example_well_formed: "well_formed example_lib example_investment_transactions"
  unfolding well_formed_def set_iter_ok_def example_lib_simps
  by (simp add: example_investment_transactions_def example_dates)

lemma example_benchmark_dates:
  "\<forall>r\<in>set example_benchmark_returns. strptime example_lib (br_date r) \<noteq> None"
  unfolding example_lib_simps by (simp add: example_benchmark_returns_def example_dates)

lemma aggregated_by_date_returns:
  assumes "well_formed L transactions" "type_id \<noteq> 0"
  shows "\<exists>A. aggregated_by_date L transactions type_id = Inr A"
  using aggregated_by_date_closed[OF assms] by blast

text \<open>
  Claim C4. For transactions as the function expects them and benchmark returns whose
  dates parse, the loop of \<open>calculate_long_nickels_PME\<close> ends, and records for the
  benchmark returns, in order and under their dates, the balances of the recurrence
  \<open>B = B_prev * (1 + timeWeightedReturn) + net contribution + net distribution\<close>
  started from 0; without the XIRR request the function returns the loop's entries.
\<close>

theorem long_nickels_balance_recurrence:
  assumes "well_formed L transactions"
    and "\<forall>r\<in>set benchmark_returns. strptime L (br_date r) \<noteq> None"
  shows "\<exists>st out.
     long_nickels_loop L benchmark_returns transactions calculate_tvpi = Inr (st, out) \<and>
     calculate_long_nickels_PME L benchmark_returns transactions False calculate_tvpi = Inr out \<and>
     length out = length benchmark_returns \<and>
     map rdate (theoretical_investment_series st) = map br_date benchmark_returns \<and>
     map balance (theoretical_investment_series st) =
       long_nickels_balances (net_on L transactions (Contribution L))
         (net_on L transactions (Distribution L)) 0 benchmark_returns"
proof -
  have c0: "Contribution L \<noteq> 0" and d0: "Distribution L \<noteq> 0"
    using assms(1) by (simp_all add: well_formed_def)
  obtain C where C: "aggregated_by_date L transactions (Contribution L) = Inr C"
    using aggregated_by_date_returns[OF assms(1) c0] by blast
  obtain D where D: "aggregated_by_date L transactions (Distribution L) = Inr D"
    using aggregated_by_date_returns[OF assms(1) d0] by blast
  let ?st0 = "\<lparr>ln_prev_value = None, ln_cumulative_contributions = 0,
                  ln_cumulative_distributions = 0, theoretical_investment_series = []\<rparr>"
  from ln_loop_series[OF assms(1) C D assms(2), of calculate_tvpi ?st0]
  obtain st out where l: "run_loop (ln_body L C D calculate_tvpi) ?st0 benchmark_returns = Inr (st, out)"
    and r: "length out = length benchmark_returns"
      "map rdate (theoretical_investment_series st) = map br_date benchmark_returns"
      "map balance (theoretical_investment_series st) =
       long_nickels_balances (net_on L transactions (Contribution L))
         (net_on L transactions (Distribution L)) 0 benchmark_returns"
    by auto
  have 1: "long_nickels_loop L benchmark_returns transactions calculate_tvpi = Inr (st, out)"
    by (simp add: long_nickels_loop_def C D l)
  then have 2: "calculate_long_nickels_PME L benchmark_returns transactions False calculate_tvpi
      = Inr out"
    by (simp add: calculate_long_nickels_PME_def)
  from 1 2 r show ?thesis by blast
qed

theorem long_nickels_balance_recurrence_witness:
  "\<exists>st out.
     long_nickels_loop example_lib example_benchmark_returns example_investment_transactions True
       = Inr (st, out) \<and>
     map rdate (theoretical_investment_series st) = [''2020-01-01'', ''2020-07-01'', ''2021-01-01''] \<and>
     map balance (theoretical_investment_series st) = [1000, 1100, 610]"
proof -
  have n: "long_nickels_balances
      (net_on example_lib example_investment_transactions (Contribution example_lib))
      (net_on example_lib example_investment_transactions (Distribution example_lib)) 0
      example_benchmark_returns = [1000, 1100, 610]"
    by code_simp
  have d: "map br_date example_benchmark_returns = [''2020-01-01'', ''2020-07-01'', ''2021-01-01'']"
    by (simp add: example_benchmark_returns_def)
  from long_nickels_balance_recurrence[OF example_well_formed example_benchmark_dates, of True]
  obtain st out where
    "long_nickels_loop example_lib example_benchmark_returns example_investment_transactions True
       = Inr (st, out)"
    "map rdate (theoretical_investment_series st) = [''2020-01-01'', ''2020-07-01'', ''2021-01-01'']"
    "map balance (theoretical_investment_series st) = [1000, 1100, 610]"
    unfolding n d by auto
  then show ?thesis by (intro exI conjI)
qed

section \<open>Kaplan-Schoar\<close>

lemma set_ratios_keeps:
  assumes "set_ratios calculate_tvpi c x y r = Inr u"
  shows "br_date u = br_date r" "kaplanSchoarMultiple u = kaplanSchoarMultiple r"
    "br_balance u = br_balance r" "timeWeightedReturn u = timeWeightedReturn r"
  using assms by (auto simp: set_ratios_closed split: if_splits)

lemma ks_body_ok:
  assumes wf: "well_formed L transactions"
    and D: "aggregated_by_date L transactions (Distribution L) = Inr D"
    and C: "aggregated_by_date L transactions (Contribution L) = Inr C"
    and d: "strptime L (br_date r) = Some d"
  shows "\<exists>u. ks_body L D C calculate_tvpi st r =
     Inr (\<lparr>ks_cumulative_contributions =
             ks_cumulative_contributions st + net_on L transactions (Contribution L) (br_date r),
           prev_discounted_distribution_value =
             Some (compounded (prev_discounted_distribution_value st) r
                   + net_on L transactions (Distribution L) (br_date r)),
           prev_discounted_contribution_value =
             Some (compounded (prev_discounted_contribution_value st) r
                   + net_on L transactions (Contribution L) (br_date r))\<rparr>, u) \<and>
     br_date u = br_date r \<and>
     kaplanSchoarMultiple u =
       Some (ks_multiple
         (compounded (prev_discounted_distribution_value st) r
            + net_on L transactions (Distribution L) (br_date r))
         (compounded (prev_discounted_contribution_value st) r
            + net_on L transactions (Contribution L) (br_date r)))"
proof -
  have c0: "Contribution L \<noteq> 0" and d0: "Distribution L \<noteq> 0"
    using wf by (simp_all add: well_formed_def)
  let ?c = "net_on L transactions (Contribution L) (br_date r)"
  let ?d = "net_on L transactions (Distribution L) (br_date r)"
  let ?DD = "compounded (prev_discounted_distribution_value st) r + ?d"
  let ?DC = "compounded (prev_discounted_contribution_value st) r + ?c"
  from add_found_lookup[OF wf d0 D d, of "compounded (prev_discounted_distribution_value st) r" 0]
  obtain fd where fd: "find_eq_by_key D d date = Inr fd"
    "add_found (compounded (prev_discounted_distribution_value st) r) 0 fd = Inr (?DD, 0 + ?d)"
    by blast
  from add_found_lookup[OF wf c0 C d, of "compounded (prev_discounted_contribution_value st) r"
      "ks_cumulative_contributions st"]
  obtain fc where fc: "find_eq_by_key C d date = Inr fc"
    "add_found (compounded (prev_discounted_contribution_value st) r)
       (ks_cumulative_contributions st) fc = Inr (?DC, ks_cumulative_contributions st + ?c)"
    by blast
  have m: "(if ?DC \<noteq> 0 then pydiv ?DD (- 1 * ?DC) else Inr 0) = Inr (ks_multiple ?DD ?DC)"
    by (simp add: pydiv_def ks_multiple_def)
  obtain u where u: "set_ratios calculate_tvpi (ks_cumulative_contributions st + ?c) ?DD (?DC + ?DD)
      (r\<lparr>kaplanSchoarMultiple := Some (ks_multiple ?DD ?DC)\<rparr>) = Inr u"
    by (simp add: set_ratios_closed)
  have body: "ks_body L D C calculate_tvpi st r =
     Inr (\<lparr>ks_cumulative_contributions = ks_cumulative_contributions st + ?c,
           prev_discounted_distribution_value = Some ?DD,
           prev_discounted_contribution_value = Some ?DC\<rparr>, u)"
    unfolding ks_body_def
    by (simp only: d option.case fd fc sum.case prod.case m u)
  from set_ratios_keeps(1,2)[OF u] body show ?thesis by simp
qed

lemma ks_loop_totals:
  assumes wf: "well_formed L transactions"
    and D: "aggregated_by_date L transactions (Distribution L) = Inr D"
    and C: "aggregated_by_date L transactions (Contribution L) = Inr C"
    and p: "\<forall>r\<in>set rs. strptime L (br_date r) \<noteq> None"
  shows "\<exists>st' out. run_loop (ks_body L D C calculate_tvpi) st rs = Inr (st', out) \<and>
     map br_date out = map br_date rs \<and>
     map kaplanSchoarMultiple out =
       map2 (\<lambda>dd dc. Some (ks_multiple dd dc))
         (discounted_totals (net_on L transactions (Distribution L))
            (case prev_discounted_distribution_value st of None \<Rightarrow> 0 | Some p \<Rightarrow> p) rs)
         (discounted_totals (net_on L transactions (Contribution L))
            (case prev_discounted_contribution_value st of None \<Rightarrow> 0 | Some p \<Rightarrow> p) rs)"
  using p
proof (induction rs arbitrary: st)
  case Nil
  show ?case by simp
next
  case (Cons r rs)
  let ?DD = "compounded (prev_discounted_distribution_value st) r
             + net_on L transactions (Distribution L) (br_date r)"
  let ?DC = "compounded (prev_discounted_contribution_value st) r
             + net_on L transactions (Contribution L) (br_date r)"
  from Cons.prems obtain d where d: "strptime L (br_date r) = Some d" by auto
  from ks_body_ok[OF wf D C d, of calculate_tvpi st]
  obtain u st1 where b: "ks_body L D C calculate_tvpi st r = Inr (st1, u)"
    and st1: "prev_discounted_distribution_value st1 = Some ?DD"
      "prev_discounted_contribution_value st1 = Some ?DC"
    and u: "br_date u = br_date r" "kaplanSchoarMultiple u = Some (ks_multiple ?DD ?DC)"
    by force
  from Cons.prems have "\<forall>r\<in>set rs. strptime L (br_date r) \<noteq> None" by simp
  from Cons.IH[OF this, of st1]
  obtain st' out where l: "run_loop (ks_body L D C calculate_tvpi) st1 rs = Inr (st', out)"
    and dates: "map br_date out = map br_date rs"
    and ms: "map kaplanSchoarMultiple out =
       map2 (\<lambda>dd dc. Some (ks_multiple dd dc))
         (discounted_totals (net_on L transactions (Distribution L)) ?DD rs)
         (discounted_totals (net_on L transactions (Contribution L)) ?DC rs)"
    unfolding st1 by auto
  have cd: "compounded p r = (case p of None \<Rightarrow> 0 | Some q \<Rightarrow> q) * (1 + timeWeightedReturn r)" for p
    by (simp add: compounded_def split: option.splits)
  have "run_loop (ks_body L D C calculate_tvpi) st (r # rs) = Inr (st', u # out)"
    by (simp add: b l)
  moreover have "map br_date (u # out) = map br_date (r # rs)" using dates u by simp
  moreover have "map kaplanSchoarMultiple (u # out) =
       map2 (\<lambda>dd dc. Some (ks_multiple dd dc))
         (discounted_totals (net_on L transactions (Distribution L))
            (case prev_discounted_distribution_value st of None \<Rightarrow> 0 | Some p \<Rightarrow> p) (r # rs))
         (discounted_totals (net_on L transactions (Contribution L))
            (case prev_discounted_contribution_value st of None \<Rightarrow> 0 | Some p \<Rightarrow> p) (r # rs))"
    using ms u by (simp add: Let_def cd)
  ultimately show ?case by blast
qed

text \<open>
  Claim C6. For transactions as the function expects them and benchmark returns whose
  dates parse, \<open>calculate_kaplan_schoar_PME\<close> returns the entries in order, each with
  \<open>kaplanSchoarMultiple\<close> set to the discounted distributions over minus the
  discounted contributions of its date, and to 0 when those contributions are 0; the
  two discounted totals start from 0 and follow
  \<open>total = previous * (1 + timeWeightedReturn) + net cash flow of the date\<close>.
\<close>

theorem kaplan_schoar_multiples:
  assumes "well_formed L transactions"
    and "\<forall>r\<in>set benchmark_returns. strptime L (br_date r) \<noteq> None"
  shows "\<exists>out.
     calculate_kaplan_schoar_PME L benchmark_returns transactions calculate_tvpi = Inr out \<and>
     map br_date out = map br_date benchmark_returns \<and>
     map kaplanSchoarMultiple out =
       map2 (\<lambda>dd dc. Some (ks_multiple dd dc))
         (discounted_totals (net_on L transactions (Distribution L)) 0 benchmark_returns)
         (discounted_totals (net_on L transactions (Contribution L)) 0 benchmark_returns)"
proof -
  have c0: "Contribution L \<noteq> 0" and d0: "Distribution L \<noteq> 0"
    using assms(1) by (simp_all add: well_formed_def)
  obtain C where C: "aggregated_by_date L transactions (Contribution L) = Inr C"
    using aggregated_by_date_returns[OF assms(1) c0] by blast
  obtain D where D: "aggregated_by_date L transactions (Distribution L) = Inr D"
    using aggregated_by_date_returns[OF assms(1) d0] by blast
  let ?st0 = "\<lparr>ks_cumulative_contributions = 0, prev_discounted_distribution_value = None,
                  prev_discounted_contribution_value = None\<rparr>"
  from ks_loop_totals[OF assms(1) D C assms(2), of calculate_tvpi ?st0]
  obtain st out where l: "run_loop (ks_body L D C calculate_tvpi) ?st0 benchmark_returns = Inr (st, out)"
    and r: "map br_date out = map br_date benchmark_returns"
      "map kaplanSchoarMultiple out =
       map2 (\<lambda>dd dc. Some (ks_multiple dd dc))
         (discounted_totals (net_on L transactions (Distribution L)) 0 benchmark_returns)
         (discounted_totals (net_on L transactions (Contribution L)) 0 benchmark_returns)"
    by auto
  have "calculate_kaplan_schoar_PME L benchmark_returns transactions calculate_tvpi = Inr out"
    by (simp add: calculate_kaplan_schoar_PME_def kaplan_schoar_loop_def C D l)
  then show ?thesis using r by blast
qed

theorem kaplan_schoar_multiples_witness:
  "(\<exists>out.
     calculate_kaplan_schoar_PME example_lib example_benchmark_returns
       example_investment_transactions False = Inr out \<and>
     map kaplanSchoarMultiple out = [Some 0, Some 0, Some (600 / 1210)]) \<and>
   (\<exists>out.
     calculate_kaplan_schoar_PME example_lib example_benchmark_returns [] False = Inr out \<and>
     map kaplanSchoarMultiple out = [Some 0, Some 0, Some 0])"
proof -
  have n: "map2 (\<lambda>dd dc. Some (ks_multiple dd dc))
      (discounted_totals
         (net_on example_lib example_investment_transactions (Distribution example_lib)) 0
         example_benchmark_returns)
      (discounted_totals
         (net_on example_lib example_investment_transactions (Contribution example_lib)) 0
         example_benchmark_returns) = [Some 0, Some 0, Some (600 / 1210)]"
    by code_simp
  from kaplan_schoar_multiples[OF example_well_formed example_benchmark_dates, of False]
  obtain out where
    "calculate_kaplan_schoar_PME example_lib example_benchmark_returns
       example_investment_transactions False = Inr out"
    "map kaplanSchoarMultiple out = [Some 0, Some 0, Some (600 / 1210)]"
    unfolding n by auto
  then have 1: "\<exists>out.
     calculate_kaplan_schoar_PME example_lib example_benchmark_returns
       example_investment_transactions False = Inr out \<and>
     map kaplanSchoarMultiple out = [Some 0, Some 0, Some (600 / 1210)]"
    by (intro exI conjI)
  have w: "well_formed example_lib []"
    unfolding well_formed_def set_iter_ok_def example_lib_simps by simp
  have z: "map2 (\<lambda>dd dc. Some (ks_multiple dd dc))
      (discounted_totals (net_on example_lib [] (Distribution example_lib)) 0
         example_benchmark_returns)
      (discounted_totals (net_on example_lib [] (Contribution example_lib)) 0
         example_benchmark_returns) = [Some 0, Some 0, Some 0]"
    by code_simp
  from kaplan_schoar_multiples[OF w example_benchmark_dates, of False]
  obtain out where
    "calculate_kaplan_schoar_PME example_lib example_benchmark_returns [] False = Inr out"
    "map kaplanSchoarMultiple out = [Some 0, Some 0, Some 0]"
    unfolding z by auto
  then have 2: "\<exists>out.
     calculate_kaplan_schoar_PME example_lib example_benchmark_returns [] False = Inr out \<and>
     map kaplanSchoarMultiple out = [Some 0, Some 0, Some 0]"
    by (intro exI conjI)
  from 1 2 show ?thesis by (rule conjI)
qed

section \<open>Where the code raises\<close>

text \<open>
  Claim C8 at a failing input. The division of the mPME distribution weight has no
  zero test: with a distribution of 600 recorded as a positive amount and an investment
  return of balance 600 on the same date, and likewise with a distribution of 0 and a
  balance of 0, the denominator is 0 and \<open>calculate_mPME\<close> raises
  \<^verbatim>\<open>ZeroDivisionError\<close>.
\<close>

theorem mpme_weight_division_by_zero:
  "calculate_mPME example_lib example_benchmark_returns
     [\<lparr>rdate = ''2021-01-01'', balance = 600\<rparr>]
     [\<lparr>date = ''2020-01-01'', val = Some 1000, transactionTypeId = Some 1\<rparr>,
      \<lparr>date = ''2021-01-01'', val = Some 600, transactionTypeId = Some 2\<rparr>]
     False False = Inl ZeroDivisionError \<and>
   calculate_mPME example_lib example_benchmark_returns
     [\<lparr>rdate = ''2021-01-01'', balance = 0\<rparr>]
     [\<lparr>date = ''2020-01-01'', val = Some 1000, transactionTypeId = Some 1\<rparr>,
      \<lparr>date = ''2021-01-01'', val = Some 0, transactionTypeId = Some 2\<rparr>]
     False False = Inl ZeroDivisionError"
  by code_simp

text \<open>
  The guarded divisions never raise: the ratio block and the Kaplan-Schoar multiple
  divide only by what they have tested to be other than 0.
\<close>

lemma guarded_divisions_never_raise:
  "set_ratios calculate_tvpi c x y r \<noteq> Inl e"
  "(if dc \<noteq> 0 then pydiv dd (- 1 * dc) else Inr 0) \<noteq> Inl e"
  by (simp_all add: set_ratios_closed pydiv_def)

lemma call_with_three_arguments: "call_read_xirrs_timeseries L [a, b, c] = Inl TypeError"
  by (cases a; cases b) simp_all

lemma xirr_request_never_returns:
  "calculate_long_nickels_PME L benchmark_returns transactions True calculate_tvpi \<noteq> Inr out"
  "calculate_mPME L benchmark_returns investment_returns transactions True calculate_tvpi \<noteq> Inr out"
  by (auto simp: calculate_long_nickels_PME_def calculate_mPME_def call_with_three_arguments
      Let_def split: sum.splits prod.splits)

text \<open>
  Claim C1 at a failing input. With the XIRR requested, both functions call
  \<open>read_xirrs_timeseries\<close> with three positional arguments, which takes two: the call
  raises \<^verbatim>\<open>TypeError\<close> and no XIRR is written.
\<close>

theorem xirr_request_raises_type_error:
  "calculate_long_nickels_PME example_lib example_benchmark_returns
     example_investment_transactions True False = Inl TypeError \<and>
   calculate_mPME example_lib example_benchmark_returns example_investment_returns
     example_investment_transactions True False = Inl TypeError \<and>
   calculate_long_nickels_PME example_lib example_benchmark_returns
     example_investment_transactions False False \<noteq> Inl TypeError"
  by code_simp

section \<open>The benchmark-return builder\<close>

lemma index_value_on_ok:
  assumes ne: "benchmark_values \<noteq> []" and d: "strptime L s = Some d"
  shows "\<exists>v. index_value_on L (sort_key bv_date benchmark_values) s =
           Inr \<lparr>bv_date = d, bv_value = v\<rparr> \<and>
         is_index_value benchmark_values d v"
proof -
  let ?a = "sort_key bv_date benchmark_values"
  have srt: "sorted (map bv_date ?a)" by (rule sorted_sort_key)
  have st: "set ?a = set benchmark_values" by simp
  obtain le where le: "find_le_by_key ?a d bv_date = Inr le"
    by (simp add: find_le_by_key_total)
  show ?thesis
  proof (cases le)
    case (Some b)
    have eq: "find_le_by_key ?a d bv_date = Inr (Some b)" using le Some by simp
    have b: "b \<in> set benchmark_values" "bv_date b \<le> d"
      "\<forall>w\<in>set benchmark_values. bv_date w \<le> d \<longrightarrow> bv_date w \<le> bv_date b"
      using find_le_by_key_sorted(1)[OF srt eq] by auto
    have "is_index_value benchmark_values d (bv_value b)"
      unfolding is_index_value_def using b by auto
    moreover have "index_value_on L ?a s = Inr \<lparr>bv_date = d, bv_value = bv_value b\<rparr>"
      by (simp add: index_value_on_def d le Some)
    ultimately show ?thesis by blast
  next
    case None
    then have "find_le_by_key ?a d bv_date = Inr None" using le by simp
    then have none: "\<forall>w\<in>set benchmark_values. \<not> bv_date w \<le> d"
      using find_le_by_key_sorted(2)[OF srt, of d] by auto
    obtain gt where gt: "find_gt_by_key ?a d bv_date = Inr gt"
      by (simp add: find_gt_by_key_total)
    have "gt \<noteq> None"
    proof
      assume "gt = None"
      then have "find_gt_by_key ?a d bv_date = Inr None" using gt by simp
      then have "\<forall>w\<in>set benchmark_values. \<not> d < bv_date w"
        using find_gt_by_key_sorted(2)[OF srt, of d] by auto
      moreover obtain w where "w \<in> set benchmark_values" using ne by (cases benchmark_values) auto
      ultimately show False using none by force
    qed
    then obtain b where g: "gt = Some b" by auto
    have eq: "find_gt_by_key ?a d bv_date = Inr (Some b)" using gt g by simp
    have b: "b \<in> set benchmark_values" "d < bv_date b"
      "\<forall>w\<in>set benchmark_values. d < bv_date w \<longrightarrow> bv_date b \<le> bv_date w"
      using find_gt_by_key_sorted(1)[OF srt eq] by auto
    have "\<forall>w\<in>set benchmark_values. bv_date b \<le> bv_date w"
      using b(3) none by force
    then have "is_index_value benchmark_values d (bv_value b)"
      unfolding is_index_value_def using b(1) none by auto
    moreover have "index_value_on L ?a s = Inr \<lparr>bv_date = d, bv_value = bv_value b\<rparr>"
      by (simp add: index_value_on_def d le None gt g)
    ultimately show ?thesis by blast
  qed
qed

lemma collect_all:
  "\<forall>x\<in>set xs. \<exists>y. f x = Inr y \<and> P x y \<Longrightarrow> \<exists>ys. collect f xs = Inr ys \<and> list_all2 P xs ys"
proof (induction xs)
  case Nil
  show ?case by simp
next
  case (Cons x xs)
  then obtain y where y: "f x = Inr y" "P x y" by auto
  from Cons obtain ys where ys: "collect f xs = Inr ys" "list_all2 P xs ys" by auto
  have "collect f (x # xs) = Inr (y # ys) \<and> list_all2 P (x # xs) (y # ys)"
    using y ys by simp
  then show ?case by blast
qed

lemma returns_loop_ok:
  assumes "\<forall>x\<in>set xs. bv_value x \<noteq> 0"
    and "case prev of None \<Rightarrow> True | Some p \<Rightarrow> p \<noteq> 0"
  shows "\<exists>out. returns_loop L prev c xs = Inr out \<and>
     map br_balance out = map bv_value xs \<and>
     map br_date out = map (\<lambda>x. strftime L (bv_date x)) xs \<and>
     map timeWeightedReturn out = time_weighted_returns prev (map bv_value xs) \<and>
     map cumulativeTimeWeightedReturn out = cumulative_returns c (map timeWeightedReturn out)"
  using assms
proof (induction xs arbitrary: prev c)
  case Nil
  show ?case by simp
next
  case (Cons x xs)
  let ?t = "(case prev of None \<Rightarrow> 0 | Some p \<Rightarrow> (bv_value x - p) / p)"
  have t: "(case prev of None \<Rightarrow> Inr 0
            | Some p \<Rightarrow> if p \<noteq> 0 then pydiv (bv_value x - p) p else Inr 0) = Inr ?t"
    using Cons.prems(2) by (simp add: pydiv_def split: option.splits)
  have 1: "\<forall>x\<in>set xs. bv_value x \<noteq> 0" using Cons.prems(1) by simp
  have 2: "case Some (bv_value x) of None \<Rightarrow> True | Some p \<Rightarrow> p \<noteq> 0"
    using Cons.prems(1) by simp
  from Cons.IH[OF 1 2, of "c * (?t + 1)"]
  obtain rest where rest: "returns_loop L (Some (bv_value x)) (c * (?t + 1)) xs = Inr rest"
    "map br_balance rest = map bv_value xs"
    "map br_date rest = map (\<lambda>x. strftime L (bv_date x)) xs"
    "map timeWeightedReturn rest = time_weighted_returns (Some (bv_value x)) (map bv_value xs)"
    "map cumulativeTimeWeightedReturn rest =
       cumulative_returns (c * (?t + 1)) (map timeWeightedReturn rest)"
    by blast
  let ?e = "\<lparr>br_date = strftime L (bv_date x), br_balance = bv_value x,
             timeWeightedReturn = ?t, cumulativeTimeWeightedReturn = c * (?t + 1),
             kaplanSchoarMultiple = None, br_xirr = None, dpi = None, rvpi = None,
             tvpi = None\<rparr>"
  have "returns_loop L prev c (x # xs) = Inr (?e # rest)"
    by (simp only: returns_loop.simps t sum.case rest(1))
  moreover have "map br_balance (?e # rest) = map bv_value (x # xs)" using rest(2) by simp
  moreover have "map br_date (?e # rest) = map (\<lambda>x. strftime L (bv_date x)) (x # xs)"
    using rest(3) by simp
  moreover have "map timeWeightedReturn (?e # rest) =
      time_weighted_returns prev (map bv_value (x # xs))"
    using rest(4) by simp
  moreover have "map cumulativeTimeWeightedReturn (?e # rest) =
      cumulative_returns c (map timeWeightedReturn (?e # rest))"
    using rest(5) by (simp add: add.commute)
  ultimately show ?case by blast
qed

lemma list_all2_keys:
  assumes "list_all2 (\<lambda>s y. f y = g s \<and> Q y) xs ys"
  shows "map f ys = map g xs" "\<forall>y\<in>set ys. Q y"
  using assms by (induction xs ys rule: list_all2_induct) auto

text \<open>
  Claim C7. For a benchmark-value list that is not empty and has positive values, and
  investment returns and transactions whose dates parse, the builder returns one entry
  per requested day, in ascending order of the days; the balance of an entry is the
  index value of its day (the most recent benchmark value on or before the day, or the
  earliest one when none is); the time-weighted return is 0 for the first entry and
  \<open>(value - previous value) / previous value\<close> after it; and the cumulative return is
  the previous cumulative return, 1 at the start, times one plus the time-weighted
  return.
\<close>

theorem benchmark_returns_built:
  assumes "set_iter_ok L"
    and "benchmark_values \<noteq> []"
    and "\<forall>b\<in>set benchmark_values. 0 < bv_value b"
    and "\<forall>r\<in>set investment_returns. strptime L (rdate r) \<noteq> None"
    and "\<forall>t\<in>set investment_transactions. strptime L (date t) \<noteq> None"
  shows "\<exists>out days.
     get_benchmark_returns L benchmark_values investment_returns investment_transactions
       = Inr out \<and>
     length days = length out \<and> sorted days \<and>
     set days = (\<lambda>s. the (strptime L s)) `
                  (rdate ` set investment_returns \<union> date ` set investment_transactions) \<and>
     map br_date out = map (strftime L) days \<and>
     list_all2 (is_index_value benchmark_values) days (map br_balance out) \<and>
     map timeWeightedReturn out = time_weighted_returns None (map br_balance out) \<and>
     map cumulativeTimeWeightedReturn out = cumulative_returns 1 (map timeWeightedReturn out)"
proof -
  let ?ds = "set_iter L (map rdate investment_returns @ map date investment_transactions)"
  let ?a = "sort_key bv_date benchmark_values"
  let ?P = "\<lambda>s y. bv_date y = the (strptime L s) \<and>
                 is_index_value benchmark_values (bv_date y) (bv_value y)"
  have u: "get_unique_values L [map Inl investment_returns, map Inr investment_transactions]
      (case_sum rdate date) = ?ds"
    by (simp add: get_unique_values_def o_def)
  have ds: "set ?ds = rdate ` set investment_returns \<union> date ` set investment_transactions"
    using assms(1) by (simp add: set_iter_ok_def)
  have "\<forall>s\<in>set ?ds. \<exists>y. index_value_on L ?a s = Inr y \<and> ?P s y"
  proof
    fix s assume "s \<in> set ?ds"
    then have "strptime L s \<noteq> None" using ds assms(4,5) by auto
    then obtain d where d: "strptime L s = Some d" by auto
    from index_value_on_ok[OF assms(2) d]
    obtain v where "index_value_on L ?a s = Inr \<lparr>bv_date = d, bv_value = v\<rparr>"
      "is_index_value benchmark_values d v" by blast
    then have "index_value_on L ?a s = Inr \<lparr>bv_date = d, bv_value = v\<rparr> \<and>
        ?P s \<lparr>bv_date = d, bv_value = v\<rparr>"
      using d by simp
    then show "\<exists>y. index_value_on L ?a s = Inr y \<and> ?P s y" by blast
  qed
  then have "\<exists>ys. collect (index_value_on L ?a) ?ds = Inr ys \<and> list_all2 ?P ?ds ys"
    by (rule collect_all)
  then obtain ivs where ivs: "collect (index_value_on L ?a) ?ds = Inr ivs"
    "list_all2 ?P ?ds ivs" by blast
  let ?xs = "sort_key bv_date ivs"
  have dates: "map bv_date ivs = map (\<lambda>s. the (strptime L s)) ?ds"
    using ivs(2) by (rule list_all2_keys(1))
  have each: "\<forall>x\<in>set ivs. is_index_value benchmark_values (bv_date x) (bv_value x)"
    using ivs(2) by (rule list_all2_keys(2))
  have pos: "\<forall>x\<in>set ?xs. bv_value x \<noteq> 0"
  proof
    fix x assume "x \<in> set ?xs"
    then have "is_index_value benchmark_values (bv_date x) (bv_value x)" using each by simp
    then obtain b where "b \<in> set benchmark_values" "bv_value x = bv_value b"
      by (auto simp: is_index_value_def)
    then show "bv_value x \<noteq> 0" using assms(3) by force
  qed
  have none: "case None :: real option of None \<Rightarrow> True | Some p \<Rightarrow> p \<noteq> 0" by simp
  from returns_loop_ok[OF pos none, of L 1]
  obtain out where out: "returns_loop L None 1 ?xs = Inr out"
    "map br_balance out = map bv_value ?xs"
    "map br_date out = map (\<lambda>x. strftime L (bv_date x)) ?xs"
    "map timeWeightedReturn out = time_weighted_returns None (map bv_value ?xs)"
    "map cumulativeTimeWeightedReturn out = cumulative_returns 1 (map timeWeightedReturn out)"
    by blast
  let ?days = "map bv_date ?xs"
  have 1: "get_benchmark_returns L benchmark_values investment_returns investment_transactions
      = Inr out"
    unfolding get_benchmark_returns_def Let_def u using assms(2) by (simp add: ivs(1) out(1))
  have "length (map br_balance out) = length ?xs" by (simp only: out(2) length_map)
  then have 2: "length ?days = length out" by simp
  have 3: "sorted ?days" by (rule sorted_sort_key)
  have "set ?days = set (map bv_date ivs)" by simp
  then have 4: "set ?days = (\<lambda>s. the (strptime L s)) `
      (rdate ` set investment_returns \<union> date ` set investment_transactions)"
    unfolding dates using ds by simp
  have 5: "map br_date out = map (strftime L) ?days" using out(3) by (simp add: o_def)
  have 6: "list_all2 (is_index_value benchmark_values) ?days (map br_balance out)"
    unfolding out(2) using each by (simp add: list_all2_map1 list_all2_map2 list_all2_same)
  have 7: "map timeWeightedReturn out = time_weighted_returns None (map br_balance out)"
    using out(4) by (simp only: out(2))
  from 1 2 3 4 5 6 7 out(5) show ?thesis by blast
qed

theorem benchmark_returns_built_witness:
  "get_benchmark_returns example_lib example_benchmark_values example_investment_returns
     example_investment_transactions = Inr example_benchmark_returns \<and>
   map br_date example_benchmark_returns = [''2020-01-01'', ''2020-07-01'', ''2021-01-01''] \<and>
   map br_balance example_benchmark_returns = [100, 110, 121] \<and>
   is_index_value example_benchmark_values 737425 100 \<and>
   map timeWeightedReturn example_benchmark_returns
     = time_weighted_returns None [100, 110, 121] \<and>
   map cumulativeTimeWeightedReturn example_benchmark_returns
     = cumulative_returns 1 [0, 1 / 10, 1 / 10]"
proof -
  have h1: "set_iter_ok example_lib"
    by (simp add: set_iter_ok_def example_lib_simps)
  have h2: "example_benchmark_values \<noteq> []" by (simp add: example_benchmark_values_def)
  have h3: "\<forall>b\<in>set example_benchmark_values. 0 < bv_value b"
    by (simp add: example_benchmark_values_def)
  have h4: "\<forall>r\<in>set example_investment_returns. strptime example_lib (rdate r) \<noteq> None"
    unfolding example_lib_simps by (simp add: example_investment_returns_def example_dates)
  have h5: "\<forall>t\<in>set example_investment_transactions. strptime example_lib (date t) \<noteq> None"
    unfolding example_lib_simps by (simp add: example_investment_transactions_def example_dates)
  have e: "get_benchmark_returns example_lib example_benchmark_values example_investment_returns
     example_investment_transactions = Inr example_benchmark_returns"
    by code_simp
  have b: "map br_balance example_benchmark_returns = [100, 110, 121]"
    and t: "map timeWeightedReturn example_benchmark_returns = [0, 1 / 10, 1 / 10]"
    and s: "map br_date example_benchmark_returns = [''2020-01-01'', ''2020-07-01'', ''2021-01-01'']"
    by (simp_all add: example_benchmark_returns_def)
  from benchmark_returns_built[OF h1 h2 h3 h4 h5] e
  obtain days where days: "length days = length example_benchmark_returns"
    "map br_date example_benchmark_returns = map (strftime example_lib) days"
    "sorted days"
    "set days = (\<lambda>s. the (strptime example_lib s)) `
       (rdate ` set example_investment_returns \<union> date ` set example_investment_transactions)"
    "list_all2 (is_index_value example_benchmark_values) days
       (map br_balance example_benchmark_returns)"
    "map timeWeightedReturn example_benchmark_returns
       = time_weighted_returns None (map br_balance example_benchmark_returns)"
    "map cumulativeTimeWeightedReturn example_benchmark_returns
       = cumulative_returns 1 (map timeWeightedReturn example_benchmark_returns)"
    by auto
  have i: "is_index_value example_benchmark_values 737425 100"
    by code_simp
  from e s b i days(6,7) show ?thesis unfolding b t by simp
qed

section \<open>Modified PME\<close>

lemma find_le_by_key_closed:
  assumes "sorted (map key a)"
  shows "find_le_by_key a x key =
    Inr (case filter (\<lambda>v. key v \<le> x) a of [] \<Rightarrow> None | ys \<Rightarrow> Some (last ys))"
proof -
  let ?r = "bisect_right (map key a) x"
  note p = bisect_right_props[OF assms, of x]
  have b: "?r \<le> length a" using bisect_right_le[of "map key a" x] by simp
  have below: "\<forall>i<?r. key (a ! i) \<le> x" using p(1) b by auto
  have above: "\<forall>i. ?r \<le> i \<and> i < length a \<longrightarrow> \<not> key (a ! i) \<le> x"
    using p(2) by (auto simp: not_le)
  have f: "filter (\<lambda>v. key v \<le> x) a = take ?r a"
    using split_point_filter(2)[OF b below above] .
  show ?thesis
  proof (cases "?r = 0")
    case True
    then show ?thesis by (simp add: find_le_by_key_total f)
  next
    case False
    then have ne: "take ?r a \<noteq> []" using b by auto
    have "last (take ?r a) = take ?r a ! (length (take ?r a) - 1)"
      using ne by (rule last_conv_nth)
    also have "\<dots> = a ! (?r - 1)" using False b by simp
    finally have la: "last (take ?r a) = a ! (?r - 1)" .
    obtain y ys where t: "take ?r a = y # ys" using ne by (cases "take ?r a") auto
    have "(case take ?r a of [] \<Rightarrow> None | ys \<Rightarrow> Some (last ys)) = Some (last (take ?r a))"
      by (simp add: t)
    then show ?thesis using False
      by (simp only: find_le_by_key_total f la) simp
  qed
qed

lemma sort_key_map: "sort_key k (map g xs) = map g (sort_key (\<lambda>x. k (g x)) xs)"
proof (induction xs)
  case Nil
  show ?case by simp
next
  case (Cons x xs)
  have ins: "insort_key k (g x) (map g ys) = map g (insort_key (\<lambda>x. k (g x)) x ys)" for ys
    by (induction ys) auto
  show ?case using Cons by (simp add: ins)
qed

lemma most_recent_lookup:
  assumes p: "\<forall>r\<in>set investment_returns. strptime L (rdate r) \<noteq> None"
    and d: "strptime L s = Some d"
  shows "\<exists>dr mr. collect (return_to_datetime L) investment_returns = Inr dr \<and>
     find_le_by_key (sort_key rdate dr) d rdate = Inr mr \<and>
     map_option balance mr = most_recent_balance L investment_returns s"
proof -
  let ?conv = "\<lambda>r. \<lparr>rdate = the (strptime L (rdate r)), balance = balance r\<rparr>"
  let ?k = "\<lambda>r. the (strptime L (rdate r))"
  have "\<forall>r\<in>set investment_returns. return_to_datetime L r = Inr (?conv r)"
    using p by (auto simp: return_to_datetime_def)
  then have c: "collect (return_to_datetime L) investment_returns = Inr (map ?conv investment_returns)"
    by (rule collect_map)
  have s: "sort_key rdate (map ?conv investment_returns) = map ?conv (sort_key ?k investment_returns)"
    by (simp add: sort_key_map)
  have srt: "sorted (map rdate (map ?conv (sort_key ?k investment_returns)))"
    using sorted_sort_key[of ?k investment_returns] by (simp add: o_def)
  let ?f = "filter (\<lambda>r. ?k r \<le> d) (sort_key ?k investment_returns)"
  have fm: "filter (\<lambda>v. rdate v \<le> d) (map ?conv (sort_key ?k investment_returns)) = map ?conv ?f"
    by (simp add: filter_map o_def)
  have l: "find_le_by_key (sort_key rdate (map ?conv investment_returns)) d rdate =
      Inr (case map ?conv ?f of [] \<Rightarrow> None | ys \<Rightarrow> Some (last ys))"
    unfolding s using find_le_by_key_closed[OF srt, of d] by (simp only: fm)
  have m: "map_option balance (case map ?conv ?f of [] \<Rightarrow> None | ys \<Rightarrow> Some (last ys))
      = most_recent_balance L investment_returns s"
    by (cases ?f) (simp_all add: most_recent_balance_def d last_map)
  from c l m show ?thesis by blast
qed

lemma distribution_weight_ok:
  assumes fd: "fd = (if any_on L transactions (Distribution L) s
         then Some \<lparr>date = d, val = Some (net_on L transactions (Distribution L) s),
                    transactionTypeId = None\<rparr>
         else None)"
    and mr: "map_option balance mr = most_recent_balance L investment_returns s"
    and ok: "any_on L transactions (Distribution L) s \<longrightarrow>
            (case most_recent_balance L investment_returns s of
               None \<Rightarrow> True
             | Some b \<Rightarrow> - net_on L transactions (Distribution L) s + b \<noteq> 0)"
  shows "distribution_weight fd mr = Inr (mpme_weight L transactions investment_returns s)"
proof (cases "any_on L transactions (Distribution L) s")
  case False
  then show ?thesis by (simp add: fd distribution_weight_def mpme_weight_def)
next
  case True
  show ?thesis
  proof (cases mr)
    case None
    then have "most_recent_balance L investment_returns s = None" using mr by simp
    then show ?thesis using True None by (simp add: fd distribution_weight_def mpme_weight_def)
  next
    case (Some m)
    then have b: "most_recent_balance L investment_returns s = Some (balance m)" using mr by auto
    then have "- net_on L transactions (Distribution L) s + balance m \<noteq> 0"
      using ok True by simp
    then show ?thesis using True Some b
      by (simp add: fd distribution_weight_def mpme_weight_def pydiv_def)
  qed
qed

lemma mpme_body_ok:
  assumes wf: "well_formed L transactions"
    and C: "aggregated_by_date L transactions (Contribution L) = Inr C"
    and D: "aggregated_by_date L transactions (Distribution L) = Inr D"
    and R: "collect (return_to_datetime L) investment_returns = Inr dr"
    and p: "\<forall>r\<in>set investment_returns. strptime L (rdate r) \<noteq> None"
    and d: "strptime L (br_date r) = Some d"
    and ok: "any_on L transactions (Distribution L) (br_date r) \<longrightarrow>
            (case most_recent_balance L investment_returns (br_date r) of
               None \<Rightarrow> True
             | Some b \<Rightarrow>
                 - net_on L transactions (Distribution L) (br_date r) + b
                 \<noteq> 0)"
    and nz: "(case prev_benchmark_balance st of None \<Rightarrow> br_balance r | Some b \<Rightarrow> b) \<noteq> 0"
  defines "w \<equiv> mpme_weight L transactions investment_returns (br_date r)"
    and "adj \<equiv> (case prev_theoretical_balance st of None \<Rightarrow> 0 | Some b \<Rightarrow> b)
           * (br_balance r / (case prev_benchmark_balance st of None \<Rightarrow> br_balance r | Some b \<Rightarrow> b))
           + net_on L transactions (Contribution L) (br_date r)"
  shows "\<exists>u. mpme_body L C D (sort_key rdate dr) calculate_tvpi st r =
     Inr (\<lparr>prev_theoretical_balance = Some ((1 - w) * adj),
           prev_benchmark_balance = Some (br_balance r),
           mp_cumulative_contributions =
             mp_cumulative_contributions st + net_on L transactions (Contribution L) (br_date r),
           cumulative_weighted_distributions =
             cumulative_weighted_distributions st + - (w * adj),
           theoretical_balances =
             theoretical_balances st @ [\<lparr>rdate = br_date r, balance = (1 - w) * adj\<rparr>],
           weighted_distributions =
             weighted_distributions st @
             [\<lparr>date = br_date r, val = Some (- (w * adj)), transactionTypeId = None\<rparr>]\<rparr>, u)"
proof -
  have c0: "Contribution L \<noteq> 0" and d0: "Distribution L \<noteq> 0"
    using wf by (simp_all add: well_formed_def)
  from add_found_lookup[OF wf c0 C d, of 0 0]
  obtain fc where fc: "find_eq_by_key C d date = Inr fc"
    "value_or_zero fc = Inr (net_on L transactions (Contribution L) (br_date r))" by blast
  let ?fd = "(if any_on L transactions (Distribution L) (br_date r)
         then Some \<lparr>date = d, val = Some (net_on L transactions (Distribution L) (br_date r)),
                    transactionTypeId = None\<rparr>
         else None)"
  have fd: "find_eq_by_key D d date = Inr ?fd"
    using lookup_aggregated[OF wf d0 D d] .
  from most_recent_lookup[OF p d] R
  obtain mr where mr: "find_le_by_key (sort_key rdate dr) d rdate = Inr mr"
    "map_option balance mr = most_recent_balance L investment_returns (br_date r)" by auto
  have dw: "distribution_weight ?fd mr = Inr w"
    unfolding w_def using refl mr(2) ok by (rule distribution_weight_ok)
  let ?pb = "(case prev_benchmark_balance st of None \<Rightarrow> br_balance r | Some b \<Rightarrow> b)"
  have g: "pydiv (br_balance r) ?pb = Inr (br_balance r / ?pb)"
    using nz by (simp add: pydiv_def)
  have neg: "- 1 * w * adj = - (w * adj)" by simp
  show ?thesis
    unfolding mpme_body_def Let_def
    by (simp only: d option.case fc fd mr(1) dw g sum.case prod.case set_ratios_closed
        adj_def[symmetric] neg) blast
qed

lemma mpme_loop_points:
  assumes wf: "well_formed L transactions"
    and C: "aggregated_by_date L transactions (Contribution L) = Inr C"
    and D: "aggregated_by_date L transactions (Distribution L) = Inr D"
    and R: "collect (return_to_datetime L) investment_returns = Inr dr"
    and p: "\<forall>r\<in>set investment_returns. strptime L (rdate r) \<noteq> None"
    and q: "\<forall>r\<in>set rs. strptime L (br_date r) \<noteq> None \<and> br_balance r \<noteq> 0"
    and ok: "weights_defined L transactions investment_returns rs"
    and inv: "(case prev_benchmark_balance st of None \<Rightarrow> True | Some b \<Rightarrow> b \<noteq> 0)"
  shows "\<exists>st' out.
     run_loop (mpme_body L C D (sort_key rdate dr) calculate_tvpi) st rs = Inr (st', out) \<and>
     length out = length rs \<and>
     map rdate (theoretical_balances st') = map rdate (theoretical_balances st) @ map br_date rs \<and>
     map balance (theoretical_balances st') =
       map balance (theoretical_balances st) @
       map point_theoretical
         (mpme_points (mpme_weight L transactions investment_returns)
            (net_on L transactions (Contribution L))
            (case prev_theoretical_balance st of None \<Rightarrow> 0 | Some b \<Rightarrow> b)
            (prev_benchmark_balance st) rs) \<and>
     map date (weighted_distributions st') = map date (weighted_distributions st) @ map br_date rs \<and>
     map val (weighted_distributions st') =
       map val (weighted_distributions st) @
       map (\<lambda>p. Some (point_weighted_distribution p))
         (mpme_points (mpme_weight L transactions investment_returns)
            (net_on L transactions (Contribution L))
            (case prev_theoretical_balance st of None \<Rightarrow> 0 | Some b \<Rightarrow> b)
            (prev_benchmark_balance st) rs)"
  using q ok inv
proof (induction rs arbitrary: st)
  case Nil
  show ?case by simp
next
  case (Cons r rs)
  let ?w = "mpme_weight L transactions investment_returns (br_date r)"
  let ?adj = "(case prev_theoretical_balance st of None \<Rightarrow> 0 | Some b \<Rightarrow> b)
           * (br_balance r / (case prev_benchmark_balance st of None \<Rightarrow> br_balance r | Some b \<Rightarrow> b))
           + net_on L transactions (Contribution L) (br_date r)"
  from Cons.prems(1) obtain d where d: "strptime L (br_date r) = Some d" and b: "br_balance r \<noteq> 0"
    by auto
  have ok1: "any_on L transactions (Distribution L) (br_date r) \<longrightarrow>
            (case most_recent_balance L investment_returns (br_date r) of
               None \<Rightarrow> True
             | Some b \<Rightarrow>
                 - net_on L transactions (Distribution L) (br_date r) + b
                 \<noteq> 0)"
    using Cons.prems(2) by (simp add: weights_defined_def)
  have nz: "(case prev_benchmark_balance st of None \<Rightarrow> br_balance r | Some b \<Rightarrow> b) \<noteq> 0"
    using Cons.prems(3) b by (simp split: option.splits)
  from mpme_body_ok[OF wf C D R p d ok1 nz, of calculate_tvpi]
  obtain u st1 where body: "mpme_body L C D (sort_key rdate dr) calculate_tvpi st r = Inr (st1, u)"
    and st1: "st1 = \<lparr>prev_theoretical_balance = Some ((1 - ?w) * ?adj),
           prev_benchmark_balance = Some (br_balance r),
           mp_cumulative_contributions =
             mp_cumulative_contributions st + net_on L transactions (Contribution L) (br_date r),
           cumulative_weighted_distributions =
             cumulative_weighted_distributions st + - (?w * ?adj),
           theoretical_balances =
             theoretical_balances st @ [\<lparr>rdate = br_date r, balance = (1 - ?w) * ?adj\<rparr>],
           weighted_distributions =
             weighted_distributions st @
             [\<lparr>date = br_date r, val = Some (- (?w * ?adj)), transactionTypeId = None\<rparr>]\<rparr>"
    by blast
  have q': "\<forall>r\<in>set rs. strptime L (br_date r) \<noteq> None \<and> br_balance r \<noteq> 0"
    using Cons.prems(1) by simp
  have ok': "weights_defined L transactions investment_returns rs"
    using Cons.prems(2) by (simp add: weights_defined_def)
  have inv': "(case prev_benchmark_balance st1 of None \<Rightarrow> True | Some b \<Rightarrow> b \<noteq> 0)"
    using b by (simp add: st1)
  let ?pts = "mpme_points (mpme_weight L transactions investment_returns)
            (net_on L transactions (Contribution L)) ((1 - ?w) * ?adj)
                (Some (br_balance r)) rs"
  from Cons.IH[OF q' ok' inv']
  obtain st' out where l: "run_loop (mpme_body L C D (sort_key rdate dr) calculate_tvpi) st1 rs
        = Inr (st', out)"
    and len: "length out = length rs"
    and r1: "map rdate (theoretical_balances st') =
        map rdate (theoretical_balances st1) @ map br_date rs"
    and r2: "map balance (theoretical_balances st') =
        map balance (theoretical_balances st1) @ map point_theoretical ?pts"
    and r3: "map date (weighted_distributions st') =
        map date (weighted_distributions st1) @ map br_date rs"
    and r4: "map val (weighted_distributions st') =
        map val (weighted_distributions st1) @ map (\<lambda>p. Some (point_weighted_distribution p)) ?pts"
    unfolding st1 by auto
  have pts: "mpme_points (mpme_weight L transactions investment_returns)
            (net_on L transactions (Contribution L))
            (case prev_theoretical_balance st of None \<Rightarrow> 0 | Some b \<Rightarrow> b)
            (prev_benchmark_balance st) (r # rs) =
        \<lparr>point_weight = ?w, point_adjusted = ?adj, point_theoretical = (1 - ?w) * ?adj,
          point_weighted_distribution = - (?w * ?adj)\<rparr> # ?pts"
    by (simp add: Let_def)
  have "run_loop (mpme_body L C D (sort_key rdate dr) calculate_tvpi) st (r # rs)
      = Inr (st', u # out)"
    by (simp add: body l)
  moreover have "length (u # out) = length (r # rs)" using len by simp
  moreover have "map rdate (theoretical_balances st') =
      map rdate (theoretical_balances st) @ map br_date (r # rs)"
    using r1 by (simp add: st1)
  moreover have "map balance (theoretical_balances st') =
       map balance (theoretical_balances st) @
       map point_theoretical
         (mpme_points (mpme_weight L transactions investment_returns)
            (net_on L transactions (Contribution L))
            (case prev_theoretical_balance st of None \<Rightarrow> 0 | Some b \<Rightarrow> b)
            (prev_benchmark_balance st) (r # rs))"
    unfolding pts using r2 by (simp add: st1)
  moreover have "map date (weighted_distributions st') =
      map date (weighted_distributions st) @ map br_date (r # rs)"
    using r3 by (simp add: st1)
  moreover have "map val (weighted_distributions st') =
       map val (weighted_distributions st) @
       map (\<lambda>p. Some (point_weighted_distribution p))
         (mpme_points (mpme_weight L transactions investment_returns)
            (net_on L transactions (Contribution L))
            (case prev_theoretical_balance st of None \<Rightarrow> 0 | Some b \<Rightarrow> b)
            (prev_benchmark_balance st) (r # rs))"
    unfolding pts using r4 by (simp add: st1)
  ultimately show ?case by blast
qed

lemma magnitude_weight_agrees:
  assumes "net_on L transactions (Distribution L) s \<le> 0"
  shows "magnitude_weight L transactions investment_returns s =
         mpme_weight L transactions investment_returns s"
  using assms
  by (simp add: magnitude_weight_def mpme_weight_def distribution_magnitude_def
      split: option.splits)

text \<open>
  Claim C5, as the code has it. For transactions and investment returns as the function
  expects them, benchmark returns whose dates parse and whose balances are positive,
  and weights whose quotient exists, the loop of \<open>calculate_mPME\<close> ends and records,
  for the benchmark returns in order and under their dates, the theoretical balances
  and the weighted distributions of the recurrence: \<open>weight\<close> is the negated net
  distribution \<open>- v\<close> over \<open>- v\<close> plus the most recent balance (0 with no distribution
  on the date), which is magnitude over magnitude plus balance when distributions are
  negative amounts; \<open>adjusted = previous theoretical * (benchmark balance / previous
  benchmark balance) + contribution\<close>; \<open>theoretical = (1 - weight) * adjusted\<close>;
  \<open>weighted distribution = - (weight * adjusted)\<close>. Without the XIRR request the
  function returns the loop's entries.
\<close>

theorem mpme_recurrence:
  assumes "well_formed L transactions"
    and "\<forall>r\<in>set benchmark_returns. strptime L (br_date r) \<noteq> None \<and> 0 < br_balance r"
    and "\<forall>r\<in>set investment_returns. strptime L (rdate r) \<noteq> None"
    and "weights_defined L transactions investment_returns benchmark_returns"
  shows "\<exists>C st out.
     mpme_loop L benchmark_returns investment_returns transactions calculate_tvpi
       = Inr (C, st, out) \<and>
     calculate_mPME L benchmark_returns investment_returns transactions False calculate_tvpi
       = Inr out \<and>
     length out = length benchmark_returns \<and>
     map rdate (theoretical_balances st) = map br_date benchmark_returns \<and>
     map balance (theoretical_balances st) =
       map point_theoretical
         (mpme_points (mpme_weight L transactions investment_returns)
            (net_on L transactions (Contribution L)) 0 None benchmark_returns) \<and>
     map date (weighted_distributions st) = map br_date benchmark_returns \<and>
     map val (weighted_distributions st) =
       map (\<lambda>p. Some (point_weighted_distribution p))
         (mpme_points (mpme_weight L transactions investment_returns)
            (net_on L transactions (Contribution L)) 0 None benchmark_returns)"
proof -
  have c0: "Contribution L \<noteq> 0" and d0: "Distribution L \<noteq> 0"
    using assms(1) by (simp_all add: well_formed_def)
  obtain C where C: "aggregated_by_date L transactions (Contribution L) = Inr C"
    using aggregated_by_date_returns[OF assms(1) c0] by blast
  obtain D where D: "aggregated_by_date L transactions (Distribution L) = Inr D"
    using aggregated_by_date_returns[OF assms(1) d0] by blast
  have "\<forall>r\<in>set investment_returns. return_to_datetime L r =
      Inr \<lparr>rdate = the (strptime L (rdate r)), balance = balance r\<rparr>"
    using assms(3) by (auto simp: return_to_datetime_def)
  then have "collect (return_to_datetime L) investment_returns =
      Inr (map (\<lambda>r. \<lparr>rdate = the (strptime L (rdate r)), balance = balance r\<rparr>)
             investment_returns)"
    by (rule collect_map)
  then obtain dr where R: "collect (return_to_datetime L) investment_returns = Inr dr" ..
  have q: "\<forall>r\<in>set benchmark_returns. strptime L (br_date r) \<noteq> None \<and> br_balance r \<noteq> 0"
    using assms(2) by auto
  let ?st0 = "\<lparr>prev_theoretical_balance = None, prev_benchmark_balance = None,
              mp_cumulative_contributions = 0, cumulative_weighted_distributions = 0,
              theoretical_balances = [], weighted_distributions = []\<rparr>"
  have inv: "(case prev_benchmark_balance ?st0 of None \<Rightarrow> True | Some b \<Rightarrow> b \<noteq> 0)" by simp
  from mpme_loop_points[OF assms(1) C D R assms(3) q assms(4) inv, of calculate_tvpi]
  obtain st out where
    l: "run_loop (mpme_body L C D (sort_key rdate dr) calculate_tvpi) ?st0 benchmark_returns
        = Inr (st, out)"
    and r: "length out = length benchmark_returns"
      "map rdate (theoretical_balances st) = map br_date benchmark_returns"
      "map balance (theoretical_balances st) =
       map point_theoretical
         (mpme_points (mpme_weight L transactions investment_returns)
            (net_on L transactions (Contribution L)) 0 None benchmark_returns)"
      "map date (weighted_distributions st) = map br_date benchmark_returns"
      "map val (weighted_distributions st) =
       map (\<lambda>p. Some (point_weighted_distribution p))
         (mpme_points (mpme_weight L transactions investment_returns)
            (net_on L transactions (Contribution L)) 0 None benchmark_returns)"
    by auto
  have 1: "mpme_loop L benchmark_returns investment_returns transactions calculate_tvpi
      = Inr (C, st, out)"
    by (simp add: mpme_loop_def C D R l)
  then have 2: "calculate_mPME L benchmark_returns investment_returns transactions False
      calculate_tvpi = Inr out"
    by (simp add: calculate_mPME_def)
  from 1 2 r show ?thesis by blast
qed

theorem mpme_recurrence_witness:
  "\<exists>C st out.
     mpme_loop example_lib example_benchmark_returns example_investment_returns
       example_investment_transactions True = Inr (C, st, out) \<and>
     map rdate (theoretical_balances st) = [''2020-01-01'', ''2020-07-01'', ''2021-01-01''] \<and>
     map balance (theoretical_balances st) = [1000, 1100, 605] \<and>
     map val (weighted_distributions st) = [Some 0, Some 0, Some (- 605)]"
proof -
  have h2: "\<forall>r\<in>set example_benchmark_returns.
      strptime example_lib (br_date r) \<noteq> None \<and> 0 < br_balance r"
    unfolding example_lib_simps by (simp add: example_benchmark_returns_def example_dates)
  have h3: "\<forall>r\<in>set example_investment_returns. strptime example_lib (rdate r) \<noteq> None"
    unfolding example_lib_simps by (simp add: example_investment_returns_def example_dates)
  have h4: "weights_defined example_lib example_investment_transactions
      example_investment_returns example_benchmark_returns"
    by code_simp
  have n1: "map point_theoretical
      (mpme_points
         (mpme_weight example_lib example_investment_transactions example_investment_returns)
         (net_on example_lib example_investment_transactions (Contribution example_lib)) 0 None
         example_benchmark_returns) = [1000, 1100, 605]"
    by code_simp
  have n2: "map (\<lambda>p. Some (point_weighted_distribution p))
      (mpme_points
         (mpme_weight example_lib example_investment_transactions example_investment_returns)
         (net_on example_lib example_investment_transactions (Contribution example_lib)) 0 None
         example_benchmark_returns) = [Some 0, Some 0, Some (- 605)]"
    by code_simp
  have d: "map br_date example_benchmark_returns = [''2020-01-01'', ''2020-07-01'', ''2021-01-01'']"
    by (simp add: example_benchmark_returns_def)
  from mpme_recurrence[OF example_well_formed h2 h3 h4, of True]
  obtain C st out where
    "mpme_loop example_lib example_benchmark_returns example_investment_returns
       example_investment_transactions True = Inr (C, st, out)"
    "map rdate (theoretical_balances st) = [''2020-01-01'', ''2020-07-01'', ''2021-01-01'']"
    "map balance (theoretical_balances st) = [1000, 1100, 605]"
    "map val (weighted_distributions st) = [Some 0, Some 0, Some (- 605)]"
    unfolding n1 n2 d by auto
  then show ?thesis by (intro exI conjI)
qed

text \<open>
  With a distribution recorded as a positive amount the weight is not the one of
  magnitudes: for a distribution of 600 and a most recent balance of 1200 the function
  weighs by \<open>-600 / (-600 + 1200) = -1\<close>, not by \<open>600 / (600 + 1200)\<close>.
\<close>

theorem mpme_weight_positive_distribution_counterexample:
  "mpme_theoretical_balances example_lib example_benchmark_returns
     [\<lparr>rdate = ''2021-01-01'', balance = 1200\<rparr>]
     [\<lparr>date = ''2020-01-01'', val = Some 1000, transactionTypeId = Some 1\<rparr>,
      \<lparr>date = ''2021-01-01'', val = Some 600, transactionTypeId = Some 2\<rparr>]
     = Some [1000, 1100, 2420] \<and>
   map point_theoretical
     (mpme_points
        (magnitude_weight example_lib
           [\<lparr>date = ''2020-01-01'', val = Some 1000, transactionTypeId = Some 1\<rparr>,
            \<lparr>date = ''2021-01-01'', val = Some 600, transactionTypeId = Some 2\<rparr>]
           [\<lparr>rdate = ''2021-01-01'', balance = 1200\<rparr>])
        (net_on example_lib
           [\<lparr>date = ''2020-01-01'', val = Some 1000, transactionTypeId = Some 1\<rparr>,
            \<lparr>date = ''2021-01-01'', val = Some 600, transactionTypeId = Some 2\<rparr>]
           (Contribution example_lib))
        0 None example_benchmark_returns)
     = [1000, 1100, 2420 / 3] \<and>
   (2420 :: real) \<noteq> 2420 / 3"
  by code_simp

end
